theory Spec2Isabelle
  imports Main "HOL-Library.Word" "HOL-Library.Sublist"
begin

unbundle bit_operations_syntax

section \<open>Kernel: machine words, configuration and the page-frame table\<close>

text \<open>
  Addresses, sizes and register values are 64-bit machine words (\<open>uintptr_t\<close>,
  \<open>size_t\<close>, \<open>uint64_t\<close>): addition and subtraction wrap around, comparisons
  are unsigned.

  The headers \<open>kernel.h\<close>, \<open>lib.h\<close> and \<open>x86-64.h\<close> are not among the sources.
  The page size (4096 bytes, spec glossary) and the x86-64 permission bits are fixed;
  the sizes \<open>MEMSIZE_VIRTUAL\<close> and \<open>NPAGES\<close> that only those headers give are
  parameters of the model (record \<open>kconfig\<close>), so every theorem holds for each value.
\<close>

type_synonym uintptr_t = "64 word"

record kconfig =
  MEMSIZE_VIRTUAL :: uintptr_t
  NPAGES :: uintptr_t
  NPROC :: int

definition PAGESIZE :: uintptr_t where
  "PAGESIZE = 4096"

definition PTE_P :: uintptr_t where
  "PTE_P = 1"

definition PTE_W :: uintptr_t where
  "PTE_W = 2"

definition PTE_U :: uintptr_t where
  "PTE_U = 4"

text \<open>\<open>ROUNDDOWN(a, n)\<close> and \<open>ROUNDUP(a, n)\<close> in unsigned 64-bit arithmetic.\<close>

definition ROUNDDOWN :: "uintptr_t \<Rightarrow> uintptr_t \<Rightarrow> uintptr_t" where
  "ROUNDDOWN a n = a - a mod n"

definition ROUNDUP :: "uintptr_t \<Rightarrow> uintptr_t \<Rightarrow> uintptr_t" where
  "ROUNDUP a n = ROUNDDOWN (a + n - 1) n"

definition PAGENUMBER :: "uintptr_t \<Rightarrow> uintptr_t" where
  "PAGENUMBER a = a div PAGESIZE"

definition PAGEADDRESS :: "nat \<Rightarrow> uintptr_t" where
  "PAGEADDRESS n = of_nat n * PAGESIZE"

definition PAGEOFFSET :: "uintptr_t \<Rightarrow> uintptr_t" where
  "PAGEOFFSET a = a mod PAGESIZE"

text \<open>
  \<open>pageinfo[]\<close>: one record per physical frame. The owner is a process id or one of
  the \<open>pageowner_t\<close> tags.  Modelled from the spec: the record's declaration is in
  \<open>kernel.h\<close>; the reference count is a non-negative integer (spec section 3).
\<close>

record physical_pageinfo =
  owner :: int
  refcount :: nat

definition PO_FREE :: int where
  "PO_FREE = 0"

definition PO_RESERVED :: int where
  "PO_RESERVED = - 1"

definition PO_KERNEL :: int where
  "PO_KERNEL = - 2"

text \<open>What the kernel writes with \<open>log_printf\<close> and \<open>console_printf\<close>, as events.\<close>

datatype log_event =
    LogFreeNull
  | LogFreeOutOfBounds uintptr_t
  | LogPageFreed uintptr_t uintptr_t
  | LogFreeUnallocated uintptr_t
  | LogVaNotMapped uintptr_t
  | LogClearMappingFailed uintptr_t
  | LogPhysicalPageFreed uintptr_t uintptr_t
  | LogUnmapFailed uintptr_t
  | ConsoleOutOfMemory int
  | ConsolePageFault int uintptr_t

datatype procstate = P_FREE | P_RUNNABLE | P_BLOCKED | P_BROKEN

datatype intno =
    INT_SYS_PANIC | INT_SYS_GETPID | INT_SYS_FORK | INT_SYS_MAPPING | INT_SYS_EXIT
  | INT_SYS_YIELD | INT_SYS_BRK | INT_SYS_SBRK | INT_SYS_PAGE_ALLOC | INT_SYS_MEM_TOG
  | INT_TIMER | INT_PAGEFAULT | INT_GPF | INT_OTHER nat

record x86_64_registers =
  reg_rax :: uintptr_t
  reg_rdi :: uintptr_t
  reg_rsi :: uintptr_t
  reg_rip :: uintptr_t
  reg_intno :: intno
  reg_err :: uintptr_t

record proc =
  p_pid :: int
  p_registers :: x86_64_registers
  p_state :: procstate
  p_pagetable :: uintptr_t
  display_status :: bool
  program_break :: uintptr_t
  original_break :: uintptr_t

subsection \<open>Page tables\<close>

text \<open>
  A four-level radix tree (spec section 3): the root and two interior levels hold, per
  index, either nothing or the frame address of the next-level table together with
  that table; a level-4 table holds 512 leaf entries, each a 64-bit word
  \<open>pa | perm\<close> (0 when empty).  The tree is kept by value, so a table's contents are
  not read from \<open>physmem\<close>.  A process names its root by address
  (\<open>p_pagetable\<close>); the kernel state maps root addresses to trees.

  In the kernel state, \<open>physmem\<close> is physical memory by byte, \<open>current\<close> the index
  of the running process in \<open>processes[]\<close>, and \<open>vam_written\<close> lists the lookup
  records \<open>syscall_mapping\<close> has copied out (destination physical address, record):
  the byte image of a \<open>vamapping\<close>, padding included, is not modelled.
\<close>

datatype 'a ptslot = NoTable | Table uintptr_t 'a

type_synonym l4pagetable = "nat \<Rightarrow> uintptr_t"
type_synonym l3pagetable = "nat \<Rightarrow> l4pagetable ptslot"
type_synonym l2pagetable = "nat \<Rightarrow> l3pagetable ptslot"
type_synonym x86_64_pagetable = "nat \<Rightarrow> l2pagetable ptslot"

record vamapping =
  vam_pn :: int
  vam_pa :: uintptr_t
  vam_perm :: uintptr_t

record kstate =
  pageinfo :: "nat \<Rightarrow> physical_pageinfo"
  pagetables :: "uintptr_t \<Rightarrow> x86_64_pagetable"
  physmem :: "uintptr_t \<Rightarrow> 8 word"
  processes :: "nat \<Rightarrow> proc"
  current :: nat
  ticks :: "32 word"
  disp_global :: bool
  vam_written :: "(uintptr_t \<times> vamapping) list"
  klog :: "log_event list"

definition log_printf :: "log_event \<Rightarrow> kstate \<Rightarrow> kstate" where
  "log_printf e s = s\<lparr>klog := klog s @ [e]\<rparr>"

subsection \<open>\<open>freepage\<close> (kernel.c, lines 164-192)\<close>

definition freepage :: "kconfig \<Rightarrow> kstate \<Rightarrow> uintptr_t \<Rightarrow> kstate" where
  "freepage cfg s pa =
     (if pa = 0 then log_printf LogFreeNull s
      else
        let aligned_pa = ROUNDDOWN pa PAGESIZE;
            page_number = aligned_pa div PAGESIZE
        in if page_number \<ge> NPAGES cfg then log_printf (LogFreeOutOfBounds pa) s
           else if refcount (pageinfo s (unat page_number)) > 0 then
             let pi = pageinfo s (unat page_number);
                 pi1 = pi\<lparr>refcount := refcount pi - 1\<rparr>
             in if refcount pi1 = 0
                then log_printf (LogPageFreed page_number aligned_pa)
                       (s\<lparr>pageinfo := (pageinfo s)(unat page_number := pi1\<lparr>owner := PO_FREE\<rparr>)\<rparr>)
                else s\<lparr>pageinfo := (pageinfo s)(unat page_number := pi1)\<rparr>
           else log_printf (LogFreeUnallocated pa) s)"

text \<open>The frame invariant of spec section 3: a frame is unreferenced iff it is free.\<close>

definition pageinfo_ok :: "kconfig \<Rightarrow> kstate \<Rightarrow> bool" where
  "pageinfo_ok cfg s =
     (\<forall>n \<in> {0..<unat (NPAGES cfg)}.
        (refcount (pageinfo s n) = 0) = (owner (pageinfo s n) = PO_FREE))"


subsection \<open>The page-table walker and the frame allocator\<close>

text \<open>
  Modelled from the spec: \<open>virtual_memory_lookup\<close>, \<open>virtual_memory_map\<close> and
  \<open>palloc\<close> are called by kernel.c but defined in files that are not among the
  sources.  The definitions below follow spec sections 4.1 (Allocate-for) and 4.2
  (Lookup, Map): lookup descends four levels and returns the sentinel frame number
  \<open>-1\<close> when a level is absent; map allocates each missing interior table from the
  frame allocator for the root's owner, fails when that allocation fails (leaving the
  tables it has installed), and stores \<open>pa | perm\<close> in the leaf, an empty entry when
  \<open>perm\<close> is 0; the allocator takes the lowest frame whose reference count is 0.
\<close>

definition L1PAGEINDEX :: "uintptr_t \<Rightarrow> nat" where
  "L1PAGEINDEX va = unat va div 2 ^ 39 mod 512"

definition L2PAGEINDEX :: "uintptr_t \<Rightarrow> nat" where
  "L2PAGEINDEX va = unat va div 2 ^ 30 mod 512"

definition L3PAGEINDEX :: "uintptr_t \<Rightarrow> nat" where
  "L3PAGEINDEX va = unat va div 2 ^ 21 mod 512"

definition L4PAGEINDEX :: "uintptr_t \<Rightarrow> nat" where
  "L4PAGEINDEX va = unat va div 2 ^ 12 mod 512"

text \<open>The path of a virtual address through the four levels.\<close>

definition pagepath :: "uintptr_t \<Rightarrow> nat \<times> nat \<times> nat \<times> nat" where
  "pagepath va = (L1PAGEINDEX va, L2PAGEINDEX va, L3PAGEINDEX va, L4PAGEINDEX va)"

definition PTE_ADDR :: "uintptr_t \<Rightarrow> uintptr_t" where
  "PTE_ADDR pe = pe AND NOT 0xFFF"

definition PTE_FLAGS :: "uintptr_t \<Rightarrow> uintptr_t" where
  "PTE_FLAGS pe = pe AND 0xFFF"

definition no_mapping :: vamapping where
  "no_mapping = \<lparr>vam_pn = - 1, vam_pa = - 1, vam_perm = 0\<rparr>"

definition leaf_mapping :: "uintptr_t \<Rightarrow> uintptr_t \<Rightarrow> vamapping" where
  "leaf_mapping pe va =
     (if pe AND PTE_P = 0 then no_mapping
      else \<lparr>vam_pn = uint (PAGENUMBER pe),
            vam_pa = PTE_ADDR pe + PAGEOFFSET va,
            vam_perm = PTE_FLAGS pe\<rparr>)"

definition virtual_memory_lookup :: "x86_64_pagetable \<Rightarrow> uintptr_t \<Rightarrow> vamapping" where
  "virtual_memory_lookup pt va =
     (case pt (L1PAGEINDEX va) of
        NoTable \<Rightarrow> no_mapping
      | Table a2 t2 \<Rightarrow>
          (case t2 (L2PAGEINDEX va) of
             NoTable \<Rightarrow> no_mapping
           | Table a3 t3 \<Rightarrow>
               (case t3 (L3PAGEINDEX va) of
                  NoTable \<Rightarrow> no_mapping
                | Table a4 t4 \<Rightarrow> leaf_mapping (t4 (L4PAGEINDEX va)) va)))"

definition palloc :: "kconfig \<Rightarrow> kstate \<Rightarrow> int \<Rightarrow> uintptr_t \<times> kstate" where
  "palloc cfg s pid =
     (case find (\<lambda>n. refcount (pageinfo s n) = 0) [0..<unat (NPAGES cfg)] of
        None \<Rightarrow> (0, s)
      | Some n \<Rightarrow>
          (PAGEADDRESS n, s\<lparr>pageinfo := (pageinfo s)(n := \<lparr>owner = pid, refcount = 1\<rparr>)\<rparr>))"

definition leaf_entry :: "uintptr_t \<Rightarrow> uintptr_t \<Rightarrow> uintptr_t" where
  "leaf_entry pa perm = (if perm = 0 then 0 else pa OR perm)"

text \<open>
  One level of map: \<open>slot\<close> is the entry of the level above.  The result is the
  status (0 or \<open>-1\<close>), the state after the allocations, and the entry to store.
\<close>

definition map_l4 ::
  "kconfig \<Rightarrow> kstate \<Rightarrow> int \<Rightarrow> l4pagetable ptslot \<Rightarrow> uintptr_t \<Rightarrow> uintptr_t
     \<Rightarrow> int \<times> kstate \<times> l4pagetable ptslot" where
  "map_l4 cfg s own slot va pe =
     (case slot of
        Table a t \<Rightarrow> (0, s, Table a (t(L4PAGEINDEX va := pe)))
      | NoTable \<Rightarrow>
          (case palloc cfg s own of
             (a, s1) \<Rightarrow>
               if a = 0 then (- 1, s1, NoTable)
               else (0, s1, Table a ((\<lambda>_. 0)(L4PAGEINDEX va := pe)))))"

definition map_l3 ::
  "kconfig \<Rightarrow> kstate \<Rightarrow> int \<Rightarrow> l3pagetable ptslot \<Rightarrow> uintptr_t \<Rightarrow> uintptr_t
     \<Rightarrow> int \<times> kstate \<times> l3pagetable ptslot" where
  "map_l3 cfg s own slot va pe =
     (case slot of
        Table a t \<Rightarrow>
          (case map_l4 cfg s own (t (L3PAGEINDEX va)) va pe of
             (r, s1, sl) \<Rightarrow> (r, s1, Table a (t(L3PAGEINDEX va := sl))))
      | NoTable \<Rightarrow>
          (case palloc cfg s own of
             (a, s1) \<Rightarrow>
               if a = 0 then (- 1, s1, NoTable)
               else (case map_l4 cfg s1 own NoTable va pe of
                       (r, s2, sl) \<Rightarrow>
                         (r, s2, Table a ((\<lambda>_. NoTable)(L3PAGEINDEX va := sl))))))"

definition map_l2 ::
  "kconfig \<Rightarrow> kstate \<Rightarrow> int \<Rightarrow> l2pagetable ptslot \<Rightarrow> uintptr_t \<Rightarrow> uintptr_t
     \<Rightarrow> int \<times> kstate \<times> l2pagetable ptslot" where
  "map_l2 cfg s own slot va pe =
     (case slot of
        Table a t \<Rightarrow>
          (case map_l3 cfg s own (t (L2PAGEINDEX va)) va pe of
             (r, s1, sl) \<Rightarrow> (r, s1, Table a (t(L2PAGEINDEX va := sl))))
      | NoTable \<Rightarrow>
          (case palloc cfg s own of
             (a, s1) \<Rightarrow>
               if a = 0 then (- 1, s1, NoTable)
               else (case map_l3 cfg s1 own NoTable va pe of
                       (r, s2, sl) \<Rightarrow>
                         (r, s2, Table a ((\<lambda>_. NoTable)(L2PAGEINDEX va := sl))))))"

text \<open>Map one page: walk from the root, then store the root's updated entry.\<close>

definition map_page ::
  "kconfig \<Rightarrow> kstate \<Rightarrow> uintptr_t \<Rightarrow> uintptr_t \<Rightarrow> uintptr_t \<Rightarrow> uintptr_t
     \<Rightarrow> int \<times> kstate" where
  "map_page cfg s pagetable va pa perm =
     (let own = owner (pageinfo s (unat (PAGENUMBER pagetable)));
          pt = pagetables s pagetable
      in case map_l2 cfg s own (pt (L1PAGEINDEX va)) va (leaf_entry pa perm) of
           (r, s1, sl) \<Rightarrow>
             (r, s1\<lparr>pagetables := (pagetables s1)(pagetable := pt(L1PAGEINDEX va := sl))\<rparr>))"

text \<open>Map \<open>n\<close> consecutive pages; the first failure stops the loop.\<close>

fun map_pages ::
  "kconfig \<Rightarrow> kstate \<Rightarrow> uintptr_t \<Rightarrow> uintptr_t \<Rightarrow> uintptr_t \<Rightarrow> uintptr_t \<Rightarrow> nat
     \<Rightarrow> int \<times> kstate" where
  "map_pages cfg s pagetable va pa perm 0 = (0, s)"
| "map_pages cfg s pagetable va pa perm (Suc n) =
     (case map_page cfg s pagetable va pa perm of
        (r, s1) \<Rightarrow>
          if r < 0 then (r, s1)
          else map_pages cfg s1 pagetable (va + PAGESIZE) (pa + PAGESIZE) perm n)"

definition virtual_memory_map ::
  "kconfig \<Rightarrow> kstate \<Rightarrow> uintptr_t \<Rightarrow> uintptr_t \<Rightarrow> uintptr_t \<Rightarrow> uintptr_t \<Rightarrow> uintptr_t
     \<Rightarrow> int \<times> kstate" where
  "virtual_memory_map cfg s pagetable va pa sz perm =
     map_pages cfg s pagetable va pa perm (unat (sz div PAGESIZE))"

text \<open>\<open>memset(pa, c, n)\<close> on physical memory: the bytes \<open>pa, pa + 1, ..., pa + n - 1\<close>.\<close>

definition memset :: "kstate \<Rightarrow> uintptr_t \<Rightarrow> 8 word \<Rightarrow> uintptr_t \<Rightarrow> kstate" where
  "memset s pa c n = s\<lparr>physmem := (\<lambda>a. if a - pa < n then c else physmem s a)\<rparr>"

subsection \<open>\<open>virtual_memory_unmap\<close> and \<open>sbrk\<close> (kernel.c, lines 195-255)\<close>

text \<open>A failed \<open>assert\<close> and \<open>kernel_panic\<close> stop the kernel: they are results.\<close>

datatype panic =
    PanicAssert
  | PanicNoMessage
  | PanicMessage "8 word list"
  | PanicKernelPageFault uintptr_t

definition virtual_memory_unmap ::
  "kconfig \<Rightarrow> kstate \<Rightarrow> uintptr_t \<Rightarrow> uintptr_t \<Rightarrow> panic + int \<times> kstate" where
  "virtual_memory_unmap cfg s pagetable va =
     (if pagetable = 0 then Inl PanicAssert
      else
        let map = virtual_memory_lookup (pagetables s pagetable) va
        in if vam_pn map = - 1 then Inr (0, log_printf (LogVaNotMapped va) s)
           else
             (case virtual_memory_map cfg s pagetable va 0 PAGESIZE 0 of
                (r, s1) \<Rightarrow>
                  if r < 0 then Inr (- 1, log_printf (LogClearMappingFailed va) s1)
                  else if vam_pa map \<noteq> 0
                    then Inr (0, log_printf (LogPhysicalPageFreed (vam_pa map) va)
                                   (freepage cfg s1 (vam_pa map)))
                    else Inr (0, s1)))"

text \<open>
  The loop of \<open>sbrk\<close> over the pages to unmap.  In 64-bit arithmetic
  \<open>addr += PAGESIZE\<close> can wrap, so the loop is a partial function: \<open>None\<close> is a
  loop that never ends.
\<close>

partial_function (option) sbrk_unmap_loop ::
  "kconfig \<Rightarrow> kstate \<Rightarrow> uintptr_t \<Rightarrow> uintptr_t \<Rightarrow> uintptr_t
     \<Rightarrow> (panic + int \<times> kstate) option" where
  "sbrk_unmap_loop cfg s pagetable addr al_oldbreak =
     (if addr < al_oldbreak then
        (case virtual_memory_unmap cfg s pagetable addr of
           Inl e \<Rightarrow> Some (Inl e)
         | Inr (r, s1) \<Rightarrow>
             if r < 0 then Some (Inr (- 1, log_printf (LogUnmapFailed addr) s1))
             else sbrk_unmap_loop cfg s1 pagetable (addr + PAGESIZE) al_oldbreak)
      else Some (Inr (0, s)))"

definition set_program_break :: "nat \<Rightarrow> uintptr_t \<Rightarrow> kstate \<Rightarrow> kstate" where
  "set_program_break p b s =
     s\<lparr>processes := (processes s)(p := (processes s p)\<lparr>program_break := b\<rparr>)\<rparr>"

text \<open>\<open>sbrk(p, difference)\<close>; \<open>p\<close> is the index of the process in \<open>processes[]\<close>.\<close>

definition sbrk ::
  "kconfig \<Rightarrow> kstate \<Rightarrow> nat \<Rightarrow> uintptr_t \<Rightarrow> (panic + int \<times> kstate) option" where
  "sbrk cfg s p difference =
     (if p_pagetable (processes s p) = 0 then Some (Inl PanicAssert)
      else
        let oldbreak = program_break (processes s p);
            newbreak = oldbreak + difference
        in if newbreak < original_break (processes s p)
              \<or> newbreak \<ge> MEMSIZE_VIRTUAL cfg - PAGESIZE
           then Some (Inr (- 1, s))
           else if newbreak > oldbreak then Some (Inr (0, set_program_break p newbreak s))
           else if newbreak < oldbreak then
             (let al_oldbreak = ROUNDUP oldbreak PAGESIZE;
                  al_newbreak = ROUNDUP newbreak PAGESIZE
              in case sbrk_unmap_loop cfg s (p_pagetable (processes s p))
                        al_newbreak al_oldbreak of
                   None \<Rightarrow> None
                 | Some (Inl e) \<Rightarrow> Some (Inl e)
                 | Some (Inr (r, s1)) \<Rightarrow>
                     if r < 0 then Some (Inr (- 1, s1))
                     else Some (Inr (0, set_program_break p newbreak s1)))
           else Some (Inr (0, s)))"

subsection \<open>\<open>syscall_mapping\<close> and \<open>syscall_mem_tog\<close> (kernel.c, lines 257-290)\<close>

text \<open>
  \<open>sizeof(vamapping)\<close>: the struct has an \<open>int\<close>, a \<open>uintptr_t\<close> and an \<open>int\<close>,
  24 bytes under the x86-64 ABI.
\<close>

definition sizeof_vamapping :: uintptr_t where
  "sizeof_vamapping = 24"

definition syscall_mapping :: "kstate \<Rightarrow> nat \<Rightarrow> kstate" where
  "syscall_mapping s p =
     (let mapping_ptr = reg_rdi (p_registers (processes s p));
          ptr = reg_rsi (p_registers (processes s p));
          pt = pagetables s (p_pagetable (processes s p));
          map = virtual_memory_lookup pt mapping_ptr
      in if vam_perm map AND (PTE_W OR PTE_U) \<noteq> (PTE_W OR PTE_U) then s
         else
           let endaddr = mapping_ptr + sizeof_vamapping - 1
           in if PAGENUMBER endaddr \<noteq> PAGENUMBER ptr
                 \<and> vam_perm (virtual_memory_lookup pt endaddr) AND (PTE_W OR PTE_P)
                     \<noteq> (PTE_W OR PTE_P)
              then s
              else
                let ptr_lookup = virtual_memory_lookup pt ptr
                in s\<lparr>vam_written := vam_written s @ [(vam_pa map, ptr_lookup)]\<rparr>)"

text \<open>\<open>pid_t p = reg_rdi\<close>: the register's low 32 bits, read as a signed \<open>int\<close>.\<close>

definition syscall_mem_tog :: "kconfig \<Rightarrow> kstate \<Rightarrow> nat \<Rightarrow> kstate" where
  "syscall_mem_tog cfg s process =
     (let p = sint (ucast (reg_rdi (p_registers (processes s process))) :: 32 word)
      in if p = 0 then s\<lparr>disp_global := \<not> disp_global s\<rparr>
         else if p < 0 \<or> p > NPROC cfg \<or> p \<noteq> p_pid (processes s process) then s
         else s\<lparr>processes := (processes s)(process :=
                  (processes s process)\<lparr>display_status :=
                     \<not> display_status (processes s process)\<rparr>)\<rparr>)"

subsection \<open>\<open>exception\<close> (kernel.c, lines 303-527)\<close>

text \<open>
  How \<open>exception\<close> ends: the kernel halts, \<open>run(current)\<close> resumes the current
  process, \<open>schedule()\<close> picks another one, or the trap is handled by a function that
  is not among the sources (\<open>process_fork\<close>, \<open>process_free\<close>,
  \<open>process_page_alloc\<close>, \<open>default_exception\<close>).  The diagnostic calls before the
  switch (\<open>check_virtual_memory\<close>, the memory display, \<open>check_keyboard\<close>) are not
  modelled.  \<open>cr2\<close> is the value \<open>rcr2()\<close> reads.
\<close>

datatype outcome =
    Halted panic
  | Resumed kstate
  | Rescheduled kstate
  | Delegated intno kstate

definition PFERR_PRESENT :: uintptr_t where
  "PFERR_PRESENT = 1"

definition PFERR_WRITE :: uintptr_t where
  "PFERR_WRITE = 2"

definition PFERR_USER :: uintptr_t where
  "PFERR_USER = 4"

definition set_p_state :: "procstate \<Rightarrow> kstate \<Rightarrow> kstate" where
  "set_p_state st s =
     s\<lparr>processes := (processes s)(current s := (processes s (current s))\<lparr>p_state := st\<rparr>)\<rparr>"

definition set_reg_rax :: "uintptr_t \<Rightarrow> kstate \<Rightarrow> kstate" where
  "set_reg_rax v s =
     s\<lparr>processes := (processes s)(current s :=
          (processes s (current s))\<lparr>p_registers :=
             (p_registers (processes s (current s)))\<lparr>reg_rax := v\<rparr>\<rparr>)\<rparr>"

text \<open>\<open>current->p_registers = *reg\<close>, the first statement of \<open>exception\<close>.\<close>

definition save_registers :: "x86_64_registers \<Rightarrow> kstate \<Rightarrow> kstate" where
  "save_registers reg s =
     s\<lparr>processes := (processes s)(current s :=
          (processes s (current s))\<lparr>p_registers := reg\<rparr>)\<rparr>"

text \<open>The end of \<open>exception\<close>: return to the current process or run something else.\<close>

definition exception_return :: "kstate \<Rightarrow> outcome" where
  "exception_return s =
     (if p_state (processes s (current s)) = P_RUNNABLE then Resumed s else Rescheduled s)"

text \<open>
  Modelled from the spec: the kernel runs on its own page table (\<open>set_pagetable\<close>, the
  second statement of \<open>exception\<close>), which maps the \<open>NPAGES\<close> frames of physical
  memory at their own addresses (section 3; the table is built outside the sources).
  A kernel read of \<open>n\<close> bytes from \<open>pa\<close> gives the bytes when all of them lie in
  physical memory; otherwise the first byte outside it is a page fault in kernel mode,
  which the \<open>INT_PAGEFAULT\<close> case turns into a kernel panic (kernel.c, lines 443-447).
  \<open>Inl\<close> carries the faulting address.
\<close>

definition kernel_read ::
  "kconfig \<Rightarrow> kstate \<Rightarrow> uintptr_t \<Rightarrow> nat \<Rightarrow> uintptr_t + 8 word list" where
  "kernel_read cfg s pa n =
     (case find (\<lambda>i. unat (NPAGES cfg) * 4096 \<le> unat (pa + of_nat i)) [0..<n] of
        None \<Rightarrow> Inr (List.map (\<lambda>i. physmem s (pa + of_nat i)) [0..<n])
      | Some i \<Rightarrow> Inl (pa + of_nat i))"

text \<open>The \<open>INT_PAGEFAULT\<close> case, after the test for a kernel fault.\<close>

definition user_pagefault :: "kconfig \<Rightarrow> kstate \<Rightarrow> uintptr_t \<Rightarrow> kstate" where
  "user_pagefault cfg s addr =
     (let cur = processes s (current s)
      in if addr \<ge> original_break cur \<and> addr < program_break cur then
           let page_addr = ROUNDDOWN addr PAGESIZE;
               mapping = virtual_memory_lookup (pagetables s (p_pagetable cur)) page_addr
           in if vam_perm mapping AND PTE_P \<noteq> 0 then set_p_state P_RUNNABLE s
              else
                (case palloc cfg s (p_pid cur) of
                   (pa, s1) \<Rightarrow>
                     if pa = 0
                     then set_p_state P_BROKEN (log_printf (ConsoleOutOfMemory (p_pid cur)) s1)
                     else
                       let s2 = memset s1 pa 0 PAGESIZE
                       in (case virtual_memory_map cfg s2 (p_pagetable cur) page_addr pa
                                  PAGESIZE (PTE_P OR PTE_W OR PTE_U) of
                             (r, s3) \<Rightarrow>
                               if r < 0 then set_p_state P_BROKEN (freepage cfg s3 pa)
                               else set_p_state P_RUNNABLE s3))
         else set_p_state P_BROKEN (log_printf (ConsolePageFault (p_pid cur) addr) s))"

definition exception ::
  "kconfig \<Rightarrow> kstate \<Rightarrow> x86_64_registers \<Rightarrow> uintptr_t \<Rightarrow> outcome option" where
  "exception cfg s0 reg cr2 =
     (let s = save_registers reg s0;
          cur = processes s (current s)
      in case reg_intno reg of
           INT_SYS_PANIC \<Rightarrow>
             (let addr = reg_rdi (p_registers cur)
              in if addr = 0 then Some (Halted PanicNoMessage)
                 else
                   let map = virtual_memory_lookup (pagetables s (p_pagetable cur)) addr
                   in case kernel_read cfg s (vam_pa map) 160 of
                        Inl a \<Rightarrow> Some (Halted (PanicKernelPageFault a))
                      | Inr msg \<Rightarrow> Some (Halted (PanicMessage msg)))
         | INT_SYS_GETPID \<Rightarrow>
             Some (exception_return (set_reg_rax (of_int (p_pid cur)) s))
         | INT_SYS_FORK \<Rightarrow> Some (Delegated INT_SYS_FORK s)
         | INT_SYS_MAPPING \<Rightarrow> Some (exception_return (syscall_mapping s (current s)))
         | INT_SYS_EXIT \<Rightarrow> Some (Delegated INT_SYS_EXIT s)
         | INT_SYS_YIELD \<Rightarrow> Some (Rescheduled s)
         | INT_SYS_BRK \<Rightarrow>
             (let requested_break = reg_rdi (p_registers cur);
                  increment = requested_break - program_break cur
              in case sbrk cfg s (current s) increment of
                   None \<Rightarrow> None
                 | Some (Inl e) \<Rightarrow> Some (Halted e)
                 | Some (Inr (r, s1)) \<Rightarrow>
                     if r < 0 then Some (exception_return (set_reg_rax (- 1) s1))
                     else Some (exception_return (set_reg_rax 0 s1)))
         | INT_SYS_SBRK \<Rightarrow>
             (let increment = reg_rdi (p_registers cur);
                  old_break = program_break cur
              in case sbrk cfg s (current s) increment of
                   None \<Rightarrow> None
                 | Some (Inl e) \<Rightarrow> Some (Halted e)
                 | Some (Inr (r, s1)) \<Rightarrow>
                     if r < 0 then Some (exception_return (set_reg_rax (- 1) s1))
                     else Some (exception_return (set_reg_rax old_break s1)))
         | INT_SYS_PAGE_ALLOC \<Rightarrow> Some (Delegated INT_SYS_PAGE_ALLOC s)
         | INT_SYS_MEM_TOG \<Rightarrow> Some (exception_return (syscall_mem_tog cfg s (current s)))
         | INT_TIMER \<Rightarrow> Some (Rescheduled (s\<lparr>ticks := ticks s + 1\<rparr>))
         | INT_PAGEFAULT \<Rightarrow>
             (if reg_err reg AND PFERR_USER = 0 then Some (Halted (PanicKernelPageFault cr2))
              else Some (exception_return (user_pagefault cfg s cr2)))
         | INT_GPF \<Rightarrow> Some (Delegated INT_GPF s)
         | INT_OTHER n \<Rightarrow> Some (Delegated (INT_OTHER n) s))"

subsection \<open>Auxiliary functions for the proofs about page tables\<close>

text \<open>Lookup below one entry of a level: \<open>virtual_memory_lookup\<close> level by level.\<close>

fun lookup_l4 :: "l4pagetable ptslot \<Rightarrow> uintptr_t \<Rightarrow> vamapping" where
  "lookup_l4 NoTable va = no_mapping"
| "lookup_l4 (Table a t) va = leaf_mapping (t (L4PAGEINDEX va)) va"

fun lookup_l3 :: "l3pagetable ptslot \<Rightarrow> uintptr_t \<Rightarrow> vamapping" where
  "lookup_l3 NoTable va = no_mapping"
| "lookup_l3 (Table a t) va = lookup_l4 (t (L3PAGEINDEX va)) va"

fun lookup_l2 :: "l2pagetable ptslot \<Rightarrow> uintptr_t \<Rightarrow> vamapping" where
  "lookup_l2 NoTable va = no_mapping"
| "lookup_l2 (Table a t) va = lookup_l3 (t (L2PAGEINDEX va)) va"

text \<open>Two states that differ at most in the page-frame table.\<close>

definition same_but_pageinfo :: "kstate \<Rightarrow> kstate \<Rightarrow> bool" where
  "same_but_pageinfo s s1 =
     (pagetables s1 = pagetables s \<and> physmem s1 = physmem s \<and> processes s1 = processes s \<and>
      current s1 = current s \<and> ticks s1 = ticks s \<and> disp_global s1 = disp_global s \<and>
      vam_written s1 = vam_written s \<and> klog s1 = klog s)"

text \<open>
  Two states that differ at most in frames that were free: what a run of the frame
  allocator leaves.
\<close>

definition keeps_used :: "kstate \<Rightarrow> kstate \<Rightarrow> bool" where
  "keeps_used s s1 =
     (same_but_pageinfo s s1 \<and>
      (\<forall>n. refcount (pageinfo s n) \<noteq> 0 \<longrightarrow> pageinfo s1 n = pageinfo s n))"

text \<open>The state \<open>virtual_memory_unmap\<close> returns for a non-null page table.\<close>

definition unmap_one :: "kconfig \<Rightarrow> kstate \<Rightarrow> uintptr_t \<Rightarrow> uintptr_t \<Rightarrow> kstate" where
  "unmap_one cfg s pagetable va =
     (let map = virtual_memory_lookup (pagetables s pagetable) va
      in if vam_pn map = - 1 then log_printf (LogVaNotMapped va) s
         else
           let s1 = snd (map_page cfg s pagetable va 0 0)
           in if vam_pa map \<noteq> 0
              then log_printf (LogPhysicalPageFreed (vam_pa map) va) (freepage cfg s1 (vam_pa map))
              else s1)"

text \<open>The state after unmapping \<open>n\<close> consecutive pages from \<open>addr\<close> on.\<close>

fun unmap_pages :: "kconfig \<Rightarrow> kstate \<Rightarrow> uintptr_t \<Rightarrow> uintptr_t \<Rightarrow> nat \<Rightarrow> kstate" where
  "unmap_pages cfg s pagetable addr 0 = s"
| "unmap_pages cfg s pagetable addr (Suc n) =
     unmap_pages cfg (unmap_one cfg s pagetable addr) pagetable (addr + PAGESIZE) n"

text \<open>The start addresses of \<open>n\<close> consecutive pages from \<open>addr\<close> on.\<close>

definition page_range :: "uintptr_t \<Rightarrow> nat \<Rightarrow> uintptr_t list" where
  "page_range addr n = map (\<lambda>k. addr + of_nat k * PAGESIZE) [0..<n]"

text \<open>The frames that back the mapped pages among \<open>vas\<close>, frame 0 left out.\<close>

definition backing_frames :: "x86_64_pagetable \<Rightarrow> uintptr_t list \<Rightarrow> uintptr_t list" where
  "backing_frames pt vas =
     map (\<lambda>va. vam_pa (virtual_memory_lookup pt va))
       (filter (\<lambda>va. vam_pn (virtual_memory_lookup pt va) \<noteq> - 1
                    \<and> vam_pa (virtual_memory_lookup pt va) \<noteq> 0) vas)"

text \<open>What unmapping pages of the table at \<open>root\<close> leaves alone.\<close>

definition unmap_frame :: "uintptr_t \<Rightarrow> kstate \<Rightarrow> kstate \<Rightarrow> bool" where
  "unmap_frame root s s1 =
     ((\<forall>root'. root' \<noteq> root \<longrightarrow> pagetables s1 root' = pagetables s root') \<and>
      physmem s1 = physmem s \<and> processes s1 = processes s \<and> current s1 = current s \<and>
      ticks s1 = ticks s \<and> disp_global s1 = disp_global s \<and> vam_written s1 = vam_written s)"

subsection \<open>The panic message as the specification describes it\<close>

text \<open>
  These two definitions follow the words of the spec (section 4.7, \<open>panic\<close>, and
  section 7), not the code; they are what the code is compared with.  Each of the 160
  bytes is read through the mapping of its own page, and a window whose first or last
  page is not present and user-accessible gives no message.
\<close>

definition panic_message_following_mappings ::
  "kstate \<Rightarrow> x86_64_pagetable \<Rightarrow> uintptr_t \<Rightarrow> 8 word list" where
  "panic_message_following_mappings s pt addr =
     map (\<lambda>i. physmem s (vam_pa (virtual_memory_lookup pt (addr + of_nat i)))) [0..<160]"

definition panic_as_specified :: "kstate \<Rightarrow> x86_64_pagetable \<Rightarrow> uintptr_t \<Rightarrow> panic" where
  "panic_as_specified s pt addr =
     (if addr = 0 then PanicNoMessage
      else if vam_perm (virtual_memory_lookup pt addr) AND (PTE_P OR PTE_U) = (PTE_P OR PTE_U)
            \<and> vam_perm (virtual_memory_lookup pt (addr + 159)) AND (PTE_P OR PTE_U)
                = (PTE_P OR PTE_U)
      then PanicMessage (panic_message_following_mappings s pt addr)
      else PanicNoMessage)"

section \<open>User heap: the allocator of malloc.c\<close>

text \<open>
  The allocator keeps one header (\<open>free_block\<close>, 32 bytes) in front of every payload
  and links the headers into a list that starts at \<open>head\<close>.  The user heap is a
  store: \<open>hdr\<close> gives the header that lies at an address, \<open>bytes\<close> the payload bytes;
  each C statement that writes a header field is one update of that store, read back
  by the statements after it.  \<open>size_t\<close> and pointers are 64-bit words, \<open>int\<close> is a
  32-bit word read as signed.
\<close>

record free_block =
  b_size :: "64 word"
  b_next :: uintptr_t
  b_prev :: uintptr_t
  b_freed :: "32 word"

definition sizeof_free_block :: "64 word" where
  "sizeof_free_block = 32"

definition UINT64_MAX :: "64 word" where
  "UINT64_MAX = - 1"

text \<open>
  The static variables of malloc.c and the two static buffers of \<open>heap_info\<close>,
  together with the part of the process that \<open>sbrk\<close> reads and moves: the program
  break, the original break and the address the break has to stay below
  (\<open>MEMSIZE_VIRTUAL - PAGESIZE\<close> of the kernel).
\<close>

record heap =
  hdr :: "uintptr_t \<Rightarrow> free_block"
  bytes :: "uintptr_t \<Rightarrow> 8 word"
  head :: uintptr_t
  total_allocations :: "32 word"
  size_buffer :: "64 word list"
  ptr_buffer :: "uintptr_t list"
  heap_break :: uintptr_t
  heap_original_break :: uintptr_t
  heap_break_limit :: uintptr_t

definition set_hdr :: "heap \<Rightarrow> uintptr_t \<Rightarrow> (free_block \<Rightarrow> free_block) \<Rightarrow> heap" where
  "set_hdr h a f = h\<lparr>hdr := (hdr h)(a := f (hdr h a))\<rparr>"

text \<open>
  Modelled from the spec: the user-level stub \<open>sbrk\<close> (process.h, not among the
  sources) issues the system call of section 4.7: it moves the program break by the
  delta and returns the old break, or returns \<open>(uintptr_t) -1\<close> with no effect when the
  new break would lie below the original break or within one page of the top of the
  address space.  This is the test of the kernel's \<open>sbrk\<close> above.
\<close>

definition user_sbrk :: "heap \<Rightarrow> uintptr_t \<Rightarrow> uintptr_t \<times> heap" where
  "user_sbrk h difference =
     (let oldbreak = heap_break h;
          newbreak = oldbreak + difference
      in if newbreak < heap_original_break h \<or> newbreak \<ge> heap_break_limit h
         then (- 1, h)
         else (oldbreak, h\<lparr>heap_break := newbreak\<rparr>))"

text \<open>
  Modelled from the spec: \<open>memcpy\<close> of the C library (lib.c, not among the sources)
  copies \<open>n\<close> bytes one by one in ascending order.
\<close>

definition memcpy ::
  "(uintptr_t \<Rightarrow> 8 word) \<Rightarrow> uintptr_t \<Rightarrow> uintptr_t \<Rightarrow> 64 word \<Rightarrow> (uintptr_t \<Rightarrow> 8 word)" where
  "memcpy m dst src n = fold (\<lambda>i m. m(dst + of_nat i := m (src + of_nat i))) [0..<unat n] m"

subsection \<open>\<open>free\<close> (malloc.c, lines 38-118)\<close>

text \<open>The search for the place of \<open>block\<close>: \<open>while (current && current < block)\<close>.\<close>

partial_function (option) free_find ::
  "heap \<Rightarrow> uintptr_t \<Rightarrow> uintptr_t \<Rightarrow> uintptr_t \<Rightarrow> (uintptr_t \<times> uintptr_t) option" where
  "free_find h block cur prev =
     (if cur \<noteq> 0 \<and> cur < block
      then free_find h block (b_next (hdr h cur)) cur
      else Some (prev, cur))"

text \<open>The last loop of \<open>free\<close> walks the list to its end and changes nothing.\<close>

partial_function (option) free_walk :: "heap \<Rightarrow> uintptr_t \<Rightarrow> unit option" where
  "free_walk h cur =
     (if cur \<noteq> 0 then free_walk h (b_next (hdr h cur)) else Some ())"

definition free_insert :: "heap \<Rightarrow> uintptr_t \<Rightarrow> uintptr_t \<Rightarrow> uintptr_t \<Rightarrow> heap" where
  "free_insert h block prev cur =
     (let h1 = (if prev \<noteq> 0
                then set_hdr (set_hdr h prev (\<lambda>b. b\<lparr>b_next := block\<rparr>)) block
                       (\<lambda>b. b\<lparr>b_prev := prev\<rparr>)
                else set_hdr (h\<lparr>head := block\<rparr>) block (\<lambda>b. b\<lparr>b_prev := 0\<rparr>))
      in if cur \<noteq> 0
         then set_hdr (set_hdr h1 cur (\<lambda>b. b\<lparr>b_prev := block\<rparr>)) block
                (\<lambda>b. b\<lparr>b_next := cur\<rparr>)
         else set_hdr h1 block (\<lambda>b. b\<lparr>b_next := 0\<rparr>))"

definition coalesce_next :: "heap \<Rightarrow> uintptr_t \<Rightarrow> heap" where
  "coalesce_next h block =
     (if b_next (hdr h block) \<noteq> 0 \<and> b_freed (hdr h (b_next (hdr h block))) \<noteq> 0
         \<and> block + b_size (hdr h block) = b_next (hdr h block)
      then
        let h1 = set_hdr h block
                   (\<lambda>b. b\<lparr>b_size := b_size b + b_size (hdr h (b_next (hdr h block)))\<rparr>);
            h2 = set_hdr h1 block (\<lambda>b. b\<lparr>b_next := b_next (hdr h1 (b_next (hdr h1 block)))\<rparr>)
        in if b_next (hdr h2 block) \<noteq> 0
           then set_hdr h2 (b_next (hdr h2 block)) (\<lambda>b. b\<lparr>b_prev := block\<rparr>)
           else h2
      else h)"

definition coalesce_prev :: "heap \<Rightarrow> uintptr_t \<Rightarrow> heap" where
  "coalesce_prev h block =
     (if b_prev (hdr h block) \<noteq> 0 \<and> b_freed (hdr h (b_prev (hdr h block))) \<noteq> 0
         \<and> b_prev (hdr h block) + b_size (hdr h (b_prev (hdr h block))) = block
      then
        let h1 = set_hdr h (b_prev (hdr h block))
                   (\<lambda>b. b\<lparr>b_size := b_size b + b_size (hdr h block)\<rparr>);
            h2 = set_hdr h1 (b_prev (hdr h1 block)) (\<lambda>b. b\<lparr>b_next := b_next (hdr h1 block)\<rparr>)
        in if b_next (hdr h2 block) \<noteq> 0
           then set_hdr h2 (b_next (hdr h2 block)) (\<lambda>b. b\<lparr>b_prev := b_prev (hdr h2 block)\<rparr>)
           else h2
      else h)"

definition free :: "heap \<Rightarrow> uintptr_t \<Rightarrow> heap option" where
  "free h ptr =
     (if ptr = 0 then Some h
      else
        let h1 = h\<lparr>total_allocations := total_allocations h - 1\<rparr>;
            block = ptr - sizeof_free_block;
            h2 = set_hdr h1 block (\<lambda>b. b\<lparr>b_freed := 1\<rparr>)
        in if b_next (hdr h2 block) \<noteq> 0 \<or> b_prev (hdr h2 block) \<noteq> 0 \<or> block = head h2
           then Some h2
           else
             case free_find h2 block (head h2) 0 of
               None \<Rightarrow> None
             | Some (prev, cur) \<Rightarrow>
                 let h3 = coalesce_prev (coalesce_next (free_insert h2 block prev cur) block)
                            block
                 in case free_walk h3 (head h3) of None \<Rightarrow> None | Some u \<Rightarrow> Some h3)"

subsection \<open>\<open>malloc\<close> (malloc.c, lines 121-197)\<close>

text \<open>The best-fit loop, with its three local variables.\<close>

partial_function (option) malloc_scan ::
  "heap \<Rightarrow> 64 word \<Rightarrow> uintptr_t \<Rightarrow> uintptr_t \<Rightarrow> 64 word \<Rightarrow> uintptr_t option" where
  "malloc_scan h total_size cur best_fit min_size_diff =
     (if cur \<noteq> 0
      then
        if b_freed (hdr h cur) = 1 \<and> b_size (hdr h cur) \<ge> total_size
           \<and> b_size (hdr h cur) - total_size < min_size_diff
        then malloc_scan h total_size (b_next (hdr h cur)) cur
               (b_size (hdr h cur) - total_size)
        else malloc_scan h total_size (b_next (hdr h cur)) best_fit min_size_diff
      else Some best_fit)"

text \<open>The walk to the last block: \<open>while (current->next)\<close>.\<close>

partial_function (option) malloc_last :: "heap \<Rightarrow> uintptr_t \<Rightarrow> uintptr_t option" where
  "malloc_last h cur =
     (if b_next (hdr h cur) \<noteq> 0 then malloc_last h (b_next (hdr h cur))
      else Some cur)"

definition malloc_split :: "heap \<Rightarrow> uintptr_t \<Rightarrow> 64 word \<Rightarrow> heap" where
  "malloc_split h best_fit total_size =
     (if b_size (hdr h best_fit) \<ge> total_size + sizeof_free_block + 8
      then
        let new_block = best_fit + total_size;
            h1 = set_hdr h new_block (\<lambda>b. b\<lparr>b_size := b_size (hdr h best_fit) - total_size\<rparr>);
            h2 = set_hdr h1 new_block (\<lambda>b. b\<lparr>b_freed := 1\<rparr>);
            h3 = set_hdr h2 new_block (\<lambda>b. b\<lparr>b_next := b_next (hdr h2 best_fit)\<rparr>);
            h4 = set_hdr h3 new_block (\<lambda>b. b\<lparr>b_prev := best_fit\<rparr>);
            h5 = set_hdr h4 best_fit (\<lambda>b. b\<lparr>b_size := total_size\<rparr>);
            h6 = set_hdr h5 best_fit (\<lambda>b. b\<lparr>b_next := new_block\<rparr>)
        in if b_next (hdr h6 new_block) \<noteq> 0
           then set_hdr h6 (b_next (hdr h6 new_block)) (\<lambda>b. b\<lparr>b_prev := new_block\<rparr>)
           else h6
      else h)"

definition malloc :: "heap \<Rightarrow> 64 word \<Rightarrow> (uintptr_t \<times> heap) option" where
  "malloc h sz =
     (if sz = 0 then Some (0, h)
      else
        let align_size = (sz + 7) AND NOT 7;
            total_size = align_size + sizeof_free_block
        in case malloc_scan h total_size (head h) 0 UINT64_MAX of
             None \<Rightarrow> None
           | Some best_fit \<Rightarrow>
               if best_fit \<noteq> 0
               then
                 let h1 = malloc_split h best_fit total_size;
                     h2 = set_hdr h1 best_fit (\<lambda>b. b\<lparr>b_freed := 0\<rparr>);
                     h3 = h2\<lparr>total_allocations := total_allocations h2 + 1\<rparr>
                 in Some (best_fit + sizeof_free_block, h3)
               else
                 let (new_block, h1) = user_sbrk h total_size
                 in if new_block = - 1 then Some (0, h1)
                    else
                      let h2 = set_hdr h1 new_block
                                 (\<lambda>b. \<lparr>b_size = total_size, b_next = 0, b_prev = 0, b_freed = 0\<rparr>)
                      in if head h2 = 0
                         then Some (new_block + sizeof_free_block,
                                h2\<lparr>head := new_block,
                                   total_allocations := total_allocations h2 + 1\<rparr>)
                         else
                           case malloc_last h2 (head h2) of
                             None \<Rightarrow> None
                           | Some cur \<Rightarrow>
                               let h3 = set_hdr h2 cur (\<lambda>b. b\<lparr>b_next := new_block\<rparr>);
                                   h4 = set_hdr h3 new_block (\<lambda>b. b\<lparr>b_prev := cur\<rparr>)
                               in Some (new_block + sizeof_free_block,
                                    h4\<lparr>total_allocations := total_allocations h4 + 1\<rparr>))"

subsection \<open>\<open>realloc\<close> (malloc.c, lines 223-241)\<close>

definition realloc :: "heap \<Rightarrow> uintptr_t \<Rightarrow> 64 word \<Rightarrow> (uintptr_t \<times> heap) option" where
  "realloc h ptr sz =
     (if ptr = 0 then malloc h sz
      else if sz = 0 then (case free h ptr of None \<Rightarrow> None | Some h1 \<Rightarrow> Some (0, h1))
      else
        let block = ptr - sizeof_free_block
        in if b_size (hdr h block) \<ge> sz + sizeof_free_block then Some (ptr, h)
           else
             case malloc h sz of
               None \<Rightarrow> None
             | Some (new_ptr, h1) \<Rightarrow>
                 if new_ptr \<noteq> 0
                 then
                   let h2 = h1\<lparr>bytes := memcpy (bytes h1) new_ptr ptr
                                           (b_size (hdr h1 block) - sizeof_free_block)\<rparr>
                   in case free h2 ptr of None \<Rightarrow> None | Some h3 \<Rightarrow> Some (new_ptr, h3)
                 else Some (new_ptr, h1))"

subsection \<open>\<open>defrag\<close> (malloc.c, lines 244-289)\<close>

text \<open>The inner loop, one pass over the list; \<open>did_merge\<close> is threaded through.\<close>

partial_function (option) defrag_pass ::
  "heap \<Rightarrow> uintptr_t \<Rightarrow> bool \<Rightarrow> (heap \<times> bool) option" where
  "defrag_pass h cur did_merge =
     (if cur \<noteq> 0 \<and> b_next (hdr h cur) \<noteq> 0
      then
        if b_freed (hdr h cur) \<noteq> 0 \<and> b_freed (hdr h (b_next (hdr h cur))) \<noteq> 0
           \<and> cur + b_size (hdr h cur) = b_next (hdr h cur)
        then
          defrag_pass
            (let next = b_next (hdr h cur);
                 h1 = set_hdr h cur (\<lambda>b. b\<lparr>b_size := b_size b + b_size (hdr h next)\<rparr>);
                 h2 = set_hdr h1 cur (\<lambda>b. b\<lparr>b_next := b_next (hdr h1 next)\<rparr>)
             in if b_next (hdr h2 next) \<noteq> 0
                then set_hdr h2 (b_next (hdr h2 next)) (\<lambda>b. b\<lparr>b_prev := cur\<rparr>)
                else h2)
            cur True
        else defrag_pass h (b_next (hdr h cur)) did_merge
      else Some (h, did_merge))"

text \<open>The \<open>do ... while (did_merge)\<close> loop.\<close>

partial_function (option) defrag_loop :: "heap \<Rightarrow> heap option" where
  "defrag_loop h =
     Option.bind (defrag_pass h (head h) False)
       (\<lambda>r. if snd r then defrag_loop (fst r) else Some (fst r))"

definition defrag :: "heap \<Rightarrow> heap option" where
  "defrag h = (if head h = 0 then Some h else defrag_loop h)"

subsection \<open>\<open>heap_info\<close> (malloc.c, lines 358-443)\<close>

text \<open>
  Modelled from the spec: \<open>heap_info_struct\<close> is declared in malloc.h, which is not
  among the sources; section 3 gives its fields.  The two arrays point into the static
  buffers or are null; \<open>None\<close> is the null pointer.
\<close>

record heap_info_struct =
  num_allocs :: "32 word"
  size_array :: "64 word list option"
  ptr_array :: "uintptr_t list option"
  free_space :: "64 word"
  largest_free_chunk :: "64 word"

datatype fault = BufferOverrun

text \<open>The first pass: free space, largest free chunk and the count of live blocks.\<close>

partial_function (option) heap_info_tally ::
  "heap \<Rightarrow> uintptr_t \<Rightarrow> 64 word \<Rightarrow> 64 word \<Rightarrow> 32 word \<Rightarrow> (64 word \<times> 64 word \<times> 32 word) option" where
  "heap_info_tally h cur fs largest counted_allocs =
     (if cur \<noteq> 0
      then
        if b_freed (hdr h cur) \<noteq> 0
        then heap_info_tally h (b_next (hdr h cur)) (fs + b_size (hdr h cur))
               (if largest <s b_size (hdr h cur) then b_size (hdr h cur) else largest)
               counted_allocs
        else heap_info_tally h (b_next (hdr h cur)) fs largest (counted_allocs + 1)
      else Some (fs, largest, counted_allocs))"

text \<open>
  The second pass stores one entry per live block; the buffers hold 1024 entries, and
  a store past their end is the fault \<open>BufferOverrun\<close>.
\<close>

partial_function (option) heap_info_fill ::
  "heap \<Rightarrow> uintptr_t \<Rightarrow> nat \<Rightarrow> 64 word list \<Rightarrow> uintptr_t list \<Rightarrow>
     (fault + 64 word list \<times> uintptr_t list) option" where
  "heap_info_fill h cur b sizes ptrs =
     (if cur \<noteq> 0
      then
        if b_freed (hdr h cur) = 0
        then
          if b < length sizes \<and> b < length ptrs
          then heap_info_fill h (b_next (hdr h cur)) (b + 1)
                 (sizes[b := b_size (hdr h cur) - sizeof_free_block])
                 (ptrs[b := cur + sizeof_free_block])
          else Some (Inl BufferOverrun)
        else heap_info_fill h (b_next (hdr h cur)) b sizes ptrs
      else Some (Inr (sizes, ptrs)))"

text \<open>The bubble sort of the first \<open>n\<close> entries, largest size first.\<close>

definition bubble_step ::
  "64 word list \<times> uintptr_t list \<Rightarrow> nat \<Rightarrow> 64 word list \<times> uintptr_t list" where
  "bubble_step sp j =
     (let sizes = fst sp; ptrs = snd sp
      in if sizes ! j <s sizes ! (j + 1)
         then (sizes[j := sizes ! (j + 1), j + 1 := sizes ! j],
               ptrs[j := ptrs ! (j + 1), j + 1 := ptrs ! j])
         else sp)"

definition bubble_sort ::
  "int \<Rightarrow> 64 word list \<times> uintptr_t list \<Rightarrow> 64 word list \<times> uintptr_t list" where
  "bubble_sort n sp =
     foldl (\<lambda>sp i. foldl bubble_step sp [0..<nat (n - int i - 1)]) sp [0..<nat (n - 1)]"

definition heap_info ::
  "heap \<Rightarrow> heap_info_struct option \<Rightarrow>
     (fault + int \<times> heap_info_struct option \<times> heap) option" where
  "heap_info h info =
     (case info of
        None \<Rightarrow> Some (Inr (- 1, None, h))
      | Some i \<Rightarrow>
          (case heap_info_tally h (head h) 0 0 0 of
             None \<Rightarrow> None
           | Some (fs, largest, counted_allocs) \<Rightarrow>
               let i1 = i\<lparr>free_space := fs, largest_free_chunk := largest,
                          num_allocs := total_allocations h\<rparr>
               in if num_allocs i1 = 0
                  then Some (Inr (0, Some (i1\<lparr>size_array := None, ptr_array := None\<rparr>), h))
                  else if 1024 <s num_allocs i1 then Some (Inr (- 1, Some i1, h))
                  else
                    case heap_info_fill h (head h) 0 (size_buffer h) (ptr_buffer h) of
                      None \<Rightarrow> None
                    | Some (Inl e) \<Rightarrow> Some (Inl e)
                    | Some (Inr sp) \<Rightarrow>
                        let sp1 = bubble_sort (sint (num_allocs i1)) sp;
                            h1 = h\<lparr>size_buffer := fst sp1, ptr_buffer := snd sp1\<rparr>
                        in Some (Inr (0, Some (i1\<lparr>size_array := Some (fst sp1),
                                                  ptr_array := Some (snd sp1)\<rparr>), h1))))"

subsection \<open>The free list as a list of addresses\<close>

text \<open>
  \<open>list_at hs p as\<close>: following \<open>next\<close> from \<open>p\<close> visits exactly the headers at \<open>as\<close>
  and then reaches the null pointer.
\<close>

fun list_at :: "(uintptr_t \<Rightarrow> free_block) \<Rightarrow> uintptr_t \<Rightarrow> uintptr_t list \<Rightarrow> bool" where
  "list_at hs p [] = (p = 0)"
| "list_at hs p (a # as) = (p = a \<and> a \<noteq> 0 \<and> list_at hs (b_next (hs a)) as)"

text \<open>\<open>prevs_at hs p as\<close>: every header of \<open>as\<close> points back to the one before it.\<close>

fun prevs_at :: "(uintptr_t \<Rightarrow> free_block) \<Rightarrow> uintptr_t \<Rightarrow> uintptr_t list \<Rightarrow> bool" where
  "prevs_at hs p [] = True"
| "prevs_at hs p (a # as) = (b_prev (hs a) = p \<and> prevs_at hs a as)"

text \<open>
  No two freed blocks that follow each other in the list are physically adjacent.
\<close>

fun no_adjacent_freed :: "(uintptr_t \<Rightarrow> free_block) \<Rightarrow> uintptr_t list \<Rightarrow> bool" where
  "no_adjacent_freed hs (a # b # as) =
     ((b_freed (hs a) = 0 \<or> b_freed (hs b) = 0 \<or> a + b_size (hs a) \<noteq> b)
      \<and> no_adjacent_freed hs (b # as))"
| "no_adjacent_freed hs as = True"

text \<open>The number of headers of \<open>as\<close> that are not marked freed.\<close>

definition live_count :: "(uintptr_t \<Rightarrow> free_block) \<Rightarrow> uintptr_t list \<Rightarrow> nat" where
  "live_count hs as = length (filter (\<lambda>a. b_freed (hs a) = 0) as)"

section \<open>Example states\<close>

text \<open>Concrete configurations and states on which the theorems below are instantiated.\<close>

definition cfg0 :: kconfig where
  "cfg0 = \<lparr>MEMSIZE_VIRTUAL = 0x300000, NPAGES = 512, NPROC = 16\<rparr>"

definition regs0 :: x86_64_registers where
  "regs0 = \<lparr>reg_rax = 0, reg_rdi = 0, reg_rsi = 0, reg_rip = 0,
             reg_intno = INT_SYS_GETPID, reg_err = 0\<rparr>"

definition proc0 :: proc where
  "proc0 = \<lparr>p_pid = 0, p_registers = regs0, p_state = P_FREE, p_pagetable = 0,
             display_status = False, program_break = 0, original_break = 0\<rparr>"

text \<open>Frame 5 is referenced once and frame 6 twice by process 1; all others are free.\<close>

definition ks0 :: kstate where
  "ks0 = \<lparr>pageinfo = (\<lambda>n. if n = 5 then \<lparr>owner = 1, refcount = 1\<rparr>
                          else if n = 6 then \<lparr>owner = 1, refcount = 2\<rparr>
                          else \<lparr>owner = PO_FREE, refcount = 0\<rparr>),
           pagetables = (\<lambda>_ _. NoTable), physmem = (\<lambda>_. 0),
           processes = (\<lambda>_. proc0), current = 1, ticks = 0, disp_global = True,
           vam_written = [], klog = []\<rparr>"

text \<open>
  A machine with 16 frames.  Process 1 has its root table in frame 8 and the interior
  tables of the first 2 MiB in frames 11, 12 and 13; its heap window is
  \<open>[0x140000, 0x143000)\<close>, of which the first two pages are mapped, to frames 9 and 10.
  Frames 0 to 7 are reserved, frames 14 and 15 are free.
\<close>

definition cfg1 :: kconfig where
  "cfg1 = \<lparr>MEMSIZE_VIRTUAL = 0x300000, NPAGES = 16, NPROC = 16\<rparr>"

definition l4_1 :: l4pagetable where
  "l4_1 = (\<lambda>i. if i = 0x140 then 0x9007 else if i = 0x141 then 0xA007 else 0)"

definition pt_1 :: x86_64_pagetable where
  "pt_1 = (\<lambda>i. if i = 0 then
             Table 0xB000 (\<lambda>j. if j = 0 then
               Table 0xC000 (\<lambda>k. if k = 0 then Table 0xD000 l4_1 else NoTable)
             else NoTable)
           else NoTable)"

definition pageinfo_1 :: "nat \<Rightarrow> physical_pageinfo" where
  "pageinfo_1 = (\<lambda>n. if n < 8 then \<lparr>owner = PO_RESERVED, refcount = 1\<rparr>
                     else if n < 14 then \<lparr>owner = 1, refcount = 1\<rparr>
                     else \<lparr>owner = PO_FREE, refcount = 0\<rparr>)"

definition proc_1 :: proc where
  "proc_1 = \<lparr>p_pid = 1, p_registers = regs0, p_state = P_RUNNABLE, p_pagetable = 0x8000,
              display_status = False, program_break = 0x143000, original_break = 0x140000\<rparr>"

definition ks1 :: kstate where
  "ks1 = \<lparr>pageinfo = pageinfo_1,
           pagetables = (\<lambda>a. if a = 0x8000 then pt_1 else (\<lambda>_. NoTable)),
           physmem = (\<lambda>a. ucast (a div 4096)),
           processes = (\<lambda>i. if i = 1 then proc_1 else proc0), current = 1, ticks = 0,
           disp_global = True, vam_written = [], klog = []\<rparr>"

text \<open>
  Variants of \<open>ks1\<close>: no free frame at all; and one free frame (15) with the heap
  window reaching into the next 2 MiB, whose level-4 table does not exist yet.
\<close>

definition ks1_full :: kstate where
  "ks1_full = ks1\<lparr>pageinfo := (\<lambda>n. \<lparr>owner = 1, refcount = 1\<rparr>)\<rparr>"

definition ks1_tight :: kstate where
  "ks1_tight = ks1\<lparr>pageinfo := (\<lambda>n. if n = 15 then \<lparr>owner = PO_FREE, refcount = 0\<rparr>
                                      else \<lparr>owner = 1, refcount = 1\<rparr>),
                   processes := (\<lambda>i. if i = 1 then proc_1\<lparr>program_break := 0x201000\<rparr>
                                      else proc0)\<rparr>"

text \<open>
  The page table of \<open>ks1\<close> with another level-4 table, and two more states: in
  \<open>ks5\<close> page \<open>0x141000\<close> is user-writable and page \<open>0x142000\<close> is mapped for the
  kernel only; in \<open>ks6\<close> the pages \<open>0x140000\<close> and \<open>0x141000\<close> are user-writable
  and mapped to frames 10 and 9, which are not consecutive in that order.
\<close>

definition pt_of :: "l4pagetable \<Rightarrow> x86_64_pagetable" where
  "pt_of l4 = (\<lambda>i. if i = 0 then
                 Table 0xB000 (\<lambda>j. if j = 0 then
                   Table 0xC000 (\<lambda>k. if k = 0 then Table 0xD000 l4 else NoTable)
                 else NoTable)
               else NoTable)"

definition l4_5 :: l4pagetable where
  "l4_5 = (\<lambda>i. if i = 0x141 then 0xA007 else if i = 0x142 then 0xE003 else 0)"

definition ks5 :: kstate where
  "ks5 = ks1\<lparr>pagetables := (\<lambda>a. if a = 0x8000 then pt_of l4_5 else (\<lambda>_. NoTable))\<rparr>"

definition l4_6 :: l4pagetable where
  "l4_6 = (\<lambda>i. if i = 0x140 then 0xA007 else if i = 0x141 then 0x9007 else 0)"

definition ks6 :: kstate where
  "ks6 = ks1\<lparr>pagetables := (\<lambda>a. if a = 0x8000 then pt_of l4_6 else (\<lambda>_. NoTable))\<rparr>"

text \<open>
  User heaps.  \<open>heap_empty\<close> is the heap before the first call of \<open>malloc\<close>;
  \<open>heap_two\<close> holds two blocks of 48 bytes that lie one after the other, the first one
  freed, the second one live.
\<close>

definition zero_block :: free_block where
  "zero_block = \<lparr>b_size = 0, b_next = 0, b_prev = 0, b_freed = 0\<rparr>"

definition heap_empty :: heap where
  "heap_empty = \<lparr>hdr = (\<lambda>a. zero_block), bytes = (\<lambda>a. ucast a), head = 0,
      total_allocations = 0, size_buffer = replicate 1024 0, ptr_buffer = replicate 1024 0,
      heap_break = 0x140000, heap_original_break = 0x140000, heap_break_limit = 0x2FF000\<rparr>"

definition hdr_two :: "uintptr_t \<Rightarrow> free_block" where
  "hdr_two = (\<lambda>a. if a = 0x140000
                    then \<lparr>b_size = 48, b_next = 0x140030, b_prev = 0, b_freed = 1\<rparr>
                    else if a = 0x140030
                    then \<lparr>b_size = 48, b_next = 0, b_prev = 0x140000, b_freed = 0\<rparr>
                    else zero_block)"

definition heap_two :: heap where
  "heap_two = heap_empty\<lparr>hdr := hdr_two, head := 0x140000, total_allocations := 1,
      heap_break := 0x140060\<rparr>"

text \<open>
  The heaps that the calls \<open>malloc(16)\<close>, \<open>malloc(16)\<close>, \<open>free\<close> of the first
  pointer and \<open>free\<close> of the second pointer go through, from \<open>heap_empty\<close>:
  \<open>heap_one\<close>, \<open>heap_two_live\<close>, \<open>heap_two\<close> and \<open>heap_two_freed\<close>.
\<close>

definition heap_one :: heap where
  "heap_one = heap_empty\<lparr>
      hdr := (\<lambda>a. if a = 0x140000
                  then \<lparr>b_size = 48, b_next = 0, b_prev = 0, b_freed = 0\<rparr>
                  else zero_block),
      head := 0x140000, total_allocations := 1, heap_break := 0x140030\<rparr>"

definition heap_two_live :: heap where
  "heap_two_live = heap_empty\<lparr>
      hdr := (\<lambda>a. if a = 0x140000
                  then \<lparr>b_size = 48, b_next = 0x140030, b_prev = 0, b_freed = 0\<rparr>
                  else if a = 0x140030
                  then \<lparr>b_size = 48, b_next = 0, b_prev = 0x140000, b_freed = 0\<rparr>
                  else zero_block),
      head := 0x140000, total_allocations := 2, heap_break := 0x140060\<rparr>"

definition heap_two_freed :: heap where
  "heap_two_freed = heap_empty\<lparr>
      hdr := (\<lambda>a. if a = 0x140000
                  then \<lparr>b_size = 48, b_next = 0x140030, b_prev = 0, b_freed = 1\<rparr>
                  else if a = 0x140030
                  then \<lparr>b_size = 48, b_next = 0, b_prev = 0x140000, b_freed = 1\<rparr>
                  else zero_block),
      head := 0x140000, total_allocations := 0, heap_break := 0x140060\<rparr>"

text \<open>\<open>heap_merged\<close>: \<open>heap_two_freed\<close> with the second block merged into the first.\<close>

definition heap_merged :: heap where
  "heap_merged = heap_empty\<lparr>
      hdr := (\<lambda>a. if a = 0x140000
                  then \<lparr>b_size = 96, b_next = 0, b_prev = 0, b_freed = 1\<rparr>
                  else if a = 0x140030
                  then \<lparr>b_size = 48, b_next = 0, b_prev = 0x140000, b_freed = 1\<rparr>
                  else zero_block),
      head := 0x140000, total_allocations := 0, heap_break := 0x140060\<rparr>"

text \<open>A trap of the current process: trap number, \<open>rdi\<close>, \<open>rsi\<close> and error code.\<close>

definition trap_regs :: "intno \<Rightarrow> uintptr_t \<Rightarrow> uintptr_t \<Rightarrow> uintptr_t \<Rightarrow> x86_64_registers" where
  "trap_regs n rdi rsi err =
     \<lparr>reg_rax = 0, reg_rdi = rdi, reg_rsi = rsi, reg_rip = 0x100000, reg_intno = n,
      reg_err = err\<rparr>"

section \<open>Properties of the page-frame table\<close>

lemma ks1_simps [simp]:
  "current ks1 = 1" "processes ks1 1 = proc_1" "processes ks1 (Suc 0) = proc_1"
  "pagetables ks1 0x8000 = pt_1" "pageinfo ks1 = pageinfo_1"
  "klog ks1 = []" "vam_written ks1 = []"
  by (simp_all add: ks1_def)

lemma cfg1_simps [simp]:
  "MEMSIZE_VIRTUAL cfg1 = 0x300000" "NPAGES cfg1 = 16" "NPROC cfg1 = 16"
  by (simp_all add: cfg1_def)

lemma proc_1_simps [simp]:
  "p_pid proc_1 = 1" "p_pagetable proc_1 = 0x8000" "program_break proc_1 = 0x143000"
  "original_break proc_1 = 0x140000" "p_state proc_1 = P_RUNNABLE"
  by (simp_all add: proc_1_def)

lemma trap_regs_simps [simp]:
  "reg_intno (trap_regs n rdi rsi err) = n" "reg_rdi (trap_regs n rdi rsi err) = rdi"
  "reg_rsi (trap_regs n rdi rsi err) = rsi" "reg_err (trap_regs n rdi rsi err) = err"
  by (simp_all add: trap_regs_def)

lemmas lookup_defs = virtual_memory_lookup_def L1PAGEINDEX_def L2PAGEINDEX_def L3PAGEINDEX_def
  L4PAGEINDEX_def leaf_mapping_def no_mapping_def PTE_P_def PTE_W_def PTE_U_def PAGENUMBER_def
  PAGESIZE_def PTE_ADDR_def PAGEOFFSET_def PTE_FLAGS_def


lemma pageinfo_log_printf [simp]: "pageinfo (log_printf e s) = pageinfo s"
  by (simp add: log_printf_def)

lemma mod_le_word: "(a :: 'a::len word) mod n \<le> a"
  by (simp add: word_le_nat_alt unat_mod)

lemma unat_ROUNDDOWN: "unat (ROUNDDOWN a n) = unat a - unat a mod unat n"
  by (simp add: ROUNDDOWN_def unat_sub mod_le_word unat_mod)

lemma unat_PAGESIZE [simp]: "unat PAGESIZE = 4096"
  by (simp add: PAGESIZE_def)

lemma ROUNDDOWN_div: "ROUNDDOWN a PAGESIZE div PAGESIZE = PAGENUMBER a"
  unfolding PAGENUMBER_def
  by (simp add: word_unat_eq_iff unat_div unat_ROUNDDOWN)
     (metis div_mult_mod_eq add_diff_cancel_right' nonzero_mult_div_cancel_right zero_neq_numeral)

lemma freepage_cases:
  "freepage cfg s pa =
     (if pa = 0 then log_printf LogFreeNull s
      else if NPAGES cfg \<le> PAGENUMBER pa then log_printf (LogFreeOutOfBounds pa) s
      else if refcount (pageinfo s (unat (PAGENUMBER pa))) = 0
        then log_printf (LogFreeUnallocated pa) s
      else if refcount (pageinfo s (unat (PAGENUMBER pa))) = 1
        then log_printf (LogPageFreed (PAGENUMBER pa) (ROUNDDOWN pa PAGESIZE))
               (s\<lparr>pageinfo := (pageinfo s)(unat (PAGENUMBER pa) :=
                  (pageinfo s (unat (PAGENUMBER pa)))\<lparr>refcount := 0, owner := PO_FREE\<rparr>)\<rparr>)
      else s\<lparr>pageinfo := (pageinfo s)(unat (PAGENUMBER pa) :=
               (pageinfo s (unat (PAGENUMBER pa)))
                 \<lparr>refcount := refcount (pageinfo s (unat (PAGENUMBER pa))) - 1\<rparr>)\<rparr>)"
  by (auto simp: freepage_def Let_def ROUNDDOWN_div)

lemma freepage_pageinfo_ok:
  assumes "pageinfo_ok cfg s"
  shows "pageinfo_ok cfg (freepage cfg s pa)"
  unfolding pageinfo_ok_def
proof
  fix n assume n: "n \<in> {0..<unat (NPAGES cfg)}"
  from assms n have inv: "(refcount (pageinfo s n) = 0) = (owner (pageinfo s n) = PO_FREE)"
    by (simp add: pageinfo_ok_def)
  show "(refcount (pageinfo (freepage cfg s pa) n) = 0) =
        (owner (pageinfo (freepage cfg s pa) n) = PO_FREE)"
    using inv by (auto simp: freepage_cases)
qed

text \<open>
  Claim C9.  For every physical address \<open>pa\<close> given to \<open>freepage\<close>: when \<open>pa\<close> is
  null or its frame number is not below \<open>NPAGES\<close>, the page-frame table is unchanged and
  one line is logged; when the frame's reference count is already 0 the table is
  unchanged and an error is logged; otherwise the count is decremented, the owner
  becomes \<open>PO_FREE\<close> exactly when the count reaches 0, and no other frame changes.
  Hence \<open>freepage\<close> keeps the invariant "refcount = 0 iff owner = free"; it touches
  nothing but the table and the log.
\<close>

theorem freepage_release:
  "(pa = 0 \<or> NPAGES cfg \<le> PAGENUMBER pa \<longrightarrow>
      pageinfo (freepage cfg s pa) = pageinfo s \<and>
      klog (freepage cfg s pa) =
        klog s @ [if pa = 0 then LogFreeNull else LogFreeOutOfBounds pa]) \<and>
   (pa \<noteq> 0 \<and> PAGENUMBER pa < NPAGES cfg \<and>
    refcount (pageinfo s (unat (PAGENUMBER pa))) = 0 \<longrightarrow>
      pageinfo (freepage cfg s pa) = pageinfo s \<and>
      klog (freepage cfg s pa) = klog s @ [LogFreeUnallocated pa]) \<and>
   (pa \<noteq> 0 \<and> PAGENUMBER pa < NPAGES cfg \<and>
    0 < refcount (pageinfo s (unat (PAGENUMBER pa))) \<longrightarrow>
      refcount (pageinfo (freepage cfg s pa) (unat (PAGENUMBER pa))) =
        refcount (pageinfo s (unat (PAGENUMBER pa))) - 1 \<and>
      owner (pageinfo (freepage cfg s pa) (unat (PAGENUMBER pa))) =
        (if refcount (pageinfo s (unat (PAGENUMBER pa))) = 1 then PO_FREE
         else owner (pageinfo s (unat (PAGENUMBER pa)))) \<and>
      (\<forall>n. n \<noteq> unat (PAGENUMBER pa) \<longrightarrow>
         pageinfo (freepage cfg s pa) n = pageinfo s n)) \<and>
   (pageinfo_ok cfg s \<longrightarrow> pageinfo_ok cfg (freepage cfg s pa)) \<and>
   pagetables (freepage cfg s pa) = pagetables s \<and>
   physmem (freepage cfg s pa) = physmem s \<and>
   processes (freepage cfg s pa) = processes s \<and>
   current (freepage cfg s pa) = current s"
  by (intro conjI impI freepage_pageinfo_ok) (auto simp: freepage_cases log_printf_def)

lemma pageinfo_ok_ks0: "pageinfo_ok cfg0 ks0"
  by (simp add: pageinfo_ok_def ks0_def cfg0_def PO_FREE_def)

lemma PAGENUMBER_examples:
  "PAGENUMBER 0 = 0" "PAGENUMBER 0x5010 = 5" "PAGENUMBER 0x6000 = 6" "PAGENUMBER 0x7000 = 7"
  "PAGENUMBER 0x200000 = 512"
  by (simp_all add: PAGENUMBER_def PAGESIZE_def)

theorem freepage_release_witness:
  "pageinfo_ok cfg0 ks0 \<and>
   pageinfo_ok cfg0 (freepage cfg0 ks0 0x5010) \<and>
   pageinfo (freepage cfg0 ks0 0x5010) 5 = \<lparr>owner = PO_FREE, refcount = 0\<rparr> \<and>
   pageinfo (freepage cfg0 ks0 0x6000) 6 = \<lparr>owner = 1, refcount = 1\<rparr> \<and>
   pageinfo (freepage cfg0 ks0 0x7000) = pageinfo ks0 \<and>
   klog (freepage cfg0 ks0 0x7000) = [LogFreeUnallocated 0x7000] \<and>
   pageinfo (freepage cfg0 ks0 0) = pageinfo ks0 \<and>
   klog (freepage cfg0 ks0 0) = [LogFreeNull] \<and>
   pageinfo (freepage cfg0 ks0 0x200000) = pageinfo ks0 \<and>
   klog (freepage cfg0 ks0 0x200000) = [LogFreeOutOfBounds 0x200000]"
  using freepage_release [of "0x5010" cfg0 ks0] freepage_release [of "0x6000" cfg0 ks0]
    freepage_release [of "0x7000" cfg0 ks0] freepage_release [of 0 cfg0 ks0]
    freepage_release [of "0x200000" cfg0 ks0] pageinfo_ok_ks0
  by (simp add: PAGENUMBER_examples ks0_def cfg0_def)

section \<open>Properties of the page-table walker\<close>


lemma lookup_eq: "virtual_memory_lookup pt va = lookup_l2 (pt (L1PAGEINDEX va)) va"
  by (simp add: virtual_memory_lookup_def split: ptslot.splits)

lemma leaf_mapping_0 [simp]: "leaf_mapping 0 va = no_mapping"
  by (simp add: leaf_mapping_def)

lemma uint_neq_minus1 [simp]: "uint (x :: 'a::len word) \<noteq> - 1"
  using uint_ge_0 [of x] by linarith

lemma vam_pn_leaf_mapping: "(vam_pn (leaf_mapping pe va) = - 1) = (pe AND PTE_P = 0)"
  by (auto simp: leaf_mapping_def no_mapping_def)

lemma vam_pn_no_mapping [simp]: "vam_pn no_mapping = - 1"
  by (simp add: no_mapping_def)

lemma vam_perm_no_mapping [simp]: "vam_perm no_mapping = 0"
  by (simp add: no_mapping_def)

lemma palloc_cases:
  "palloc cfg s own = (a, s1) \<Longrightarrow>
     (s1 = s \<and> a = 0 \<and> (\<forall>n < unat (NPAGES cfg). refcount (pageinfo s n) \<noteq> 0)) \<or>
     (\<exists>n < unat (NPAGES cfg). refcount (pageinfo s n) = 0 \<and>
        (\<forall>m < n. refcount (pageinfo s m) \<noteq> 0) \<and> a = PAGEADDRESS n \<and>
        s1 = s\<lparr>pageinfo := (pageinfo s)(n := \<lparr>owner = own, refcount = 1\<rparr>)\<rparr>)"
  by (auto simp: palloc_def find_Some_iff find_None_iff split: option.splits)

lemma same_but_pageinfo_refl [simp]: "same_but_pageinfo s s"
  by (simp add: same_but_pageinfo_def)

lemma same_but_pageinfo_trans:
  "same_but_pageinfo s s1 \<Longrightarrow> same_but_pageinfo s1 s2 \<Longrightarrow> same_but_pageinfo s s2"
  by (simp add: same_but_pageinfo_def)


lemma keeps_used_refl [simp]: "keeps_used s s"
  by (simp add: keeps_used_def)

lemma keeps_used_trans: "keeps_used s s1 \<Longrightarrow> keeps_used s1 s2 \<Longrightarrow> keeps_used s s2"
  unfolding keeps_used_def by (metis same_but_pageinfo_trans)

lemma palloc_keeps_used: "palloc cfg s own = (a, s1) \<Longrightarrow> keeps_used s s1"
  by (drule palloc_cases) (auto simp: keeps_used_def same_but_pageinfo_def)

lemma map_l4_lookup:
  assumes "map_l4 cfg s own slot va pe = (r, s1, sl)"
  shows "(r = 0 \<or> r = - 1) \<and> keeps_used s s1 \<and>
         lookup_l4 sl va' =
           (if r = 0 \<and> L4PAGEINDEX va' = L4PAGEINDEX va then leaf_mapping pe va'
            else lookup_l4 slot va')"
  using assms
  by (auto simp: map_l4_def  split: ptslot.splits prod.splits if_splits dest: palloc_keeps_used)

lemma map_l3_lookup:
  assumes "map_l3 cfg s own slot va pe = (r, s1, sl)"
  shows "(r = 0 \<or> r = - 1) \<and> keeps_used s s1 \<and>
         lookup_l3 sl va' =
           (if r = 0 \<and> L3PAGEINDEX va' = L3PAGEINDEX va \<and> L4PAGEINDEX va' = L4PAGEINDEX va
            then leaf_mapping pe va'
            else lookup_l3 slot va')"
  using assms
  apply (simp add: map_l3_def split: ptslot.splits prod.splits if_splits)
   apply (auto dest!: map_l4_lookup[where va'=va'] dest: palloc_keeps_used keeps_used_trans)
  done

lemma map_l2_lookup:
  assumes "map_l2 cfg s own slot va pe = (r, s1, sl)"
  shows "(r = 0 \<or> r = - 1) \<and> keeps_used s s1 \<and>
         lookup_l2 sl va' =
           (if r = 0 \<and> L2PAGEINDEX va' = L2PAGEINDEX va \<and> L3PAGEINDEX va' = L3PAGEINDEX va
                \<and> L4PAGEINDEX va' = L4PAGEINDEX va
            then leaf_mapping pe va'
            else lookup_l2 slot va')"
  using assms
  apply (simp add: map_l2_def split: ptslot.splits prod.splits if_splits)
   apply (auto dest!: map_l3_lookup[where va'=va'] dest: palloc_keeps_used keeps_used_trans)
  done

lemma map_l4_present:
  "vam_pn (lookup_l4 slot va) \<noteq> - 1 \<Longrightarrow> \<exists>sl. map_l4 cfg s own slot va pe = (0, s, sl)"
  by (cases slot) (auto simp: map_l4_def)

lemma map_l3_present:
  "vam_pn (lookup_l3 slot va) \<noteq> - 1 \<Longrightarrow> \<exists>sl. map_l3 cfg s own slot va pe = (0, s, sl)"
  apply (cases slot) apply (auto simp: map_l3_def)
  subgoal for a t using map_l4_present[of "t (L3PAGEINDEX va)" va cfg s own pe] by auto
  done

lemma map_l2_present:
  "vam_pn (lookup_l2 slot va) \<noteq> - 1 \<Longrightarrow> \<exists>sl. map_l2 cfg s own slot va pe = (0, s, sl)"
  apply (cases slot) apply (auto simp: map_l2_def)
  subgoal for a t using map_l3_present[of "t (L2PAGEINDEX va)" va cfg s own pe] by auto
  done


lemma map_page_props:
  assumes "map_page cfg s root va pa perm = (r, s1)"
  shows "(r = 0 \<or> r = - 1) \<and>
    virtual_memory_lookup (pagetables s1 root) va' =
      (if r = 0 \<and> pagepath va' = pagepath va then leaf_mapping (leaf_entry pa perm) va'
       else virtual_memory_lookup (pagetables s root) va') \<and>
    (\<forall>root'. root' \<noteq> root \<longrightarrow> pagetables s1 root' = pagetables s root') \<and>
    keeps_used s (s1\<lparr>pagetables := pagetables s\<rparr>)"
proof -
  obtain r' s' sl where m: "map_l2 cfg s (owner (pageinfo s (unat (PAGENUMBER root))))
      (pagetables s root (L1PAGEINDEX va)) va (leaf_entry pa perm) = (r', s', sl)"
    by (metis prod_cases3)
  from assms m have r: "r = r'" and s1: "s1 = s'\<lparr>pagetables := (pagetables s')(root := (pagetables s root)(L1PAGEINDEX va := sl))\<rparr>"
    by (auto simp: map_page_def Let_def)
  note l2 = map_l2_lookup[OF m, of va']
  from l2 have ku: "keeps_used s s'" by simp
  then have pts: "pagetables s' = pagetables s"
    by (auto simp: keeps_used_def same_but_pageinfo_def)
  have "keeps_used s (s1\<lparr>pagetables := pagetables s\<rparr>)"
    using ku by (simp add: s1 keeps_used_def same_but_pageinfo_def)
  then show ?thesis using l2
    by (auto simp: r s1 lookup_eq pagepath_def pts)
qed

lemma map_page_present:
  assumes "vam_pn (virtual_memory_lookup (pagetables s root) va) \<noteq> - 1"
  shows "fst (map_page cfg s root va pa perm) = 0 \<and>
         pageinfo (snd (map_page cfg s root va pa perm)) = pageinfo s"
proof -
  from assms obtain sl where "map_l2 cfg s (owner (pageinfo s (unat (PAGENUMBER root))))
      (pagetables s root (L1PAGEINDEX va)) va (leaf_entry pa perm) = (0, s, sl)"
    using map_l2_present by (metis lookup_eq)
  then show ?thesis by (simp add: map_page_def Let_def)
qed

lemma unat_PAGESIZE_div [simp]: "unat (PAGESIZE div PAGESIZE) = 1"
  by (simp add: PAGESIZE_def)

lemma virtual_memory_map_one:
  "virtual_memory_map cfg s root va pa PAGESIZE perm = map_page cfg s root va pa perm"
proof -
  obtain r s1 where m: "map_page cfg s root va pa perm = (r, s1)" by (cases "map_page cfg s root va pa perm")
  from map_page_props[OF m] have "r = 0 \<or> r = - 1" by simp
  then show ?thesis by (auto simp: virtual_memory_map_def m)
qed

lemma virtual_memory_unmap_ok:
  assumes "root \<noteq> 0"
  shows "virtual_memory_unmap cfg s root va = Inr (0, unmap_one cfg s root va)"
proof (cases "vam_pn (virtual_memory_lookup (pagetables s root) va) = - 1")
  case True
  then show ?thesis using assms by (simp add: virtual_memory_unmap_def unmap_one_def)
next
  case False
  from map_page_present[OF False, of cfg 0 0]
  have "fst (map_page cfg s root va 0 0) = 0" by simp
  then show ?thesis using assms False
    by (auto simp: virtual_memory_unmap_def unmap_one_def virtual_memory_map_one Let_def split: prod.splits)
qed


lemma lookup_same_path:
  assumes "pagepath va' = pagepath va"
  shows "vam_pn (virtual_memory_lookup pt va) = - 1 \<Longrightarrow> virtual_memory_lookup pt va' = no_mapping"
  using assms
  by (auto simp: virtual_memory_lookup_def pagepath_def leaf_mapping_def no_mapping_def split: ptslot.splits if_splits)

lemma freepage_fields [simp]:
  "pagetables (freepage cfg s pa) = pagetables s"
  "physmem (freepage cfg s pa) = physmem s"
  "processes (freepage cfg s pa) = processes s"
  "current (freepage cfg s pa) = current s"
  "ticks (freepage cfg s pa) = ticks s"
  "disp_global (freepage cfg s pa) = disp_global s"
  "vam_written (freepage cfg s pa) = vam_written s"
  by (simp_all add: freepage_cases log_printf_def)

lemma log_printf_fields [simp]:
  "pagetables (log_printf e s) = pagetables s"
  "physmem (log_printf e s) = physmem s"
  "processes (log_printf e s) = processes s"
  "current (log_printf e s) = current s"
  "ticks (log_printf e s) = ticks s"
  "disp_global (log_printf e s) = disp_global s"
  "vam_written (log_printf e s) = vam_written s"
  by (simp_all add: log_printf_def)

lemma freepage_pageinfo_cong:
  "pageinfo s1 = pageinfo s \<Longrightarrow> pageinfo (freepage cfg s1 pa) = pageinfo (freepage cfg s pa)"
  by (simp add: freepage_cases)

lemma unmap_one_lookup:
  "virtual_memory_lookup (pagetables (unmap_one cfg s root va) root) va' =
     (if pagepath va' = pagepath va then no_mapping
      else virtual_memory_lookup (pagetables s root) va')"
proof (cases "vam_pn (virtual_memory_lookup (pagetables s root) va) = - 1")
  case True
  then show ?thesis by (simp add: unmap_one_def lookup_same_path)
next
  case False
  obtain r s1 where m: "map_page cfg s root va 0 0 = (r, s1)" by (cases "map_page cfg s root va 0 0")
  from map_page_present[OF False, of cfg 0 0] m have r: "r = 0" by simp
  from map_page_props[OF m, of va'] r show ?thesis using False
    by (simp add: unmap_one_def m Let_def leaf_entry_def)
qed

lemma unmap_one_pageinfo:
  "pageinfo (unmap_one cfg s root va) =
     (if vam_pn (virtual_memory_lookup (pagetables s root) va) \<noteq> - 1 \<and>
         vam_pa (virtual_memory_lookup (pagetables s root) va) \<noteq> 0
      then pageinfo (freepage cfg s (vam_pa (virtual_memory_lookup (pagetables s root) va)))
      else pageinfo s)"
  using map_page_present[of s root va cfg 0 0]
  by (auto simp: unmap_one_def Let_def intro: freepage_pageinfo_cong)

lemma unmap_one_frame: "unmap_frame root s (unmap_one cfg s root va)"
proof -
  obtain r s1 where m: "map_page cfg s root va 0 0 = (r, s1)" by (cases "map_page cfg s root va 0 0")
  from map_page_props[OF m, of va] have "unmap_frame root s s1"
    by (auto simp: unmap_frame_def keeps_used_def same_but_pageinfo_def)
  then show ?thesis
    by (auto simp: unmap_one_def Let_def m unmap_frame_def)
qed

lemma unmap_frame_refl [simp]: "unmap_frame root s s"
  by (simp add: unmap_frame_def)

lemma unmap_frame_trans: "unmap_frame root s s1 \<Longrightarrow> unmap_frame root s1 s2 \<Longrightarrow> unmap_frame root s s2"
  by (simp add: unmap_frame_def)

lemma unmap_pages_frame: "unmap_frame root s (unmap_pages cfg s root addr n)"
proof (induction n arbitrary: s addr)
  case 0
  then show ?case by simp
next
  case (Suc n)
  show ?case
    using unmap_frame_trans [OF unmap_one_frame Suc.IH] by simp
qed

lemma unat_add_pages:
  assumes "unat addr + k * 4096 < 2 ^ 64"
  shows "unat (addr + of_nat k * PAGESIZE) = unat addr + k * 4096"
proof -
  have "unat (of_nat k * PAGESIZE :: 64 word) = k * 4096"
    using assms by (simp add: PAGESIZE_def unat_word_ariths unat_of_nat)
  then show ?thesis using assms by (simp add: unat_word_ariths)
qed

lemma sbrk_unmap_loop_run:
  assumes "root \<noteq> 0" "unat addr + n * 4096 < 2 ^ 64"
  shows "sbrk_unmap_loop cfg s root addr (addr + of_nat n * PAGESIZE) =
           Some (Inr (0, unmap_pages cfg s root addr n))"
  using assms(2)
proof (induction n arbitrary: s addr)
  case 0
  then show ?case by (subst sbrk_unmap_loop.simps) simp
next
  case (Suc n)
  have lt: "addr < addr + of_nat (Suc n) * PAGESIZE"
    using Suc.prems unat_add_pages[of addr "Suc n"] by (simp add: word_less_nat_alt)
  have nx: "unat (addr + PAGESIZE) = unat addr + 4096"
    using Suc.prems unat_add_pages[of addr 1] by simp
  have eq: "addr + of_nat (Suc n) * PAGESIZE = (addr + PAGESIZE) + of_nat n * PAGESIZE"
    by (simp add: algebra_simps)
  have "unat (addr + PAGESIZE) + n * 4096 < 2 ^ 64" using Suc.prems nx by simp
  from Suc.IH[OF this] show ?case
    apply (subst sbrk_unmap_loop.simps)
    using lt by (simp add: virtual_memory_unmap_ok[OF assms(1)] eq del: of_nat_Suc)
qed


lemma page_range_Suc: "page_range addr (Suc n) = addr # page_range (addr + PAGESIZE) n"
proof -
  have "[0..<Suc n] = 0 # map Suc [0..<n]"
    by (simp add: upt_conv_Cons map_Suc_upt del: upt_Suc)
  then show ?thesis
    by (simp add: page_range_def algebra_simps del: upt_Suc)
qed

lemma page_range_0 [simp]: "page_range addr 0 = []"
  by (simp add: page_range_def)

lemma unmap_pages_lookup:
  "virtual_memory_lookup (pagetables (unmap_pages cfg s root addr n) root) va' =
     (if pagepath va' \<in> pagepath ` set (page_range addr n) then no_mapping
      else virtual_memory_lookup (pagetables s root) va')"
proof (induction n arbitrary: s addr)
  case 0
  then show ?case by simp
next
  case (Suc n)
  show ?case
    by (simp add: Suc.IH page_range_Suc unmap_one_lookup)
qed

lemma foldl_freepage_cong:
  "pageinfo s1 = pageinfo s \<Longrightarrow>
   pageinfo (foldl (freepage cfg) s1 fs) = pageinfo (foldl (freepage cfg) s fs)"
proof (induction fs arbitrary: s s1)
  case Nil
  then show ?case by simp
next
  case (Cons f fs)
  show ?case
    by (simp add: Cons.IH [OF freepage_pageinfo_cong [OF Cons.prems]])
qed

lemma backing_frames_cong:
  assumes "\<And>va. va \<in> set vas \<Longrightarrow> virtual_memory_lookup pt1 va = virtual_memory_lookup pt va"
  shows "backing_frames pt1 vas = backing_frames pt vas"
  using assms
  by (induction vas) (auto simp: backing_frames_def)

lemma unmap_pages_pageinfo:
  assumes "distinct (map pagepath (page_range addr n))"
  shows "pageinfo (unmap_pages cfg s root addr n) =
         pageinfo (foldl (freepage cfg) s (backing_frames (pagetables s root) (page_range addr n)))"
  using assms
proof (induction n arbitrary: s addr)
  case 0
  then show ?case by (simp add: backing_frames_def)
next
  case (Suc n)
  let ?s1 = "unmap_one cfg s root addr"
  let ?rest = "page_range (addr + PAGESIZE) n"
  from Suc.prems have d: "distinct (map pagepath ?rest)" and nin: "pagepath addr \<notin> pagepath ` set ?rest"
    by (simp_all add: page_range_Suc)
  have bf: "backing_frames (pagetables ?s1 root) ?rest = backing_frames (pagetables s root) ?rest"
  proof (rule backing_frames_cong)
    fix va assume "va \<in> set ?rest"
    with nin have "pagepath va \<noteq> pagepath addr" by (metis imageI)
    then show "virtual_memory_lookup (pagetables ?s1 root) va =
               virtual_memory_lookup (pagetables s root) va"
      by (simp add: unmap_one_lookup)
  qed
  have "pageinfo (unmap_pages cfg s root addr (Suc n)) =
        pageinfo (foldl (freepage cfg) ?s1 (backing_frames (pagetables s root) ?rest))"
    using Suc.IH[OF d, of ?s1] by (simp add: bf)
  also have "\<dots> = pageinfo (foldl (freepage cfg) s (backing_frames (pagetables s root) (page_range addr (Suc n))))"
  proof (cases "vam_pn (virtual_memory_lookup (pagetables s root) addr) \<noteq> - 1 \<and>
                vam_pa (virtual_memory_lookup (pagetables s root) addr) \<noteq> 0")
    case True
    then have "pageinfo ?s1 =
        pageinfo (freepage cfg s (vam_pa (virtual_memory_lookup (pagetables s root) addr)))"
      by (simp add: unmap_one_pageinfo)
    from foldl_freepage_cong [OF this] True show ?thesis
      by (simp add: page_range_Suc backing_frames_def)
  next
    case False
    then have "pageinfo ?s1 = pageinfo s"
      by (auto simp: unmap_one_pageinfo)
    from foldl_freepage_cong [OF this] False show ?thesis
      by (auto simp: page_range_Suc backing_frames_def)
  qed
  finally show ?case .
qed


lemma div512_inj: "(a::nat) div 512 = b div 512 \<Longrightarrow> a mod 512 = b mod 512 \<Longrightarrow> a = b"
  by (metis div_mult_mod_eq)

lemma pagepath_vpn:
  "pagepath va = (unat va div 4096 div 512 div 512 div 512 mod 512,
                  unat va div 4096 div 512 div 512 mod 512,
                  unat va div 4096 div 512 mod 512, unat va div 4096 mod 512)"
  by (simp add: pagepath_def L1PAGEINDEX_def L2PAGEINDEX_def L3PAGEINDEX_def L4PAGEINDEX_def div_mult2_eq[symmetric])

lemma pagepath_canonical:
  assumes "unat va < 2 ^ 48" "unat va' < 2 ^ 48"
  shows "(pagepath va = pagepath va') = (unat va div 4096 = unat va' div 4096)"
proof
  assume "unat va div 4096 = unat va' div 4096"
  then show "pagepath va = pagepath va'" by (simp add: pagepath_vpn)
next
  assume p: "pagepath va = pagepath va'"
  define X where "X = unat va div 4096"
  define Y where "Y = unat va' div 4096"
  have a: "X div 512 div 512 div 512 < 512" using assms(1) by (simp add: X_def div_mult2_eq[symmetric])
  have b: "Y div 512 div 512 div 512 < 512" using assms(2) by (simp add: Y_def div_mult2_eq[symmetric])
  from p have d: "X div 512 div 512 div 512 mod 512 = Y div 512 div 512 div 512 mod 512"
     "X div 512 div 512 mod 512 = Y div 512 div 512 mod 512"
     "X div 512 mod 512 = Y div 512 mod 512" "X mod 512 = Y mod 512"
    by (simp_all add: pagepath_vpn X_def Y_def)
  from d(1) a b have "X div 512 div 512 div 512 = Y div 512 div 512 div 512" by simp
  from div512_inj[OF this d(2)] have "X div 512 div 512 = Y div 512 div 512" .
  from div512_inj[OF this d(3)] have "X div 512 = Y div 512" .
  from div512_inj[OF this d(4)] show "unat va div 4096 = unat va' div 4096" by (simp add: X_def Y_def)
qed


lemma page_range_nth_unat:
  assumes "unat addr + n * 4096 \<le> 2 ^ 48" "k < n"
  shows "unat (addr + of_nat k * PAGESIZE) = unat addr + k * 4096"
proof -
  have "unat addr + k * 4096 < unat addr + n * 4096" using assms(2) by simp
  also have "\<dots> \<le> 2 ^ 48" by (rule assms(1))
  also have "\<dots> < (2::nat) ^ 64" by simp
  finally show ?thesis by (rule unat_add_pages)
qed

lemma page_range_vpn:
  assumes "unat addr mod 4096 = 0" "unat addr + n * 4096 \<le> 2 ^ 48" "k < n"
  shows "unat (addr + of_nat k * PAGESIZE) div 4096 = unat addr div 4096 + k"
    and "unat (addr + of_nat k * PAGESIZE) < 2 ^ 48"
proof -
  have u: "unat (addr + of_nat k * PAGESIZE) = unat addr + k * 4096"
    by (rule page_range_nth_unat[OF assms(2,3)])
  show "unat (addr + of_nat k * PAGESIZE) div 4096 = unat addr div 4096 + k"
    by (simp add: u)
  have "unat addr + k * 4096 < unat addr + n * 4096" using assms(3) by simp
  then show "unat (addr + of_nat k * PAGESIZE) < 2 ^ 48" using assms(2) by (simp add: u)
qed

lemma page_range_paths_distinct:
  assumes "unat addr mod 4096 = 0" "unat addr + n * 4096 \<le> 2 ^ 48"
  shows "distinct (map pagepath (page_range addr n))"
proof -
  have "inj_on (\<lambda>k. pagepath (addr + of_nat k * PAGESIZE)) {0..<n}"
  proof (rule inj_onI)
    fix k j assume k: "k \<in> {0..<n}" and j: "j \<in> {0..<n}"
      and e: "pagepath (addr + of_nat k * PAGESIZE) = pagepath (addr + of_nat j * PAGESIZE)"
    from k j have kn: "k < n" and jn: "j < n" by simp_all
    from e pagepath_canonical[OF page_range_vpn(2)[OF assms kn] page_range_vpn(2)[OF assms jn]]
    have "unat (addr + of_nat k * PAGESIZE) div 4096 = unat (addr + of_nat j * PAGESIZE) div 4096"
      by simp
    then show "k = j"
      by (simp add: page_range_vpn(1)[OF assms kn] page_range_vpn(1)[OF assms jn])
  qed
  then show ?thesis
    by (simp add: page_range_def distinct_map comp_def)
qed

lemma aligned_range_div:
  fixes a v n k :: nat
  assumes "a mod 4096 = 0"
  shows "(a \<le> v \<and> v < a + n * 4096) = (\<exists>k<n. v div 4096 = a div 4096 + k)"
proof -
  from assms obtain q where a: "a = 4096 * q" by (auto simp: mod_eq_0_iff_dvd elim!: dvdE)
  have v: "v = 4096 * (v div 4096) + v mod 4096" by simp
  have r: "v mod 4096 < 4096" by simp
  show ?thesis
  proof
    assume h: "a \<le> v \<and> v < a + n * 4096"
    have "q \<le> v div 4096" using h v r unfolding a by linarith
    moreover have "v div 4096 < q + n" using h v r unfolding a by linarith
    ultimately have "v div 4096 - q < n" "v div 4096 = a div 4096 + (v div 4096 - q)"
      using a by simp_all
    then show "\<exists>k<n. v div 4096 = a div 4096 + k" by blast
  next
    assume "\<exists>k<n. v div 4096 = a div 4096 + k"
    then obtain k where k: "k < n" "v div 4096 = q + k" using a by auto
    from k(1) have "4096 * (k + 1) \<le> 4096 * n" by simp
    with v r k(2) show "a \<le> v \<and> v < a + n * 4096"
      unfolding a by (simp add: algebra_simps)
  qed
qed

lemma page_range_path_mem:
  assumes "unat addr mod 4096 = 0" "unat addr + n * 4096 \<le> 2 ^ 48" "unat va < 2 ^ 48"
  shows "(pagepath va \<in> pagepath ` set (page_range addr n)) =
         (unat addr \<le> unat va \<and> unat va < unat addr + n * 4096)"
proof -
  have "(pagepath va \<in> pagepath ` set (page_range addr n)) =
        (\<exists>k<n. pagepath va = pagepath (addr + of_nat k * PAGESIZE))"
    by (auto simp: page_range_def)
  also have "\<dots> = (\<exists>k<n. unat va div 4096 = unat addr div 4096 + k)"
    using pagepath_canonical[OF assms(3) page_range_vpn(2)[OF assms(1,2)]]
      page_range_vpn(1)[OF assms(1,2)] by auto
  also have "\<dots> = (unat addr \<le> unat va \<and> unat va < unat addr + n * 4096)"
    by (rule aligned_range_div[OF assms(1), symmetric])
  finally show ?thesis .
qed


lemma ROUNDUP_aligned: "unat (ROUNDUP a PAGESIZE) mod 4096 = 0"
  by (simp add: ROUNDUP_def unat_ROUNDDOWN)

lemma ROUNDDOWN_aligned: "unat (ROUNDDOWN a PAGESIZE) mod 4096 = 0"
  by (simp add: unat_ROUNDDOWN)

lemma aligned_diff:
  assumes "unat a mod 4096 = 0" "unat b mod 4096 = 0" "a < b"
  shows "b = a + of_nat ((unat b - unat a) div 4096) * PAGESIZE"
    and "unat a + (unat b - unat a) div 4096 * 4096 = unat b"
proof -
  from assms(3) have le: "unat a \<le> unat b" by (simp add: word_less_nat_alt)
  from assms(1,2) le have "(unat b - unat a) mod 4096 = 0"
    by (metis mod_0 mod_diff_cong diff_self_eq_0 mod_eq_0_iff_dvd dvd_diff_nat)
  then have d: "(unat b - unat a) div 4096 * 4096 = unat b - unat a"
    by (metis div_mult_mod_eq add.right_neutral)
  with le show e: "unat a + (unat b - unat a) div 4096 * 4096 = unat b" by simp
  have "unat a + (unat b - unat a) div 4096 * 4096 < 2 ^ 64"
    using e unsigned_less[of b] by simp
  from unat_add_pages[OF this] e show "b = a + of_nat ((unat b - unat a) div 4096) * PAGESIZE"
    by (simp add: word_unat_eq_iff)
qed

lemma sbrk_unmap_loop_aligned:
  assumes "root \<noteq> 0" "unat a mod 4096 = 0" "unat b mod 4096 = 0"
  shows "sbrk_unmap_loop cfg s root a b =
           Some (Inr (0, unmap_pages cfg s root a ((unat b - unat a) div 4096)))"
proof (cases "a < b")
  case True
  note d = aligned_diff[OF assms(2,3) True]
  have "unat a + (unat b - unat a) div 4096 * 4096 < 2 ^ 64"
    using d(2) unsigned_less[of b] by simp
  from sbrk_unmap_loop_run[OF assms(1) this, of cfg s] d(1) show ?thesis by simp
next
  case False
  then have "unat b - unat a = 0" by (simp add: word_less_nat_alt)
  with False show ?thesis by (subst sbrk_unmap_loop.simps) simp
qed

lemma sbrk_cases:
  assumes "p_pagetable (processes s p) \<noteq> 0"
  shows "sbrk cfg s p d =
    Some (Inr (
      let oldbreak = program_break (processes s p); newbreak = oldbreak + d
      in if newbreak < original_break (processes s p) \<or> MEMSIZE_VIRTUAL cfg - PAGESIZE \<le> newbreak
         then (- 1, s)
         else if oldbreak < newbreak then (0, set_program_break p newbreak s)
         else if newbreak < oldbreak then
           (0, set_program_break p newbreak
                 (unmap_pages cfg s (p_pagetable (processes s p)) (ROUNDUP newbreak PAGESIZE)
                    ((unat (ROUNDUP oldbreak PAGESIZE) - unat (ROUNDUP newbreak PAGESIZE)) div 4096)))
         else (0, s)))"
  using assms
  by (simp add: sbrk_def Let_def sbrk_unmap_loop_aligned ROUNDUP_aligned)

section \<open>The program break\<close>


lemma uint_add_signed:
  fixes a d :: "64 word"
  shows "uint (a + d) = (uint a + sint d) mod 2 ^ 64"
proof -
  have "uint d = sint d mod 2 ^ 64"
    by (simp add: uint_sint take_bit_eq_mod)
  then show ?thesis
    by (simp add: uint_word_ariths mod_add_right_eq)
qed

lemma sbrk_bounds_signed:
  fixes old d orig top :: "64 word"
  assumes "uint old < 2 ^ 63" "uint top \<le> 2 ^ 63"
  shows "(orig \<le> old + d \<and> old + d < top) =
         (uint orig \<le> uint old + sint d \<and> uint old + sint d < uint top)"
proof -
  define S where "S = uint old + sint d"
  have lo: "- (2 ^ 63) \<le> sint d" using sint_ge[of d] by simp
  have hi: "sint d < 2 ^ 63" using sint_lt[of d] by simp
  have u: "uint (old + d) = S mod 2 ^ 64" by (simp add: S_def uint_add_signed)
  have o: "0 \<le> uint orig" by simp
  show ?thesis
  proof (cases "0 \<le> S")
    case True
    moreover have "S < 2 ^ 64" using hi assms(1) by (simp add: S_def)
    ultimately have "uint (old + d) = S" by (simp add: u)
    then show ?thesis by (simp add: word_le_def word_less_def S_def)
  next
    case False
    have "0 \<le> uint old" by simp
    with lo have "- (2 ^ 63) \<le> S" unfolding S_def by linarith
    with False have "(S + 2 ^ 64) mod 2 ^ 64 = S + 2 ^ 64"
      by (intro mod_pos_pos_trivial) simp_all
    then have "S mod 2 ^ 64 = S + 2 ^ 64"
      by simp
    with False assms(2) \<open>- (2 ^ 63) \<le> S\<close> have "\<not> uint (old + d) < uint top" by (simp add: u)
    moreover from False o have "\<not> uint orig \<le> S" by linarith
    ultimately show ?thesis by (simp add: word_less_def S_def)
  qed
qed

lemma exception_return_cases:
  "exception_return s = Resumed s \<or> exception_return s = Rescheduled s"
  by (simp add: exception_return_def)

lemma save_registers_fields [simp]:
  "current (save_registers reg s) = current s"
  "pageinfo (save_registers reg s) = pageinfo s"
  "pagetables (save_registers reg s) = pagetables s"
  "physmem (save_registers reg s) = physmem s"
  "p_pagetable (processes (save_registers reg s) (current s)) = p_pagetable (processes s (current s))"
  "program_break (processes (save_registers reg s) (current s)) = program_break (processes s (current s))"
  "original_break (processes (save_registers reg s) (current s)) = original_break (processes s (current s))"
  "p_pid (processes (save_registers reg s) (current s)) = p_pid (processes s (current s))"
  "p_registers (processes (save_registers reg s) (current s)) = reg"
  by (simp_all add: save_registers_def)

lemma unmap_pages_fields:
  "processes (unmap_pages cfg s root a n) = processes s"
  "current (unmap_pages cfg s root a n) = current s"
  "physmem (unmap_pages cfg s root a n) = physmem s"
  using unmap_pages_frame[of root s cfg a n] by (simp_all add: unmap_frame_def)



lemma sbrk_result:
  assumes "p_pagetable (processes s p) \<noteq> 0"
  shows "\<exists>r s1. sbrk cfg s p d = Some (Inr (r, s1)) \<and> current s1 = current s \<and>
    (if original_break (processes s p) \<le> program_break (processes s p) + d \<and>
        program_break (processes s p) + d < MEMSIZE_VIRTUAL cfg - PAGESIZE
     then r = 0 \<and>
          processes s1 = (processes s)(p := (processes s p)\<lparr>program_break := program_break (processes s p) + d\<rparr>)
     else r = - 1 \<and> s1 = s)"
proof -
  have e: "program_break (processes s p) + d = program_break (processes s p) \<Longrightarrow>
        (processes s)(p := (processes s p)\<lparr>program_break := program_break (processes s p) + d\<rparr>) = processes s"
    by (simp add: fun_eq_iff)
  show ?thesis
    unfolding sbrk_cases[OF assms] Let_def
    by (auto simp: set_program_break_def unmap_pages_fields not_le not_less e)
qed

text \<open>
  Claim C2.  The \<open>sbrk\<close> system call (\<open>INT_SYS_SBRK\<close>, argument in \<open>rdi\<close>) of a process
  with a page table: with \<open>new = old + delta\<close> in 64-bit arithmetic, when
  \<open>original_break \<le> new < MEMSIZE_VIRTUAL - PAGESIZE\<close> the call returns the old break
  in \<open>rax\<close> and the break becomes \<open>new\<close>; otherwise it returns \<open>(uintptr_t) -1\<close> and
  the break, the page tables, the page-frame table and memory are unchanged.  The
  call always returns to \<open>exception\<close>'s end.  For a break below \<open>2^63\<close> and an
  address-space top of at most \<open>2^63\<close> the test is the one on the integer sum of the
  old break and the signed delta.
\<close>

theorem sys_sbrk_result:
  assumes "reg_intno reg = INT_SYS_SBRK"
    and "p_pagetable (processes s (current s)) \<noteq> 0"
  shows "\<exists>s'. exception cfg s reg fa = Some (exception_return s') \<and> current s' = current s \<and>
    (let cur = processes s (current s);
         old = program_break cur;
         new = old + reg_rdi reg
     in (if original_break cur \<le> new \<and> new < MEMSIZE_VIRTUAL cfg - PAGESIZE
         then reg_rax (p_registers (processes s' (current s))) = old \<and>
              program_break (processes s' (current s)) = new
         else reg_rax (p_registers (processes s' (current s))) = - 1 \<and>
              program_break (processes s' (current s)) = old \<and>
              pagetables s' = pagetables s \<and> pageinfo s' = pageinfo s \<and>
              physmem s' = physmem s) \<and>
        (uint old < 2 ^ 63 \<and> uint (MEMSIZE_VIRTUAL cfg - PAGESIZE) \<le> 2 ^ 63 \<longrightarrow>
           (original_break cur \<le> new \<and> new < MEMSIZE_VIRTUAL cfg - PAGESIZE) =
           (uint (original_break cur) \<le> uint old + sint (reg_rdi reg) \<and>
            uint old + sint (reg_rdi reg) < uint (MEMSIZE_VIRTUAL cfg - PAGESIZE))))"
proof -
  let ?s = "save_registers reg s"
  have pt: "p_pagetable (processes ?s (current s)) \<noteq> 0" using assms(2) by simp
  from sbrk_result[OF pt, of cfg "reg_rdi reg"] obtain r s1 where
    sb: "sbrk cfg ?s (current s) (reg_rdi reg) = Some (Inr (r, s1))" and c: "current s1 = current s"
    and rs: "if original_break (processes s (current s)) \<le> program_break (processes s (current s)) + reg_rdi reg \<and>
        program_break (processes s (current s)) + reg_rdi reg < MEMSIZE_VIRTUAL cfg - PAGESIZE
     then r = 0 \<and>
          processes s1 = (processes ?s)(current s := (processes ?s (current s))\<lparr>program_break := program_break (processes s (current s)) + reg_rdi reg\<rparr>)
     else r = - 1 \<and> s1 = ?s"
    by auto
  have ex: "exception cfg s reg fa =
      Some (exception_return (set_reg_rax (if r < 0 then - 1 else program_break (processes s (current s))) s1))"
    using assms(1) sb by (simp add: exception_def Let_def)
  show ?thesis
    apply (rule exI[of _ "set_reg_rax (if r < 0 then - 1 else program_break (processes s (current s))) s1"])
    apply (simp only: ex Let_def)
    apply (intro conjI impI sbrk_bounds_signed)
    using rs c
        apply (simp_all add: set_reg_rax_def split: if_splits)
    done
qed


theorem sys_sbrk_result_witness:
  "reg_intno (trap_regs INT_SYS_SBRK 0x1000 0 0) = INT_SYS_SBRK \<and>
   p_pagetable (processes ks1 (current ks1)) \<noteq> 0 \<and>
   (\<exists>s'. exception cfg1 ks1 (trap_regs INT_SYS_SBRK 0x1000 0 0) 0 = Some (exception_return s') \<and>
      reg_rax (p_registers (processes s' 1)) = 0x143000 \<and>
      program_break (processes s' 1) = 0x144000) \<and>
   (\<exists>s'. exception cfg1 ks1 (trap_regs INT_SYS_SBRK (- 0x4000) 0 0) 0 = Some (exception_return s') \<and>
      reg_rax (p_registers (processes s' 1)) = - 1 \<and>
      program_break (processes s' 1) = 0x143000 \<and>
      pagetables s' = pagetables ks1 \<and> pageinfo s' = pageinfo ks1)"
proof -
  from sys_sbrk_result [of "trap_regs INT_SYS_SBRK 0x1000 0 0" ks1 cfg1 0]
  have a: "\<exists>s'. exception cfg1 ks1 (trap_regs INT_SYS_SBRK 0x1000 0 0) 0 = Some (exception_return s') \<and>
      reg_rax (p_registers (processes s' 1)) = 0x143000 \<and>
      program_break (processes s' 1) = 0x144000"
    by (simp add: PAGESIZE_def Let_def) blast
  from sys_sbrk_result [of "trap_regs INT_SYS_SBRK (- 0x4000) 0 0" ks1 cfg1 0]
  have b: "\<exists>s'. exception cfg1 ks1 (trap_regs INT_SYS_SBRK (- 0x4000) 0 0) 0 = Some (exception_return s') \<and>
      reg_rax (p_registers (processes s' 1)) = - 1 \<and>
      program_break (processes s' 1) = 0x143000 \<and>
      pagetables s' = pagetables ks1 \<and> pageinfo s' = pageinfo ks1"
    by (simp add: PAGESIZE_def Let_def) blast
  from a b show ?thesis by simp
qed

lemma foldl_freepage_other:
  "\<forall>f \<in> set fs. unat (PAGENUMBER f) \<noteq> k \<Longrightarrow>
   pageinfo (foldl (freepage cfg) s fs) k = pageinfo s k"
proof (induction fs arbitrary: s)
  case Nil
  then show ?case by simp
next
  case (Cons f fs)
  then have "pageinfo (foldl (freepage cfg) (freepage cfg s f) fs) k = pageinfo (freepage cfg s f) k"
    by simp
  also have "\<dots> = pageinfo s k" using Cons.prems by (simp add: freepage_cases)
  finally show ?case by simp
qed

lemma unmap_range_lookup:
  assumes "unat a mod 4096 = 0" "unat b mod 4096 = 0" "unat a \<le> 2 ^ 48" "unat b \<le> 2 ^ 48"
    "unat va < 2 ^ 48"
  shows "virtual_memory_lookup
           (pagetables (unmap_pages cfg s root a ((unat b - unat a) div 4096)) root) va =
         (if a \<le> va \<and> va < b then no_mapping else virtual_memory_lookup (pagetables s root) va)"
proof (cases "a < b")
  case True
  note d = aligned_diff(2)[OF assms(1,2) True]
  have "unat a + (unat b - unat a) div 4096 * 4096 \<le> 2 ^ 48" using d assms(4) by simp
  from page_range_path_mem[OF assms(1) this assms(5)] d show ?thesis
    by (simp add: unmap_pages_lookup word_le_nat_alt word_less_nat_alt)
next
  case False
  then have "unat b - unat a = 0" by (simp add: word_less_nat_alt)
  with False show ?thesis by auto
qed

lemma unmap_range_pageinfo:
  fixes a b :: uintptr_t
  assumes "unat a mod 4096 = 0" "unat b mod 4096 = 0" "unat a \<le> 2 ^ 48" "unat b \<le> 2 ^ 48"
  shows "pageinfo (unmap_pages cfg s root a ((unat b - unat a) div 4096)) =
         pageinfo (foldl (freepage cfg) s
           (backing_frames (pagetables s root) (page_range a ((unat b - unat a) div 4096))))"
proof (cases "a < b")
  case True
  note d = aligned_diff(2)[OF assms(1,2) True]
  have "unat a + (unat b - unat a) div 4096 * 4096 \<le> 2 ^ 48" using d assms(4) by simp
  from unmap_pages_pageinfo[OF page_range_paths_distinct[OF assms(1) this]] show ?thesis .
next
  case False
  then have "unat b - unat a = 0" by (simp add: word_less_nat_alt)
  then show ?thesis by (simp add: backing_frames_def)
qed

lemma ROUNDUP_canonical:
  assumes "unat a \<le> 2 ^ 48 - 4096"
  shows "unat (ROUNDUP a PAGESIZE) \<le> 2 ^ 48"
proof -
  have "unat (a + PAGESIZE - 1) = unat a + 4095"
    using assms by (simp add: PAGESIZE_def unat_word_ariths)
  then have "unat (ROUNDUP a PAGESIZE) = unat a + 4095 - (unat a + 4095) mod 4096"
    by (simp add: ROUNDUP_def unat_ROUNDDOWN)
  then have "unat (ROUNDUP a PAGESIZE) \<le> unat a + 4095"
    by simp
  with assms show ?thesis by simp
qed


lemma set_reg_rax_fields [simp]:
  "pagetables (set_reg_rax v s) = pagetables s"
  "pageinfo (set_reg_rax v s) = pageinfo s"
  "physmem (set_reg_rax v s) = physmem s"
  "current (set_reg_rax v s) = current s"
  "program_break (processes (set_reg_rax v s) p) = program_break (processes s p)"
  by (simp_all add: set_reg_rax_def)

lemma set_program_break_fields [simp]:
  "pagetables (set_program_break p b s) = pagetables s"
  "pageinfo (set_program_break p b s) = pageinfo s"
  "physmem (set_program_break p b s) = physmem s"
  "current (set_program_break p b s) = current s"
  "program_break (processes (set_program_break p b s) p) = b"
  by (simp_all add: set_program_break_def)

text \<open>
  Claim C3.  When the \<open>sbrk\<close> or the \<open>brk\<close> system call lowers the program break from
  \<open>old\<close> to \<open>new\<close> (within bounds), then in the caller's page table exactly the pages
  from \<open>ROUNDUP(new)\<close> up to, not including, \<open>ROUNDUP(old)\<close> have no mapping afterwards
  and every other address is mapped as before; the frames that backed those pages
  (\<open>frames\<close>) have been given to \<open>freepage\<close>, one call per mapped page, and every
  other frame's record is unchanged; other page tables and memory are unchanged.
  Addresses are taken below \<open>2^48\<close>, the span of the four-level table.
\<close>

theorem brk_shrink_unmaps:
  assumes call: "reg_intno reg = INT_SYS_SBRK \<or> reg_intno reg = INT_SYS_BRK"
    and root: "root = p_pagetable (processes s (current s))" "root \<noteq> 0"
    and old: "old = program_break (processes s (current s))"
    and new: "new = (if reg_intno reg = INT_SYS_BRK then reg_rdi reg else old + reg_rdi reg)"
    and bounds: "original_break (processes s (current s)) \<le> new"
      "new < MEMSIZE_VIRTUAL cfg - PAGESIZE"
    and shrink: "new < old"
    and canonical: "unat old \<le> 2 ^ 48 - 4096"
    and frames: "frames = backing_frames (pagetables s root)
       (page_range (ROUNDUP new PAGESIZE)
          ((unat (ROUNDUP old PAGESIZE) - unat (ROUNDUP new PAGESIZE)) div 4096))"
  shows "\<exists>s'. exception cfg s reg fa = Some (exception_return s') \<and>
     program_break (processes s' (current s)) = new \<and>
     (\<forall>va. unat va < 2 ^ 48 \<longrightarrow>
        virtual_memory_lookup (pagetables s' root) va =
          (if ROUNDUP new PAGESIZE \<le> va \<and> va < ROUNDUP old PAGESIZE then no_mapping
           else virtual_memory_lookup (pagetables s root) va)) \<and>
     (\<forall>root'. root' \<noteq> root \<longrightarrow> pagetables s' root' = pagetables s root') \<and>
     pageinfo s' = pageinfo (foldl (freepage cfg) s frames) \<and>
     (\<forall>k. k \<notin> (\<lambda>f. unat (PAGENUMBER f)) ` set frames \<longrightarrow> pageinfo s' k = pageinfo s k) \<and>
     physmem s' = physmem s"
proof -
  let ?s = "save_registers reg s"
  let ?d = "if reg_intno reg = INT_SYS_BRK then reg_rdi reg - old else reg_rdi reg"
  let ?a = "ROUNDUP new PAGESIZE" and ?b = "ROUNDUP old PAGESIZE"
  let ?n = "(unat ?b - unat ?a) div 4096"
  let ?U = "unmap_pages cfg ?s root ?a ?n"
  have pt: "p_pagetable (processes ?s (current s)) \<noteq> 0" using root by simp
  have nd: "old + ?d = new" by (simp add: new)
  have sb: "sbrk cfg ?s (current s) ?d = Some (Inr (0, set_program_break (current s) new ?U))"
    using bounds shrink unfolding sbrk_cases[OF pt] Let_def
    by (simp add: old[symmetric] nd root(1)[symmetric] not_le not_less less_imp_le del: save_registers_fields(9))
  define v where "v = (if reg_intno reg = INT_SYS_BRK then 0 else old)"
  have ex: "exception cfg s reg fa =
      Some (exception_return (set_reg_rax v (set_program_break (current s) new ?U)))"
    using call sb by (auto simp: exception_def Let_def old[symmetric] v_def)
  have cn: "unat new \<le> 2 ^ 48 - 4096"
    using shrink canonical by (simp add: word_less_nat_alt)
  note ca = ROUNDUP_canonical[OF cn] and cb = ROUNDUP_canonical[OF canonical]
  have lk: "\<forall>va. unat va < 2 ^ 48 \<longrightarrow>
        virtual_memory_lookup (pagetables ?U root) va =
          (if ?a \<le> va \<and> va < ?b then no_mapping
           else virtual_memory_lookup (pagetables s root) va)"
    using unmap_range_lookup[OF ROUNDUP_aligned ROUNDUP_aligned ca cb, of _ cfg ?s root]
    by simp
  have fr: "unmap_frame root ?s ?U" by (rule unmap_pages_frame)
  have pi: "pageinfo ?U = pageinfo (foldl (freepage cfg) s frames)"
    using unmap_range_pageinfo[OF ROUNDUP_aligned ROUNDUP_aligned ca cb, of cfg ?s root]
      foldl_freepage_cong[of ?s s cfg frames]
    by (simp add: frames)
  have ot: "\<forall>k. k \<notin> (\<lambda>f. unat (PAGENUMBER f)) ` set frames \<longrightarrow> pageinfo ?U k = pageinfo s k"
    unfolding pi by (intro allI impI foldl_freepage_other) auto
  show ?thesis
    apply (rule exI[of _ "set_reg_rax v (set_program_break (current s) new ?U)"])
    apply (simp only: ex)
    apply (intro conjI)
    using lk fr pi ot unmap_pages_fields(2,3)[of cfg ?s root ?a ?n]
          apply (simp_all add: unmap_frame_def)
    done
qed

theorem brk_shrink_unmaps_witness:
  "(\<exists>s'. exception cfg1 ks1 (trap_regs INT_SYS_SBRK (- 0x2000) 0 0) 0 = Some (exception_return s') \<and>
      program_break (processes s' 1) = 0x141000 \<and>
      virtual_memory_lookup (pagetables s' 0x8000) 0x141000 = no_mapping \<and>
      virtual_memory_lookup (pagetables s' 0x8000) 0x140000 =
        \<lparr>vam_pn = 9, vam_pa = 0x9000, vam_perm = 7\<rparr> \<and>
      pageinfo s' 10 = \<lparr>owner = PO_FREE, refcount = 0\<rparr> \<and>
      pageinfo s' 9 = \<lparr>owner = 1, refcount = 1\<rparr>) \<and>
   (\<exists>s'. exception cfg1 ks1 (trap_regs INT_SYS_BRK 0x140800 0 0) 0 = Some (exception_return s') \<and>
      program_break (processes s' 1) = 0x140800 \<and>
      virtual_memory_lookup (pagetables s' 0x8000) 0x141000 = no_mapping \<and>
      virtual_memory_lookup (pagetables s' 0x8000) 0x140000 =
        \<lparr>vam_pn = 9, vam_pa = 0x9000, vam_perm = 7\<rparr> \<and>
      pageinfo s' 10 = \<lparr>owner = PO_FREE, refcount = 0\<rparr>)"
proof -
  have r: "ROUNDUP 0x143000 PAGESIZE = 0x143000" "ROUNDUP 0x141000 PAGESIZE = 0x141000"
    "ROUNDUP 0x140800 PAGESIZE = 0x141000"
    by (simp_all add: ROUNDUP_def ROUNDDOWN_def PAGESIZE_def)
  have pr: "page_range 0x141000 2 = [0x141000, 0x142000]"
    by (simp add: page_range_def PAGESIZE_def upt_rec)
  have bf: "backing_frames pt_1 [0x141000, 0x142000] = [0xA000]"
    by (simp add: backing_frames_def lookup_defs pt_1_def l4_1_def)
  have fp: "pageinfo (freepage cfg1 ks1 0xA000) =
      pageinfo_1(10 := \<lparr>owner = PO_FREE, refcount = 0\<rparr>)"
    by (simp add: freepage_cases PAGENUMBER_def PAGESIZE_def pageinfo_1_def)
  have l0: "virtual_memory_lookup pt_1 0x140000 = \<lparr>vam_pn = 9, vam_pa = 0x9000, vam_perm = 7\<rparr>"
    by (simp add: lookup_defs pt_1_def l4_1_def)
  have top: "(0x141000 :: uintptr_t) < 0x300000 - PAGESIZE" "(0x140800 :: uintptr_t) < 0x300000 - PAGESIZE"
    by (simp_all add: PAGESIZE_def)
  have "\<exists>s'. exception cfg1 ks1 (trap_regs INT_SYS_SBRK (- 0x2000) 0 0) 0 = Some (exception_return s') \<and>
     program_break (processes s' (current ks1)) = 0x141000 \<and>
     (\<forall>va. unat va < 2 ^ 48 \<longrightarrow>
        virtual_memory_lookup (pagetables s' 0x8000) va =
          (if ROUNDUP 0x141000 PAGESIZE \<le> va \<and> va < ROUNDUP 0x143000 PAGESIZE then no_mapping
           else virtual_memory_lookup (pagetables ks1 0x8000) va)) \<and>
     (\<forall>root'. root' \<noteq> 0x8000 \<longrightarrow> pagetables s' root' = pagetables ks1 root') \<and>
     pageinfo s' = pageinfo (foldl (freepage cfg1) ks1 [0xA000]) \<and>
     (\<forall>k. k \<notin> (\<lambda>f. unat (PAGENUMBER f)) ` set [0xA000 :: uintptr_t] \<longrightarrow> pageinfo s' k = pageinfo ks1 k) \<and>
     physmem s' = physmem ks1"
    by (rule brk_shrink_unmaps [where old = "0x143000"]) (simp_all add: top r pr bf)
  then obtain s' where s': "exception cfg1 ks1 (trap_regs INT_SYS_SBRK (- 0x2000) 0 0) 0 = Some (exception_return s')"
      "program_break (processes s' (current ks1)) = 0x141000"
      "\<forall>va. unat va < 2 ^ 48 \<longrightarrow>
        virtual_memory_lookup (pagetables s' 0x8000) va =
          (if ROUNDUP 0x141000 PAGESIZE \<le> va \<and> va < ROUNDUP 0x143000 PAGESIZE then no_mapping
           else virtual_memory_lookup (pagetables ks1 0x8000) va)"
      "pageinfo s' = pageinfo (foldl (freepage cfg1) ks1 [0xA000])"
    by blast
  from s'(3) have "virtual_memory_lookup (pagetables s' 0x8000) 0x141000 = no_mapping"
    "virtual_memory_lookup (pagetables s' 0x8000) 0x140000 = \<lparr>vam_pn = 9, vam_pa = 0x9000, vam_perm = 7\<rparr>"
    by (simp_all add: l0 r)
  with s'(1,2,4) have a: "\<exists>s'. exception cfg1 ks1 (trap_regs INT_SYS_SBRK (- 0x2000) 0 0) 0 = Some (exception_return s') \<and>
      program_break (processes s' 1) = 0x141000 \<and>
      virtual_memory_lookup (pagetables s' 0x8000) 0x141000 = no_mapping \<and>
      virtual_memory_lookup (pagetables s' 0x8000) 0x140000 =
        \<lparr>vam_pn = 9, vam_pa = 0x9000, vam_perm = 7\<rparr> \<and>
      pageinfo s' 10 = \<lparr>owner = PO_FREE, refcount = 0\<rparr> \<and>
      pageinfo s' 9 = \<lparr>owner = 1, refcount = 1\<rparr>"
    by (intro exI[of _ s']) (simp add: pageinfo_1_def fp)
  have "\<exists>s'. exception cfg1 ks1 (trap_regs INT_SYS_BRK 0x140800 0 0) 0 = Some (exception_return s') \<and>
     program_break (processes s' (current ks1)) = 0x140800 \<and>
     (\<forall>va. unat va < 2 ^ 48 \<longrightarrow>
        virtual_memory_lookup (pagetables s' 0x8000) va =
          (if ROUNDUP 0x140800 PAGESIZE \<le> va \<and> va < ROUNDUP 0x143000 PAGESIZE then no_mapping
           else virtual_memory_lookup (pagetables ks1 0x8000) va)) \<and>
     (\<forall>root'. root' \<noteq> 0x8000 \<longrightarrow> pagetables s' root' = pagetables ks1 root') \<and>
     pageinfo s' = pageinfo (foldl (freepage cfg1) ks1 [0xA000]) \<and>
     (\<forall>k. k \<notin> (\<lambda>f. unat (PAGENUMBER f)) ` set [0xA000 :: uintptr_t] \<longrightarrow> pageinfo s' k = pageinfo ks1 k) \<and>
     physmem s' = physmem ks1"
    by (rule brk_shrink_unmaps [where old = "0x143000"]) (simp_all add: top r pr bf)
  then obtain t' where t': "exception cfg1 ks1 (trap_regs INT_SYS_BRK 0x140800 0 0) 0 = Some (exception_return t')"
      "program_break (processes t' (current ks1)) = 0x140800"
      "\<forall>va. unat va < 2 ^ 48 \<longrightarrow>
        virtual_memory_lookup (pagetables t' 0x8000) va =
          (if ROUNDUP 0x140800 PAGESIZE \<le> va \<and> va < ROUNDUP 0x143000 PAGESIZE then no_mapping
           else virtual_memory_lookup (pagetables ks1 0x8000) va)"
      "pageinfo t' = pageinfo (foldl (freepage cfg1) ks1 [0xA000])"
    by blast
  from t'(3) have "virtual_memory_lookup (pagetables t' 0x8000) 0x141000 = no_mapping"
    "virtual_memory_lookup (pagetables t' 0x8000) 0x140000 = \<lparr>vam_pn = 9, vam_pa = 0x9000, vam_perm = 7\<rparr>"
    by (simp_all add: l0 r)
  with t'(1,2,4) have b: "\<exists>s'. exception cfg1 ks1 (trap_regs INT_SYS_BRK 0x140800 0 0) 0 = Some (exception_return s') \<and>
      program_break (processes s' 1) = 0x140800 \<and>
      virtual_memory_lookup (pagetables s' 0x8000) 0x141000 = no_mapping \<and>
      virtual_memory_lookup (pagetables s' 0x8000) 0x140000 =
        \<lparr>vam_pn = 9, vam_pa = 0x9000, vam_perm = 7\<rparr> \<and>
      pageinfo s' 10 = \<lparr>owner = PO_FREE, refcount = 0\<rparr>"
    by (intro exI[of _ t']) (simp add: fp)
  from a b show ?thesis by simp
qed

section \<open>The page-fault handler\<close>


lemma PAGEADDRESS_push: "PAGEADDRESS n = push_bit 12 (of_nat n)"
  by (simp add: PAGEADDRESS_def PAGESIZE_def push_bit_eq_mult)

lemma m12: "(0xFFF :: uintptr_t) = mask 12" "(7 :: uintptr_t) = mask 3" "(1 :: uintptr_t) = mask 1"
  by (simp_all add: mask_eq_exp_minus_1)

lemma PTE_PWU: "PTE_P OR PTE_W OR PTE_U = 7"
  by (simp add: PTE_P_def PTE_W_def PTE_U_def)

lemma frame_entry:
  "PTE_ADDR (PAGEADDRESS n OR 7) = PAGEADDRESS n"
  "PTE_FLAGS (PAGEADDRESS n OR 7) = 7"
  "(PAGEADDRESS n OR 7) AND PTE_P \<noteq> 0"
  "PAGENUMBER (PAGEADDRESS n OR 7) = PAGENUMBER (PAGEADDRESS n)"
proof -
  show "PTE_ADDR (PAGEADDRESS n OR 7) = PAGEADDRESS n"
    unfolding PTE_ADDR_def PAGEADDRESS_push m12
    by (rule bit_word_eqI) (auto simp: bit_simps)
  show "PTE_FLAGS (PAGEADDRESS n OR 7) = 7"
    unfolding PTE_FLAGS_def PAGEADDRESS_push m12
    by (rule bit_word_eqI) (auto simp: bit_simps)
  have "bit ((PAGEADDRESS n OR 7) AND PTE_P) 0"
    unfolding PTE_P_def PAGEADDRESS_push m12 by (simp add: bit_simps)
  then show "(PAGEADDRESS n OR 7) AND PTE_P \<noteq> 0" by auto
  have "drop_bit 12 (PAGEADDRESS n OR 7) = drop_bit 12 (PAGEADDRESS n)"
    unfolding PAGEADDRESS_push m12
    by (rule bit_word_eqI) (auto simp: bit_simps)
  then show "PAGENUMBER (PAGEADDRESS n OR 7) = PAGENUMBER (PAGEADDRESS n)"
    by (simp add: PAGENUMBER_def PAGESIZE_def drop_bit_eq_div)
qed

lemma PAGEADDRESS_unat:
  assumes "n < 2 ^ 52"
  shows "unat (PAGEADDRESS n) = n * 4096"
proof -
  have "unat (PAGEADDRESS 0) + n * 4096 < 2 ^ 64" using assms by (simp add: PAGEADDRESS_def)
  from unat_add_pages[OF this] show ?thesis by (simp add: PAGEADDRESS_def)
qed

lemma PAGEADDRESS_number:
  assumes "n < 2 ^ 52"
  shows "unat (PAGENUMBER (PAGEADDRESS n)) = n" "(PAGEADDRESS n = 0) = (n = 0)"
    "PAGENUMBER (PAGEADDRESS n) < NPAGES cfg = (n < unat (NPAGES cfg))"
proof -
  show a: "unat (PAGENUMBER (PAGEADDRESS n)) = n"
    by (simp add: PAGENUMBER_def unat_div PAGEADDRESS_unat[OF assms])
  show "(PAGEADDRESS n = 0) = (n = 0)"
    using PAGEADDRESS_unat[OF assms] by (simp add: word_unat_eq_iff)
  show "PAGENUMBER (PAGEADDRESS n) < NPAGES cfg = (n < unat (NPAGES cfg))"
    by (simp add: word_less_nat_alt a)
qed


lemma set_p_state_fields [simp]:
  "current (set_p_state st s) = current s"
  "pageinfo (set_p_state st s) = pageinfo s"
  "pagetables (set_p_state st s) = pagetables s"
  "physmem (set_p_state st s) = physmem s"
  "p_state (processes (set_p_state st s) (current s)) = st"
  by (simp_all add: set_p_state_def)

lemma exception_return_set_p_state [simp]:
  "exception_return (set_p_state st s) =
     (if st = P_RUNNABLE then Resumed (set_p_state st s) else Rescheduled (set_p_state st s))"
  by (simp add: exception_return_def)

lemma PAGEOFFSET_ROUNDDOWN [simp]: "PAGEOFFSET (ROUNDDOWN a PAGESIZE) = 0"
  by (simp add: PAGEOFFSET_def word_unat_eq_iff unat_mod unat_ROUNDDOWN)

lemma memset_fields [simp]:
  "current (memset s pa c n) = current s"
  "pageinfo (memset s pa c n) = pageinfo s"
  "pagetables (memset s pa c n) = pagetables s"
  "processes (memset s pa c n) = processes s"
  "physmem (memset s pa c n) a = (if a - pa < n then c else physmem s a)"
  by (simp_all add: memset_def)

lemma palloc_find:
  "palloc cfg s pid =
     (case find (\<lambda>n. refcount (pageinfo s n) = 0) [0..<unat (NPAGES cfg)] of
        None \<Rightarrow> (0, s)
      | Some n \<Rightarrow>
          (PAGEADDRESS n, s\<lparr>pageinfo := (pageinfo s)(n := \<lparr>owner = pid, refcount = 1\<rparr>)\<rparr>))"
  by (simp add: palloc_def)

lemma user_pagefault_present:
  assumes "original_break (processes s (current s)) \<le> fa" "fa < program_break (processes s (current s))"
    and "vam_perm (virtual_memory_lookup (pagetables s (p_pagetable (processes s (current s)))) (ROUNDDOWN fa PAGESIZE)) AND PTE_P \<noteq> 0"
  shows "user_pagefault cfg s fa = set_p_state P_RUNNABLE s"
  using assms by (simp add: user_pagefault_def Let_def)

lemma user_pagefault_oom:
  assumes "original_break (processes s (current s)) \<le> fa" "fa < program_break (processes s (current s))"
    and "vam_perm (virtual_memory_lookup (pagetables s (p_pagetable (processes s (current s)))) (ROUNDDOWN fa PAGESIZE)) AND PTE_P = 0"
    and "find (\<lambda>n. refcount (pageinfo s n) = 0) [0..<unat (NPAGES cfg)] = None"
  shows "user_pagefault cfg s fa =
     set_p_state P_BROKEN (log_printf (ConsoleOutOfMemory (p_pid (processes s (current s)))) s)"
  using assms by (simp add: user_pagefault_def Let_def palloc_find)

lemma user_pagefault_alloc:
  assumes w: "original_break (processes s (current s)) \<le> fa" "fa < program_break (processes s (current s))"
    and np: "vam_perm (virtual_memory_lookup (pagetables s root) page) AND PTE_P = 0"
    and root: "root = p_pagetable (processes s (current s))"
    and page: "page = ROUNDDOWN fa PAGESIZE"
    and f: "find (\<lambda>n. refcount (pageinfo s n) = 0) [0..<unat (NPAGES cfg)] = Some n"
    and n0: "n \<noteq> 0" and np52: "unat (NPAGES cfg) \<le> 2 ^ 52"
    and s2: "s2 = memset (snd (palloc cfg s (p_pid (processes s (current s))))) (PAGEADDRESS n) 0 PAGESIZE"
    and r: "r = fst (virtual_memory_map cfg s2 root page (PAGEADDRESS n) PAGESIZE (PTE_P OR PTE_W OR PTE_U))"
  shows "\<exists>s'. user_pagefault cfg s fa = set_p_state (if r < 0 then P_BROKEN else P_RUNNABLE) s' \<and>
     current s' = current s \<and>
     (if r < 0 then
        pageinfo s' n = \<lparr>owner = PO_FREE, refcount = 0\<rparr> \<and>
        (\<forall>va. virtual_memory_lookup (pagetables s' root) va = virtual_memory_lookup (pagetables s root) va)
      else
        virtual_memory_lookup (pagetables s' root) page =
          \<lparr>vam_pn = int n, vam_pa = PAGEADDRESS n, vam_perm = PTE_P OR PTE_W OR PTE_U\<rparr> \<and>
        (\<forall>va. pagepath va \<noteq> pagepath page \<longrightarrow>
           virtual_memory_lookup (pagetables s' root) va = virtual_memory_lookup (pagetables s root) va) \<and>
        pageinfo s' n = \<lparr>owner = p_pid (processes s (current s)), refcount = 1\<rparr> \<and>
        (\<forall>a. a - PAGEADDRESS n < PAGESIZE \<longrightarrow> physmem s' a = 0)) \<and>
     (\<forall>k. refcount (pageinfo s k) \<noteq> 0 \<longrightarrow> pageinfo s' k = pageinfo s k) \<and>
     (\<forall>root'. root' \<noteq> root \<longrightarrow> pagetables s' root' = pagetables s root') \<and>
     (\<forall>a. \<not> a - PAGEADDRESS n < PAGESIZE \<longrightarrow> physmem s' a = physmem s a)"
proof -
  let ?pid = "p_pid (processes s (current s))"
  let ?pa = "PAGEADDRESS n"
  let ?s1 = "s\<lparr>pageinfo := (pageinfo s)(n := \<lparr>owner = ?pid, refcount = 1\<rparr>)\<rparr>"
  from f have nN: "n < unat (NPAGES cfg)" and free: "refcount (pageinfo s n) = 0"
    by (auto simp: find_Some_iff)
  with np52 have n52: "n < 2 ^ 52" by simp
  have pal: "palloc cfg s ?pid = (?pa, ?s1)" by (simp add: palloc_find f)
  have pa0: "?pa \<noteq> 0" using n0 PAGEADDRESS_number(2)[OF n52] by simp
  have s2': "s2 = memset ?s1 ?pa 0 PAGESIZE" by (simp add: s2 pal)
  obtain s3 where m: "map_page cfg s2 root page ?pa (PTE_P OR PTE_W OR PTE_U) = (r, s3)"
    by (cases "map_page cfg s2 root page ?pa (PTE_P OR PTE_W OR PTE_U)") (simp add: r virtual_memory_map_one)
  note mp = map_page_props[OF m]
  have rr: "r = 0 \<or> r = - 1" using mp[of page] by simp
  have ku: "keeps_used s2 (s3\<lparr>pagetables := pagetables s2\<rparr>)" using mp[of page] by simp
  have lk: "\<And>va. virtual_memory_lookup (pagetables s3 root) va =
      (if r = 0 \<and> pagepath va = pagepath page then leaf_mapping (?pa OR 7) va
       else virtual_memory_lookup (pagetables s root) va)"
    using mp by (simp add: s2' PTE_PWU leaf_entry_def)
  have oth: "\<And>root'. root' \<noteq> root \<Longrightarrow> pagetables s3 root' = pagetables s root'"
    using mp[of page] by (simp add: s2')
  have f3: "physmem s3 = physmem s2" "processes s3 = processes s" "current s3 = current s"
    using ku by (simp_all add: keeps_used_def same_but_pageinfo_def s2')
  have pin: "pageinfo s3 n = \<lparr>owner = ?pid, refcount = 1\<rparr>"
    using ku by (simp add: keeps_used_def s2')
  have used: "\<And>k. refcount (pageinfo s k) \<noteq> 0 \<Longrightarrow> pageinfo s3 k = pageinfo s k"
    using ku free by (auto simp: keeps_used_def s2')
  have uf: "user_pagefault cfg s fa =
      (if r < 0 then set_p_state P_BROKEN (freepage cfg s3 ?pa) else set_p_state P_RUNNABLE s3)"
    using w np pa0 m[unfolded s2']
    by (simp add: user_pagefault_def Let_def root[symmetric] page[symmetric] pal
        virtual_memory_map_one)
  have inr: "\<not> NPAGES cfg \<le> PAGENUMBER ?pa"
    using PAGEADDRESS_number(3)[OF n52, of cfg] nN by (simp add: not_le)
  show ?thesis
  proof (cases "r < 0")
    case True
    with rr have r1: "r = - 1" by auto
    have "pageinfo (freepage cfg s3 ?pa) n = \<lparr>owner = PO_FREE, refcount = 0\<rparr>"
      using pa0 inr by (simp add: freepage_cases PAGEADDRESS_number(1)[OF n52] pin)
    moreover have "\<And>k. refcount (pageinfo s k) \<noteq> 0 \<Longrightarrow> pageinfo (freepage cfg s3 ?pa) k = pageinfo s k"
      using used free pa0 inr by (auto simp: freepage_cases PAGEADDRESS_number(1)[OF n52] pin)
    ultimately show ?thesis
      using True uf lk oth f3 r1
      by (intro exI[of _ "freepage cfg s3 ?pa"]) (simp add: s2')
  next
    case False
    with rr have r0: "r = 0" by auto
    have "virtual_memory_lookup (pagetables s3 root) page =
          \<lparr>vam_pn = int n, vam_pa = ?pa, vam_perm = PTE_P OR PTE_W OR PTE_U\<rparr>"
      by (simp add: lk r0 leaf_mapping_def frame_entry page PTE_PWU uint_nat PAGEADDRESS_number(1)[OF n52])
    then show ?thesis
      using False uf lk oth f3 r0 pin used
      by (intro exI[of _ s3]) (simp add: s2')
  qed
qed


lemma p_state_set_p_state [simp]:
  "p_state (processes (set_p_state st s) p) =
     (if p = current s then st else p_state (processes s p))"
  by (simp add: set_p_state_def)

text \<open>
  Claim C1.  A user-mode page fault at \<open>fa\<close> inside the heap window
  \<open>[original_break, program_break)\<close> of the current process, with \<open>page\<close> the
  page-rounded address: if \<open>page\<close> already has a present mapping, the process is marked
  runnable and resumed and nothing else changes; if no frame is free, it is marked
  broken; otherwise the lowest free frame \<open>n\<close> is allocated to the process and
  zero-filled, and either the map step succeeds, and then \<open>page\<close> is mapped to that frame
  present/writable/user, the frame is owned by the process with count 1 and reads as
  zeros, and the process is marked runnable and resumed, or the map step fails, and
  then the frame is released (free, count 0), no mapping has changed and the process
  is marked broken.  Frame 0, whose address is the null pointer, is taken to be in use,
  and the frame table to have at most \<open>2^52\<close> entries.
\<close>

theorem pagefault_heap_window:
  assumes trap: "reg_intno reg = INT_PAGEFAULT" "reg_err reg AND PFERR_USER \<noteq> 0"
    and cur: "cur = processes s (current s)"
    and window: "original_break cur \<le> fa" "fa < program_break cur"
    and root: "root = p_pagetable cur"
    and page: "page = ROUNDDOWN fa PAGESIZE"
    and frame0: "refcount (pageinfo s 0) \<noteq> 0"
    and np52: "unat (NPAGES cfg) \<le> 2 ^ 52"
  shows "\<exists>s'. exception cfg s reg fa = Some (exception_return s') \<and> current s' = current s \<and>
     (if vam_perm (virtual_memory_lookup (pagetables s root) page) AND PTE_P \<noteq> 0 then
        exception_return s' = Resumed s' \<and> p_state (processes s' (current s)) = P_RUNNABLE \<and>
        pagetables s' = pagetables s \<and> pageinfo s' = pageinfo s \<and> physmem s' = physmem s
      else
        case find (\<lambda>n. refcount (pageinfo s n) = 0) [0..<unat (NPAGES cfg)] of
          None \<Rightarrow>
            exception_return s' = Rescheduled s' \<and>
            p_state (processes s' (current s)) = P_BROKEN \<and>
            pagetables s' = pagetables s \<and> pageinfo s' = pageinfo s \<and> physmem s' = physmem s
        | Some n \<Rightarrow>
            (let pa = PAGEADDRESS n;
                 s2 = memset (snd (palloc cfg (save_registers reg s) (p_pid cur))) pa 0 PAGESIZE
             in if fst (virtual_memory_map cfg s2 root page pa PAGESIZE
                          (PTE_P OR PTE_W OR PTE_U)) < 0
                then
                  exception_return s' = Rescheduled s' \<and>
                  p_state (processes s' (current s)) = P_BROKEN \<and>
                  pageinfo s' n = \<lparr>owner = PO_FREE, refcount = 0\<rparr> \<and>
                  (\<forall>va. virtual_memory_lookup (pagetables s' root) va =
                        virtual_memory_lookup (pagetables s root) va)
                else
                  exception_return s' = Resumed s' \<and>
                  p_state (processes s' (current s)) = P_RUNNABLE \<and>
                  virtual_memory_lookup (pagetables s' root) page =
                    \<lparr>vam_pn = int n, vam_pa = pa, vam_perm = PTE_P OR PTE_W OR PTE_U\<rparr> \<and>
                  (\<forall>va. pagepath va \<noteq> pagepath page \<longrightarrow>
                     virtual_memory_lookup (pagetables s' root) va =
                     virtual_memory_lookup (pagetables s root) va) \<and>
                  pageinfo s' n = \<lparr>owner = p_pid cur, refcount = 1\<rparr> \<and>
                  (\<forall>a. a - pa < PAGESIZE \<longrightarrow> physmem s' a = 0)))"
proof -
  let ?sr = "save_registers reg s"
  have ex: "exception cfg s reg fa = Some (exception_return (user_pagefault cfg ?sr fa))"
    using trap by (simp add: exception_def Let_def)
  have w: "original_break (processes ?sr (current ?sr)) \<le> fa"
      "fa < program_break (processes ?sr (current ?sr))"
    using window by (simp_all add: cur)
  have rt: "root = p_pagetable (processes ?sr (current ?sr))" by (simp add: root cur)
  have pid: "p_pid (processes ?sr (current ?sr)) = p_pid cur" by (simp add: cur)
  have rt2: "p_pagetable (processes s (current s)) = root" by (simp add: root cur)
  show ?thesis
  proof (cases "vam_perm (virtual_memory_lookup (pagetables s root) page) AND PTE_P \<noteq> 0")
    case True
    then have "user_pagefault cfg ?sr fa = set_p_state P_RUNNABLE ?sr"
      using user_pagefault_present[OF w, of cfg] by (simp add: rt2 page)
    with True show ?thesis
      by (intro exI[of _ "set_p_state P_RUNNABLE ?sr"]) (simp add: ex)
  next
    case np: False
    show ?thesis
    proof (cases "find (\<lambda>n. refcount (pageinfo s n) = 0) [0..<unat (NPAGES cfg)]")
      case None
      then have "user_pagefault cfg ?sr fa =
          set_p_state P_BROKEN (log_printf (ConsoleOutOfMemory (p_pid (processes ?sr (current ?sr)))) ?sr)"
        using user_pagefault_oom[OF w, of cfg] np by (simp add: rt2 page)
      with np None show ?thesis
        by (intro exI[of _ "set_p_state P_BROKEN (log_printf (ConsoleOutOfMemory (p_pid (processes ?sr (current ?sr)))) ?sr)"])
           (simp add: ex)
    next
      case (Some n)
      then have "refcount (pageinfo s n) = 0" by (auto simp: find_Some_iff)
      with frame0 have n0: "n \<noteq> 0" by (cases n) auto
      define s2 where "s2 = memset (snd (palloc cfg ?sr (p_pid cur))) (PAGEADDRESS n) 0 PAGESIZE"
      define r where "r = fst (virtual_memory_map cfg s2 root page (PAGEADDRESS n) PAGESIZE (PTE_P OR PTE_W OR PTE_U))"
      have np': "vam_perm (virtual_memory_lookup (pagetables ?sr root) page) AND PTE_P = 0"
        using np by simp
      have f': "find (\<lambda>n. refcount (pageinfo ?sr n) = 0) [0..<unat (NPAGES cfg)] = Some n"
        using Some by simp
      from user_pagefault_alloc[OF w np' rt page f' n0 np52 s2_def[unfolded pid[symmetric]] r_def]
      obtain s' where s'1: "user_pagefault cfg ?sr fa = set_p_state (if r < 0 then P_BROKEN else P_RUNNABLE) s'"
        and s'2: "current s' = current ?sr"
        and s'3: "if r < 0 then
        pageinfo s' n = \<lparr>owner = PO_FREE, refcount = 0\<rparr> \<and>
        (\<forall>va. virtual_memory_lookup (pagetables s' root) va = virtual_memory_lookup (pagetables ?sr root) va)
      else
        virtual_memory_lookup (pagetables s' root) page =
          \<lparr>vam_pn = int n, vam_pa = PAGEADDRESS n, vam_perm = PTE_P OR PTE_W OR PTE_U\<rparr> \<and>
        (\<forall>va. pagepath va \<noteq> pagepath page \<longrightarrow>
           virtual_memory_lookup (pagetables s' root) va = virtual_memory_lookup (pagetables ?sr root) va) \<and>
        pageinfo s' n = \<lparr>owner = p_pid (processes ?sr (current ?sr)), refcount = 1\<rparr> \<and>
        (\<forall>a. a - PAGEADDRESS n < PAGESIZE \<longrightarrow> physmem s' a = 0)"
        by blast
      note s' = s'1 s'2[simplified] s'3[unfolded pid, simplified]
      show ?thesis
        apply (rule exI[of _ "set_p_state (if r < 0 then P_BROKEN else P_RUNNABLE) s'"])
        using np Some s'(2,3)
        apply (simp add: ex s'(1) Let_def s2_def[symmetric] r_def[symmetric])
        done
    qed
  qed
qed


lemma palloc_fields [simp]:
  "pagetables (snd (palloc cfg s pid)) = pagetables s"
  "processes (snd (palloc cfg s pid)) = processes s"
  "current (snd (palloc cfg s pid)) = current s"
  "physmem (snd (palloc cfg s pid)) = physmem s"
  by (simp_all add: palloc_def split: option.splits)

lemma ks1_full_simps [simp]:
  "current ks1_full = 1" "processes ks1_full 1 = proc_1" "processes ks1_full (Suc 0) = proc_1"
  "pagetables ks1_full 0x8000 = pt_1" "pageinfo ks1_full = (\<lambda>n. \<lparr>owner = 1, refcount = 1\<rparr>)"
  by (simp_all add: ks1_full_def ks1_def)

lemma ks1_tight_simps [simp]:
  "current ks1_tight = 1" 
  "processes ks1_tight 1 = proc_1\<lparr>program_break := 0x201000\<rparr>"
  "processes ks1_tight (Suc 0) = proc_1\<lparr>program_break := 0x201000\<rparr>"
  "pagetables ks1_tight 0x8000 = pt_1"
  "pageinfo ks1_tight = (\<lambda>n. if n = 15 then \<lparr>owner = PO_FREE, refcount = 0\<rparr>
                                      else \<lparr>owner = 1, refcount = 1\<rparr>)"
  by (simp_all add: ks1_tight_def ks1_def)

lemma upt16: "[0..<16] = [0,1,2,3,4,5,6,7,8,9,10,11,12,13,14,15]"
  by (simp add: upt_rec)

lemma RD_examples: 
  "ROUNDDOWN 0x140010 PAGESIZE = 0x140000" "ROUNDDOWN 0x142008 PAGESIZE = 0x142000"
  "ROUNDDOWN 0x200000 PAGESIZE = 0x200000"
  by (simp_all add: ROUNDDOWN_def PAGESIZE_def)

lemma pt_1_lookups:
  "virtual_memory_lookup pt_1 0x140000 = \<lparr>vam_pn = 9, vam_pa = 0x9000, vam_perm = 7\<rparr>"
  "virtual_memory_lookup pt_1 0x142000 = no_mapping"
  "virtual_memory_lookup pt_1 0x200000 = no_mapping"
  by (simp_all add: lookup_defs pt_1_def l4_1_def)

lemma find_free_examples:
  "find (\<lambda>n. refcount (pageinfo_1 n) = 0) [0..<16] = Some 14"
  "find (\<lambda>n. refcount (\<lparr>owner = 1 :: int, refcount = 1 :: nat\<rparr>) = 0) [0..<16] = None"
  "find (\<lambda>n. refcount (if n = 15 then \<lparr>owner = PO_FREE, refcount = 0\<rparr>
                                      else \<lparr>owner = 1, refcount = 1\<rparr>) = 0) [0..<16] = Some 15"
  by (simp_all add: upt16 pageinfo_1_def)

lemma map_examples:
  "fst (virtual_memory_map cfg1
          (memset (snd (palloc cfg1 (save_registers (trap_regs INT_PAGEFAULT 0 0 6) ks1) 1)) 0xE000 0 PAGESIZE)
          0x8000 0x142000 0xE000 PAGESIZE (PTE_P OR PTE_W OR PTE_U)) = 0"
  "fst (virtual_memory_map cfg1
          (memset (snd (palloc cfg1 (save_registers (trap_regs INT_PAGEFAULT 0 0 6) ks1_tight) 1)) 0xF000 0 PAGESIZE)
          0x8000 0x200000 0xF000 PAGESIZE (PTE_P OR PTE_W OR PTE_U)) = - 1"
   apply (simp_all add: virtual_memory_map_one map_page_def Let_def map_l2_def map_l3_def map_l4_def
      L1PAGEINDEX_def L2PAGEINDEX_def L3PAGEINDEX_def L4PAGEINDEX_def pt_1_def split: prod.splits)
  apply (simp add: palloc_def find_free_examples upt16 PAGEADDRESS_def PAGESIZE_def)
  done


theorem pagefault_heap_window_witness:
  "(\<exists>s'. exception cfg1 ks1 (trap_regs INT_PAGEFAULT 0 0 6) 0x140010 = Some (Resumed s') \<and>
      p_state (processes s' 1) = P_RUNNABLE \<and> pagetables s' = pagetables ks1 \<and>
      pageinfo s' = pageinfo ks1) \<and>
   (\<exists>s'. exception cfg1 ks1 (trap_regs INT_PAGEFAULT 0 0 6) 0x142008 = Some (Resumed s') \<and>
      p_state (processes s' 1) = P_RUNNABLE \<and>
      virtual_memory_lookup (pagetables s' 0x8000) 0x142000 =
        \<lparr>vam_pn = 14, vam_pa = 0xE000, vam_perm = 7\<rparr> \<and>
      pageinfo s' 14 = \<lparr>owner = 1, refcount = 1\<rparr> \<and>
      physmem s' 0xE000 = 0 \<and> physmem s' 0xEFFF = 0) \<and>
   (\<exists>s'. exception cfg1 ks1_full (trap_regs INT_PAGEFAULT 0 0 6) 0x142008 = Some (Rescheduled s') \<and>
      p_state (processes s' 1) = P_BROKEN \<and> pagetables s' = pagetables ks1_full \<and>
      pageinfo s' = pageinfo ks1_full) \<and>
   (\<exists>s'. exception cfg1 ks1_tight (trap_regs INT_PAGEFAULT 0 0 6) 0x200000 = Some (Rescheduled s') \<and>
      p_state (processes s' 1) = P_BROKEN \<and>
      pageinfo s' 15 = \<lparr>owner = PO_FREE, refcount = 0\<rparr> \<and>
      virtual_memory_lookup (pagetables s' 0x8000) 0x200000 = no_mapping)"
proof -
  let ?R = "trap_regs INT_PAGEFAULT 0 0 6"
  have p7: "PTE_P OR PTE_W OR PTE_U = 7" "(7 :: uintptr_t) AND PTE_P \<noteq> 0"
    by (simp_all add: PTE_P_def PTE_W_def PTE_U_def)
  have pa: "PAGEADDRESS 14 = 0xE000" "PAGEADDRESS 15 = 0xF000"
    by (simp_all add: PAGEADDRESS_def PAGESIZE_def)
  have h1: "reg_intno ?R = INT_PAGEFAULT" by simp
  have h2: "reg_err ?R AND PFERR_USER \<noteq> 0" by (simp add: PFERR_USER_def)
  have h8: "unat (NPAGES cfg1) \<le> 2 ^ 52" by simp
  \<comment> \<open>the page is present\<close>
  have a3: "proc_1 = processes ks1 (current ks1)" by simp
  have a4: "original_break proc_1 \<le> 0x140010" "0x140010 < program_break proc_1" by simp_all
  have h5: "0x8000 = p_pagetable proc_1" by simp
  have a6: "0x140000 = ROUNDDOWN 0x140010 PAGESIZE" by (simp add: RD_examples)
  have a7: "refcount (pageinfo ks1 0) \<noteq> 0" by (simp add: pageinfo_1_def)
  have apr: "vam_perm (virtual_memory_lookup (pagetables ks1 0x8000) 0x140000) AND PTE_P \<noteq> 0"
    by (simp add: pt_1_lookups p7)
  from pagefault_heap_window [OF h1 h2 a3 a4 h5 a6 a7 h8, unfolded if_P[OF apr]]
  obtain sa where sa: "exception cfg1 ks1 ?R 0x140010 = Some (exception_return sa)"
      "exception_return sa = Resumed sa"
      "p_state (processes sa (current ks1)) = P_RUNNABLE" "pagetables sa = pagetables ks1"
      "pageinfo sa = pageinfo ks1"
    by blast
  have a: "\<exists>s'. exception cfg1 ks1 ?R 0x140010 = Some (Resumed s') \<and>
      p_state (processes s' 1) = P_RUNNABLE \<and> pagetables s' = pagetables ks1 \<and>
      pageinfo s' = pageinfo ks1"
    using sa by (intro exI[of _ sa]) simp
  \<comment> \<open>a frame is allocated and mapped\<close>
  have b4: "original_break proc_1 \<le> 0x142008" "0x142008 < program_break proc_1" by simp_all
  have b6: "0x142000 = ROUNDDOWN 0x142008 PAGESIZE" by (simp add: RD_examples)
  have bpr: "\<not> vam_perm (virtual_memory_lookup (pagetables ks1 0x8000) 0x142000) AND PTE_P \<noteq> 0"
    by (simp add: pt_1_lookups)
  have bf: "find (\<lambda>n. refcount (pageinfo ks1 n) = 0) [0..<unat (NPAGES cfg1)] = Some 14"
    by (simp add: find_free_examples)
  have bm: "\<not> fst (virtual_memory_map cfg1
          (memset (snd (palloc cfg1 (save_registers ?R ks1) (p_pid proc_1))) (PAGEADDRESS 14) 0 PAGESIZE)
          0x8000 0x142000 (PAGEADDRESS 14) PAGESIZE (PTE_P OR PTE_W OR PTE_U)) < 0"
    by (simp add: pa map_examples)
  from pagefault_heap_window [OF h1 h2 a3 b4 h5 b6 a7 h8,
      unfolded if_not_P[OF bpr] bf option.case Let_def if_not_P[OF bm]]
  obtain sb where sb: "exception cfg1 ks1 ?R 0x142008 = Some (exception_return sb)"
      "exception_return sb = Resumed sb"
      "p_state (processes sb (current ks1)) = P_RUNNABLE"
      "virtual_memory_lookup (pagetables sb 0x8000) 0x142000 =
        \<lparr>vam_pn = int 14, vam_pa = PAGEADDRESS 14, vam_perm = PTE_P OR PTE_W OR PTE_U\<rparr>"
      "pageinfo sb 14 = \<lparr>owner = p_pid proc_1, refcount = 1\<rparr>"
      "\<forall>a. a - PAGEADDRESS 14 < PAGESIZE \<longrightarrow> physmem sb a = 0"
    by blast
  from sb(6) have "physmem sb 0xE000 = 0" "physmem sb 0xEFFF = 0"
    by (simp_all add: PAGESIZE_def pa)
  with sb have b: "\<exists>s'. exception cfg1 ks1 ?R 0x142008 = Some (Resumed s') \<and>
      p_state (processes s' 1) = P_RUNNABLE \<and>
      virtual_memory_lookup (pagetables s' 0x8000) 0x142000 =
        \<lparr>vam_pn = 14, vam_pa = 0xE000, vam_perm = 7\<rparr> \<and>
      pageinfo s' 14 = \<lparr>owner = 1, refcount = 1\<rparr> \<and>
      physmem s' 0xE000 = 0 \<and> physmem s' 0xEFFF = 0"
    by (intro exI[of _ sb]) (simp add: pa p7)
  \<comment> \<open>no frame is free\<close>
  have c3: "proc_1 = processes ks1_full (current ks1_full)" by simp
  have c7: "refcount (pageinfo ks1_full 0) \<noteq> 0" by simp
  have cpr: "\<not> vam_perm (virtual_memory_lookup (pagetables ks1_full 0x8000) 0x142000) AND PTE_P \<noteq> 0"
    by (simp add: pt_1_lookups)
  have cf: "find (\<lambda>n. refcount (pageinfo ks1_full n) = 0) [0..<unat (NPAGES cfg1)] = None"
    by (simp add: find_None_iff)
  from pagefault_heap_window [OF h1 h2 c3 b4 h5 b6 c7 h8,
      unfolded if_not_P[OF cpr] cf option.case]
  obtain sc where sc: "exception cfg1 ks1_full ?R 0x142008 = Some (exception_return sc)"
      "exception_return sc = Rescheduled sc"
      "p_state (processes sc (current ks1_full)) = P_BROKEN" "pagetables sc = pagetables ks1_full"
      "pageinfo sc = pageinfo ks1_full"
    by blast
  have c: "\<exists>s'. exception cfg1 ks1_full ?R 0x142008 = Some (Rescheduled s') \<and>
      p_state (processes s' 1) = P_BROKEN \<and> pagetables s' = pagetables ks1_full \<and>
      pageinfo s' = pageinfo ks1_full"
    using sc by (intro exI[of _ sc]) simp
  \<comment> \<open>the map step fails\<close>
  let ?p = "proc_1\<lparr>program_break := 0x201000\<rparr>"
  have d3: "?p = processes ks1_tight (current ks1_tight)" by simp
  have d4: "original_break ?p \<le> 0x200000" "0x200000 < program_break ?p" by simp_all
  have d5: "0x8000 = p_pagetable ?p" by simp
  have d6: "0x200000 = ROUNDDOWN 0x200000 PAGESIZE" by (simp add: RD_examples)
  have d7: "refcount (pageinfo ks1_tight 0) \<noteq> 0" by simp
  have dpr: "\<not> vam_perm (virtual_memory_lookup (pagetables ks1_tight 0x8000) 0x200000) AND PTE_P \<noteq> 0"
    by (simp add: pt_1_lookups)
  have df: "find (\<lambda>n. refcount (pageinfo ks1_tight n) = 0) [0..<unat (NPAGES cfg1)] = Some 15"
    by (simp add: find_free_examples)
  have dm: "fst (virtual_memory_map cfg1
          (memset (snd (palloc cfg1 (save_registers ?R ks1_tight) (p_pid ?p))) (PAGEADDRESS 15) 0 PAGESIZE)
          0x8000 0x200000 (PAGEADDRESS 15) PAGESIZE (PTE_P OR PTE_W OR PTE_U)) < 0"
    by (simp add: pa map_examples)
  from pagefault_heap_window [OF h1 h2 d3 d4 d5 d6 d7 h8,
      unfolded if_not_P[OF dpr] df option.case Let_def if_P[OF dm]]
  obtain sd where sd: "exception cfg1 ks1_tight ?R 0x200000 = Some (exception_return sd)"
      "exception_return sd = Rescheduled sd"
      "p_state (processes sd (current ks1_tight)) = P_BROKEN"
      "pageinfo sd 15 = \<lparr>owner = PO_FREE, refcount = 0\<rparr>"
      "\<forall>va. virtual_memory_lookup (pagetables sd 0x8000) va =
            virtual_memory_lookup (pagetables ks1_tight 0x8000) va"
    by blast
  have d: "\<exists>s'. exception cfg1 ks1_tight ?R 0x200000 = Some (Rescheduled s') \<and>
      p_state (processes s' 1) = P_BROKEN \<and>
      pageinfo s' 15 = \<lparr>owner = PO_FREE, refcount = 0\<rparr> \<and>
      virtual_memory_lookup (pagetables s' 0x8000) 0x200000 = no_mapping"
    using sd by (intro exI[of _ sd]) (simp add: pt_1_lookups)
  from a b c d show ?thesis by blast
qed

section \<open>User pointers: the mapping and panic system calls\<close>


lemma ks5_simps [simp]:
  "current ks5 = 1" "processes ks5 1 = proc_1" "processes ks5 (Suc 0) = proc_1"
  "pagetables ks5 0x8000 = pt_of l4_5" "vam_written ks5 = []"
  by (simp_all add: ks5_def ks1_def)

lemma ks6_simps [simp]:
  "current ks6 = 1" "processes ks6 1 = proc_1" "processes ks6 (Suc 0) = proc_1"
  "pagetables ks6 0x8000 = pt_of l4_6" "physmem ks6 = (\<lambda>a. ucast (a div 4096))"
  by (simp_all add: ks6_def ks1_def)

lemma save_registers_vam_written [simp]: "vam_written (save_registers reg s) = vam_written s"
  by (simp add: save_registers_def)

text \<open>
  Claim C5 (the code departs from it).  \<open>syscall_mapping\<close> is to write the lookup
  record only after the whole destination buffer is known to be user-writable.  Two
  runs of the code where it writes although the last byte of the buffer, at
  \<open>0x142007\<close>, is not user-accessible: in \<open>ks1\<close> that page is unmapped and the end
  check is skipped because the \<^emph>\<open>queried\<close> address lies in it (the code compares the
  end's page with \<open>ptr\<close>, not with \<open>mapping_ptr\<close>); in \<open>ks5\<close> that page is mapped
  for the kernel only and passes the end check, which tests \<open>PTE_W | PTE_P\<close> where the
  start check tests \<open>PTE_W | PTE_U\<close>.
\<close>

theorem syscall_mapping_unchecked_end:
  "vam_perm (virtual_memory_lookup (pagetables ks1 0x8000) 0x142007) AND PTE_U = 0 \<and>
   (\<exists>s'. exception cfg1 ks1 (trap_regs INT_SYS_MAPPING 0x141FF0 0x142010 0) 0 = Some (Resumed s') \<and>
      vam_written s' = [(0xAFF0, no_mapping)]) \<and>
   vam_perm (virtual_memory_lookup (pagetables ks5 0x8000) 0x142007) AND PTE_U = 0 \<and>
   (\<exists>s'. exception cfg1 ks5 (trap_regs INT_SYS_MAPPING 0x141FF0 0x100000 0) 0 = Some (Resumed s') \<and>
      vam_written s' = [(0xAFF0, no_mapping)])"
proof -
  have a: "vam_perm (virtual_memory_lookup (pagetables ks1 0x8000) 0x142007) AND PTE_U = 0"
    by (simp add: lookup_defs pt_1_def l4_1_def)
  have b: "vam_perm (virtual_memory_lookup (pagetables ks5 0x8000) 0x142007) AND PTE_U = 0"
    by (simp add: lookup_defs pt_of_def l4_5_def)
  have c: "exception cfg1 ks1 (trap_regs INT_SYS_MAPPING 0x141FF0 0x142010 0) 0 =
      Some (Resumed ((save_registers (trap_regs INT_SYS_MAPPING 0x141FF0 0x142010 0) ks1)
         \<lparr>vam_written := [(0xAFF0, no_mapping)]\<rparr>))"
    by (simp add: exception_def Let_def syscall_mapping_def sizeof_vamapping_def lookup_defs
        pt_1_def l4_1_def exception_return_def save_registers_def)
  have d: "exception cfg1 ks5 (trap_regs INT_SYS_MAPPING 0x141FF0 0x100000 0) 0 =
      Some (Resumed ((save_registers (trap_regs INT_SYS_MAPPING 0x141FF0 0x100000 0) ks5)
         \<lparr>vam_written := [(0xAFF0, no_mapping)]\<rparr>))"
    by (simp add: exception_def Let_def syscall_mapping_def sizeof_vamapping_def lookup_defs
        pt_of_def l4_5_def exception_return_def save_registers_def)
  show ?thesis
    by (simp only: a b c d) simp
qed


lemma same_page_unat:
  fixes addr :: uintptr_t
  assumes "unat addr mod 4096 + i < 4096"
  shows "unat (addr + of_nat i) = unat addr + i"
proof -
  have d: "unat addr = unat addr div 4096 * 4096 + unat addr mod 4096" by simp
  have "unat addr div 4096 * 4096 + 4096 \<le> 2 ^ 64"
  proof -
    have "unat addr < 2 ^ LENGTH(64)" by (rule unsigned_less)
    then have "unat addr < 2 ^ 52 * 4096" by simp
    then have "unat addr div 4096 < 2 ^ 52" by (rule less_mult_imp_div_less)
    then have "unat addr div 4096 + 1 \<le> 2 ^ 52" by simp
    then have "(unat addr div 4096 + 1) * 4096 \<le> 2 ^ 52 * 4096" by (rule mult_le_mono1)
    then show ?thesis by simp
  qed
  with d assms have lt: "unat addr + i < 2 ^ 64" by linarith
  then have "i < 2 ^ 64" by simp
  then have "unat (of_nat i :: 64 word) = i" by (simp add: unat_of_nat)
  with lt show ?thesis by (simp add: unat_word_ariths)
qed

lemma same_page_indexes:
  fixes addr :: uintptr_t
  assumes "unat addr mod 4096 + i < 4096"
  shows "L1PAGEINDEX (addr + of_nat i) = L1PAGEINDEX addr"
    "L2PAGEINDEX (addr + of_nat i) = L2PAGEINDEX addr"
    "L3PAGEINDEX (addr + of_nat i) = L3PAGEINDEX addr"
    "L4PAGEINDEX (addr + of_nat i) = L4PAGEINDEX addr"
    "PAGEOFFSET (addr + of_nat i) = PAGEOFFSET addr + of_nat i"
proof -
  note u = same_page_unat[OF assms]
  have sp: "unat addr + i = unat addr div 4096 * 4096 + (unat addr mod 4096 + i)" by simp
  have dv: "(unat addr + i) div 4096 = unat addr div 4096"
    by (subst sp, subst div_mult_self3) (simp_all add: assms)
  have pp: "pagepath (addr + of_nat i) = pagepath addr"
    by (simp add: pagepath_vpn u dv)
  then show "L1PAGEINDEX (addr + of_nat i) = L1PAGEINDEX addr"
    "L2PAGEINDEX (addr + of_nat i) = L2PAGEINDEX addr"
    "L3PAGEINDEX (addr + of_nat i) = L3PAGEINDEX addr"
    "L4PAGEINDEX (addr + of_nat i) = L4PAGEINDEX addr"
    by (simp_all add: pagepath_def)
  have md: "(unat addr + i) mod 4096 = unat addr mod 4096 + i"
    by (subst sp, subst mod_mult_self3) (simp add: assms)
  have "unat (PAGEOFFSET addr + of_nat i) = unat addr mod 4096 + i"
  proof -
    have "unat (PAGEOFFSET addr) mod 4096 + i < 4096"
      using assms by (simp add: PAGEOFFSET_def unat_mod)
    from same_page_unat[OF this] show ?thesis by (simp add: PAGEOFFSET_def unat_mod)
  qed
  then show "PAGEOFFSET (addr + of_nat i) = PAGEOFFSET addr + of_nat i"
    by (simp add: word_unat_eq_iff PAGEOFFSET_def unat_mod u md)
qed

lemma same_page_lookup:
  assumes "unat addr mod 4096 + i < 4096"
    and "vam_pn (virtual_memory_lookup pt addr) \<noteq> - 1"
  shows "vam_pa (virtual_memory_lookup pt (addr + of_nat i)) =
         vam_pa (virtual_memory_lookup pt addr) + of_nat i"
  using assms(2)
  by (auto simp: virtual_memory_lookup_def same_page_indexes[OF assms(1)] leaf_mapping_def
      split: ptslot.splits if_splits)


lemma kernel_read_in_memory:
  assumes "unat pa + n \<le> unat (NPAGES cfg) * 4096"
  shows "kernel_read cfg s pa n = Inr (map (\<lambda>i. physmem s (pa + of_nat i)) [0..<n])"
proof -
  have "\<And>i. i < n \<Longrightarrow> unat (pa + of_nat i) < unat (NPAGES cfg) * 4096"
  proof -
    fix i assume i: "i < n"
    have "unat (pa + of_nat i) \<le> unat pa + unat (of_nat i :: uintptr_t)"
      by (simp add: unat_word_ariths)
    also have "unat (of_nat i :: uintptr_t) \<le> i" by (simp add: unat_of_nat)
    finally show "unat (pa + of_nat i) < unat (NPAGES cfg) * 4096" using i assms by linarith
  qed
  then have "find (\<lambda>i. unat (NPAGES cfg) * 4096 \<le> unat (pa + of_nat i)) [0..<n] = None"
    by (auto simp: find_None_iff not_le)
  then show ?thesis by (simp add: kernel_read_def)
qed

text \<open>
  Claim C6 (as amended).  The panic system call with a null pointer halts with no
  message.  With a non-null pointer that is mapped in the caller's page table, and
  when the 160 bytes from the physical address the lookup returns lie inside physical
  memory, the kernel looks the pointer up once and copies exactly these 160
  consecutive bytes of physical memory, then halts; no permission is tested and no
  second lookup is made.  When the 160-byte window lies inside one page, the bytes
  copied are the bytes the caller's mappings give for the window.
\<close>

theorem sys_panic_reads:
  assumes "reg_intno reg = INT_SYS_PANIC"
  shows "(reg_rdi reg = 0 \<longrightarrow> exception cfg s reg fa = Some (Halted PanicNoMessage)) \<and>
    (reg_rdi reg \<noteq> 0 \<and>
     vam_pn (virtual_memory_lookup
        (pagetables s (p_pagetable (processes s (current s)))) (reg_rdi reg)) \<noteq> - 1 \<and>
     unat (vam_pa (virtual_memory_lookup
        (pagetables s (p_pagetable (processes s (current s)))) (reg_rdi reg))) + 160
       \<le> unat (NPAGES cfg) * 4096 \<longrightarrow>
       exception cfg s reg fa =
         Some (Halted (PanicMessage
           (map (\<lambda>i. physmem s
                   (vam_pa (virtual_memory_lookup
                      (pagetables s (p_pagetable (processes s (current s)))) (reg_rdi reg))
                    + of_nat i))
              [0..<160]))) \<and>
       (unat (reg_rdi reg) mod 4096 + 160 \<le> 4096 \<longrightarrow>
          map (\<lambda>i. physmem s
               (vam_pa (virtual_memory_lookup
                  (pagetables s (p_pagetable (processes s (current s)))) (reg_rdi reg))
                + of_nat i))
            [0..<160] =
          panic_message_following_mappings s
            (pagetables s (p_pagetable (processes s (current s)))) (reg_rdi reg)))"
proof (intro conjI impI)
  assume "reg_rdi reg = 0"
  then show "exception cfg s reg fa = Some (Halted PanicNoMessage)"
    using assms by (simp add: exception_def Let_def)
next
  let ?pt = "pagetables s (p_pagetable (processes s (current s)))"
  assume h: "reg_rdi reg \<noteq> 0 \<and> vam_pn (virtual_memory_lookup ?pt (reg_rdi reg)) \<noteq> - 1 \<and>
     unat (vam_pa (virtual_memory_lookup ?pt (reg_rdi reg))) + 160 \<le> unat (NPAGES cfg) * 4096"
  then have "kernel_read cfg (save_registers reg s) (vam_pa (virtual_memory_lookup ?pt (reg_rdi reg))) 160 =
      Inr (map (\<lambda>i. physmem s (vam_pa (virtual_memory_lookup ?pt (reg_rdi reg)) + of_nat i)) [0..<160])"
    using kernel_read_in_memory[of "vam_pa (virtual_memory_lookup ?pt (reg_rdi reg))" 160 cfg "save_registers reg s"]
    by simp
  then show "exception cfg s reg fa =
         Some (Halted (PanicMessage
           (map (\<lambda>i. physmem s (vam_pa (virtual_memory_lookup ?pt (reg_rdi reg)) + of_nat i))
              [0..<160])))"
    using assms h by (simp add: exception_def Let_def del: upt.simps)
next
  let ?pt = "pagetables s (p_pagetable (processes s (current s)))"
  assume h: "reg_rdi reg \<noteq> 0 \<and> vam_pn (virtual_memory_lookup ?pt (reg_rdi reg)) \<noteq> - 1 \<and>
     unat (vam_pa (virtual_memory_lookup ?pt (reg_rdi reg))) + 160 \<le> unat (NPAGES cfg) * 4096"
  assume w: "unat (reg_rdi reg) mod 4096 + 160 \<le> 4096"
  have "\<And>i. i < 160 \<Longrightarrow>
      vam_pa (virtual_memory_lookup ?pt (reg_rdi reg + of_nat i)) =
      vam_pa (virtual_memory_lookup ?pt (reg_rdi reg)) + of_nat i"
  proof -
    fix i :: nat assume "i < 160"
    with w have "unat (reg_rdi reg) mod 4096 + i < 4096" by linarith
    from same_page_lookup[OF this] h show
      "vam_pa (virtual_memory_lookup ?pt (reg_rdi reg + of_nat i)) =
       vam_pa (virtual_memory_lookup ?pt (reg_rdi reg)) + of_nat i" by simp
  qed
  then show "map (\<lambda>i. physmem s (vam_pa (virtual_memory_lookup ?pt (reg_rdi reg)) + of_nat i))
          [0..<160] =
       panic_message_following_mappings s ?pt (reg_rdi reg)"
    by (simp add: panic_message_following_mappings_def)
qed

theorem sys_panic_reads_witness:
  "reg_intno (trap_regs INT_SYS_PANIC 0x140010 0 0) = INT_SYS_PANIC \<and>
   virtual_memory_lookup (pt_of l4_6) 0x140010 =
      \<lparr>vam_pn = 10, vam_pa = 0xA010, vam_perm = 7\<rparr> \<and>
   unat (0xA010 :: uintptr_t) + 160 \<le> unat (NPAGES cfg1) * 4096 \<and>
   exception cfg1 ks6 (trap_regs INT_SYS_PANIC 0x140010 0 0) 0 =
     Some (Halted (PanicMessage (map (\<lambda>i. physmem ks6 (0xA010 + of_nat i)) [0..<160]))) \<and>
   map (\<lambda>i. physmem ks6 (0xA010 + of_nat i)) [0..<160] =
     panic_message_following_mappings ks6 (pt_of l4_6) 0x140010 \<and>
   exception cfg1 ks6 (trap_regs INT_SYS_PANIC 0 0 0) 0 = Some (Halted PanicNoMessage)"
proof -
  have l: "virtual_memory_lookup (pt_of l4_6) 0x140010 =
      \<lparr>vam_pn = 10, vam_pa = 0xA010, vam_perm = 7\<rparr>"
    by (simp add: lookup_defs pt_of_def l4_6_def)
  from sys_panic_reads [of "trap_regs INT_SYS_PANIC 0x140010 0 0" cfg1 ks6 0]
    sys_panic_reads [of "trap_regs INT_SYS_PANIC 0 0 0" cfg1 ks6 0]
  show ?thesis
    by (simp add: l del: upt.simps map_eq_conv)
qed

text \<open>
  Claim C6 as written fails on the code.  In \<open>ks6\<close> the window \<open>0x140FF0 .. 0x14108F\<close>
  spans two user pages mapped to the frames \<open>0xA000\<close> and \<open>0x9000\<close>: the code keeps
  reading frame \<open>0xB000\<close> past the end of the first one.  In \<open>ks5\<close> the page at
  \<open>0x142000\<close> is mapped for the kernel only (present and writable, not user): the code
  tests no permission and halts with the contents of that frame as the message.
\<close>

theorem sys_panic_not_as_specified:
  "exception cfg1 ks6 (trap_regs INT_SYS_PANIC 0x140FF0 0 0) 0 \<noteq>
     Some (Halted (panic_as_specified ks6 (pagetables ks6 0x8000) 0x140FF0)) \<and>
   vam_perm (virtual_memory_lookup (pagetables ks5 0x8000) 0x142000) AND PTE_U = 0 \<and>
   exception cfg1 ks5 (trap_regs INT_SYS_PANIC 0x142000 0 0) 0 \<noteq>
     Some (Halted (panic_as_specified ks5 (pagetables ks5 0x8000) 0x142000))"
proof (intro conjI)
  have l: "virtual_memory_lookup (pt_of l4_6) 0x140FF0 =
      \<lparr>vam_pn = 10, vam_pa = 0xAFF0, vam_perm = 7\<rparr>"
    "virtual_memory_lookup (pt_of l4_6) 0x14108F =
      \<lparr>vam_pn = 9, vam_pa = 0x908F, vam_perm = 7\<rparr>"
    "virtual_memory_lookup (pt_of l4_6) 0x141000 =
      \<lparr>vam_pn = 9, vam_pa = 0x9000, vam_perm = 7\<rparr>"
    by (simp_all add: lookup_defs pt_of_def l4_6_def)
  have kr: "kernel_read cfg1 s 0xAFF0 160 = Inr (map (\<lambda>i. physmem s (0xAFF0 + of_nat i)) [0..<160])"
    for s using kernel_read_in_memory[of "0xAFF0" 160 cfg1 s] by simp
  have code: "exception cfg1 ks6 (trap_regs INT_SYS_PANIC 0x140FF0 0 0) 0 =
      Some (Halted (PanicMessage (map (\<lambda>i. physmem ks6 (0xAFF0 + of_nat i)) [0..<160])))"
    by (simp add: exception_def Let_def l kr save_registers_def del: upt.simps)
  have spec: "panic_as_specified ks6 (pagetables ks6 0x8000) 0x140FF0 =
      PanicMessage (panic_message_following_mappings ks6 (pt_of l4_6) 0x140FF0)"
    by (simp add: panic_as_specified_def l PTE_P_def PTE_U_def)
  have c16: "map (\<lambda>i. physmem ks6 (0xAFF0 + of_nat i)) [0..<160] ! 16 = 0xB"
    by (simp del: upt.simps)
  have s16: "panic_message_following_mappings ks6 (pt_of l4_6) 0x140FF0 ! 16 = 0x9"
    by (simp add: panic_message_following_mappings_def l del: upt.simps)
  have "map (\<lambda>i. physmem ks6 (0xAFF0 + of_nat i)) [0..<160] \<noteq>
        panic_message_following_mappings ks6 (pt_of l4_6) 0x140FF0"
  proof
    assume "map (\<lambda>i. physmem ks6 (0xAFF0 + of_nat i)) [0..<160] =
        panic_message_following_mappings ks6 (pt_of l4_6) 0x140FF0"
    then have "map (\<lambda>i. physmem ks6 (0xAFF0 + of_nat i)) [0..<160] ! 16 =
        panic_message_following_mappings ks6 (pt_of l4_6) 0x140FF0 ! 16" by simp
    then show False by (simp only: c16 s16) simp
  qed
  then show "exception cfg1 ks6 (trap_regs INT_SYS_PANIC 0x140FF0 0 0) 0 \<noteq>
     Some (Halted (panic_as_specified ks6 (pagetables ks6 0x8000) 0x140FF0))"
    by (simp only: code spec) simp
next
  show "vam_perm (virtual_memory_lookup (pagetables ks5 0x8000) 0x142000) AND PTE_U = 0"
    by (simp add: lookup_defs pt_of_def l4_5_def)
next
  have l: "virtual_memory_lookup (pt_of l4_5) 0x142000 =
      \<lparr>vam_pn = 14, vam_pa = 0xE000, vam_perm = 3\<rparr>"
    "virtual_memory_lookup (pt_of l4_5) 0x14209F =
      \<lparr>vam_pn = 14, vam_pa = 0xE09F, vam_perm = 3\<rparr>"
    by (simp_all add: lookup_defs pt_of_def l4_5_def)
  have kr: "kernel_read cfg1 s 0xE000 160 = Inr (map (\<lambda>i. physmem s (0xE000 + of_nat i)) [0..<160])"
    for s using kernel_read_in_memory[of "0xE000" 160 cfg1 s] by simp
  have code: "exception cfg1 ks5 (trap_regs INT_SYS_PANIC 0x142000 0 0) 0 =
      Some (Halted (PanicMessage (map (\<lambda>i. physmem ks5 (0xE000 + of_nat i)) [0..<160])))"
    by (simp add: exception_def Let_def l kr save_registers_def del: upt.simps)
  have spec: "panic_as_specified ks5 (pagetables ks5 0x8000) 0x142000 = PanicNoMessage"
    by (simp add: panic_as_specified_def l PTE_P_def PTE_U_def)
  show "exception cfg1 ks5 (trap_regs INT_SYS_PANIC 0x142000 0 0) 0 \<noteq>
     Some (Halted (panic_as_specified ks5 (pagetables ks5 0x8000) 0x142000))"
    by (simp only: code spec) simp
qed

section \<open>The user allocator\<close>

subsection \<open>The list of headers\<close>


lemma set_hdr_fields [simp]:
  "hdr (set_hdr h a f) = (hdr h)(a := f (hdr h a))"
  "bytes (set_hdr h a f) = bytes h"
  "head (set_hdr h a f) = head h"
  "total_allocations (set_hdr h a f) = total_allocations h"
  "size_buffer (set_hdr h a f) = size_buffer h"
  "ptr_buffer (set_hdr h a f) = ptr_buffer h"
  "heap_break (set_hdr h a f) = heap_break h"
  "heap_original_break (set_hdr h a f) = heap_original_break h"
  "heap_break_limit (set_hdr h a f) = heap_break_limit h"
  by (simp_all add: set_hdr_def)

lemma list_at_nonzero: "list_at hs p as \<Longrightarrow> a \<in> set as \<Longrightarrow> a \<noteq> 0"
  by (induction as arbitrary: p) auto

lemma list_at_linked:
  "list_at hs p as \<Longrightarrow> prevs_at hs q as \<Longrightarrow> a \<in> set as \<Longrightarrow> a = p \<or> b_prev (hs a) \<noteq> 0"
proof (induction as arbitrary: p q)
  case Nil
  then show ?case by simp
next
  case (Cons x xs)
  show ?case
  proof (cases "a = x")
    case True
    with Cons.prems show ?thesis by simp
  next
    case False
    with Cons.prems have ax: "a \<in> set xs" by simp
    from Cons.prems have l: "list_at hs (b_next (hs x)) xs" and pr: "prevs_at hs x xs"
      and x0: "x \<noteq> 0" by simp_all
    from ax obtain y ys where xs: "xs = y # ys" by (cases xs) auto
    show ?thesis
    proof (cases "a = y")
      case True
      with pr xs x0 show ?thesis by simp
    next
      case False
      from Cons.IH[OF l pr ax] have "a = b_next (hs x) \<or> b_prev (hs a) \<noteq> 0" .
      moreover from l xs have "b_next (hs x) = y" by simp
      ultimately show ?thesis using False by simp
    qed
  qed
qed

lemma list_at_freed_update:
  "list_at (hs(b := (hs b)\<lparr>b_freed := v\<rparr>)) p as = list_at hs p as"
  by (induction as arbitrary: p) auto

lemma heap_info_tally_total:
  "list_at (hdr h) p as \<Longrightarrow> \<exists>r. heap_info_tally h p fs lg c = Some r"
proof (induction as arbitrary: p fs lg c)
  case Nil
  then show ?case by (subst heap_info_tally.simps) simp
next
  case (Cons a as)
  then have l: "list_at (hdr h) (b_next (hdr h a)) as" and p: "p = a" "a \<noteq> 0" by simp_all
  show ?case
    apply (subst heap_info_tally.simps)
    using Cons.IH[OF l] p by simp
qed

lemma heap_info_fill_total:
  "list_at (hdr h) p as \<Longrightarrow> b + live_count (hdr h) as \<le> length sizes \<Longrightarrow>
   length ptrs = length sizes \<Longrightarrow>
   \<exists>sp. heap_info_fill h p b sizes ptrs = Some (Inr sp)"
proof (induction as arbitrary: p b sizes ptrs)
  case Nil
  then show ?case by (subst heap_info_fill.simps) simp
next
  case (Cons a as)
  then have l: "list_at (hdr h) (b_next (hdr h a)) as" and p: "p = a" "a \<noteq> 0" by simp_all
  show ?case
  proof (cases "b_freed (hdr h a) = 0")
    case True
    with Cons.prems have b: "b < length sizes" "b < length ptrs"
      and n: "(b + 1) + live_count (hdr h) as \<le> length (sizes[b := b_size (hdr h a) - sizeof_free_block])"
      and le: "length (ptrs[b := a + sizeof_free_block]) = length (sizes[b := b_size (hdr h a) - sizeof_free_block])"
      by (simp_all add: live_count_def)
    from Cons.IH[OF l n le] show ?thesis
      apply (subst heap_info_fill.simps)
      using p b True by simp
  next
    case False
    with Cons.prems have n: "b + live_count (hdr h) as \<le> length sizes"
      by (simp add: live_count_def)
    from Cons.IH[OF l n Cons.prems(3)] show ?thesis
      apply (subst heap_info_fill.simps)
      using p False by simp
  qed
qed

lemma heap_info_reports_counter:
  assumes "list_at (hdr h) (head h) as"
    and "live_count (hdr h) as \<le> length (size_buffer h)"
    and "length (ptr_buffer h) = length (size_buffer h)"
  shows "\<exists>r i' h'. heap_info h (Some i) = Some (Inr (r, Some i', h')) \<and>
           num_allocs i' = total_allocations h"
proof -
  from heap_info_tally_total[OF assms(1)] obtain fs lg c where
    t: "heap_info_tally h (head h) 0 0 0 = Some (fs, lg, c)" by (metis prod_cases3)
  from heap_info_fill_total[OF assms(1), of 0 "size_buffer h" "ptr_buffer h"] assms(2,3)
  obtain sp where f: "heap_info_fill h (head h) 0 (size_buffer h) (ptr_buffer h) = Some (Inr sp)"
    by auto
  show ?thesis
    by (simp add: heap_info_def t f Let_def)
qed


lemma heap_two_simps [simp]:
  "hdr heap_two = hdr_two" "head heap_two = 0x140000" "total_allocations heap_two = 1"
  "heap_break heap_two = 0x140060" "size_buffer heap_two = replicate 1024 0"
  "ptr_buffer heap_two = replicate 1024 0" "bytes heap_two = (\<lambda>a. ucast a)"
  "heap_original_break heap_two = 0x140000" "heap_break_limit heap_two = 0x2FF000"
  by (simp_all add: heap_two_def heap_empty_def)

lemma hdr_two_simps [simp]:
  "hdr_two 0x140000 = \<lparr>b_size = 48, b_next = 0x140030, b_prev = 0, b_freed = 1\<rparr>"
  "hdr_two 0x140030 = \<lparr>b_size = 48, b_next = 0, b_prev = 0x140000, b_freed = 0\<rparr>"
  by (simp_all add: hdr_two_def)

lemma sint_minus_one:
  fixes x :: "32 word"
  assumes "0 \<le> sint x"
  shows "sint (x - 1) = sint x - 1"
proof -
  have "sint x < 2 ^ 31" using sint_lt[of x] by simp
  with assms show ?thesis
    by (simp add: sint_word_ariths signed_take_bit_int_eq_self)
qed

subsection \<open>Freeing a block twice\<close>

text \<open>
  Claim C10.  \<open>free\<close> on a non-null pointer whose block is in the list and already
  marked freed decrements \<open>total_allocations\<close> again, marks the block freed once more
  and returns; nothing else changes, so the list and the number of headers that are not
  freed stay as they were.  \<open>heap_info\<close> reports \<open>total_allocations\<close> as the number of
  live allocations: when the counter was equal to the number of non-freed headers
  before the call, the number reported afterwards is one less than the number of
  non-freed headers.  (The buffers of \<open>heap_info\<close> have room for the live blocks.)
\<close>

theorem double_free_count:
  assumes "list_at (hdr h) (head h) as" and "prevs_at (hdr h) 0 as"
    and "ptr \<noteq> 0" and "ptr - sizeof_free_block \<in> set as"
    and "b_freed (hdr h (ptr - sizeof_free_block)) \<noteq> 0"
    and "sint (total_allocations h) = int (live_count (hdr h) as)"
    and "live_count (hdr h) as \<le> length (size_buffer h)"
    and "length (ptr_buffer h) = length (size_buffer h)"
  shows "\<exists>h'. free h ptr = Some h' \<and>
       h' = h\<lparr>total_allocations := total_allocations h - 1,
               hdr := (hdr h)(ptr - sizeof_free_block :=
                              (hdr h (ptr - sizeof_free_block))\<lparr>b_freed := 1\<rparr>)\<rparr> \<and>
       list_at (hdr h') (head h') as \<and>
       live_count (hdr h') as = live_count (hdr h) as \<and>
       sint (total_allocations h') = int (live_count (hdr h') as) - 1 \<and>
       (\<exists>r i' h''. heap_info h' (Some i) = Some (Inr (r, Some i', h'')) \<and>
          num_allocs i' = total_allocations h' \<and>
          sint (num_allocs i') < int (live_count (hdr h') as))"
proof -
  let ?b = "ptr - sizeof_free_block"
  let ?h' = "h\<lparr>total_allocations := total_allocations h - 1,
               hdr := (hdr h)(?b := (hdr h ?b)\<lparr>b_freed := 1\<rparr>)\<rparr>"
  from list_at_linked[OF assms(1,2,4)] have lk: "?b = head h \<or> b_prev (hdr h ?b) \<noteq> 0" .
  have fr: "free h ptr = Some ?h'"
    using assms(3) lk by (auto simp: free_def Let_def set_hdr_def)
  have la: "list_at (hdr ?h') (head ?h') as"
    using assms(1) by (simp add: list_at_freed_update)
  have lc: "live_count (hdr ?h') as = live_count (hdr h) as"
  proof -
    have "\<And>a. (b_freed (((hdr h)(?b := (hdr h ?b)\<lparr>b_freed := 1\<rparr>)) a) = 0) = (b_freed (hdr h a) = 0)"
      using assms(5) by simp
    then show ?thesis by (simp add: live_count_def)
  qed
  have si: "sint (total_allocations ?h') = int (live_count (hdr ?h') as) - 1"
    using sint_minus_one[of "total_allocations h"] assms(6) lc by simp
  have b1: "live_count (hdr ?h') as \<le> length (size_buffer ?h')"
    using assms(7) lc by simp
  have b2: "length (ptr_buffer ?h') = length (size_buffer ?h')" using assms(8) by simp
  from heap_info_reports_counter[OF la b1 b2, of i] obtain r i' h'' where
    hi: "heap_info ?h' (Some i) = Some (Inr (r, Some i', h''))"
      "num_allocs i' = total_allocations ?h'" by blast
  have lt: "sint (num_allocs i') < int (live_count (hdr ?h') as)" using hi(2) si by simp
  show ?thesis
    apply (rule exI[of _ ?h'])
    using fr la lc si hi lt by blast
qed

theorem double_free_count_witness:
  "list_at (hdr heap_two) (head heap_two) [0x140000, 0x140030] \<and>
   prevs_at (hdr heap_two) 0 [0x140000, 0x140030] \<and>
   (0x140020 :: uintptr_t) \<noteq> 0 \<and>
   0x140020 - sizeof_free_block \<in> set [0x140000, 0x140030] \<and>
   b_freed (hdr heap_two (0x140020 - sizeof_free_block)) \<noteq> 0 \<and>
   sint (total_allocations heap_two) = int (live_count (hdr heap_two) [0x140000, 0x140030]) \<and>
   live_count (hdr heap_two) [0x140000, 0x140030] \<le> length (size_buffer heap_two) \<and>
   length (ptr_buffer heap_two) = length (size_buffer heap_two) \<and>
   free heap_two 0x140020 = Some (heap_two\<lparr>total_allocations := 0\<rparr>) \<and>
   live_count (hdr (heap_two\<lparr>total_allocations := 0\<rparr>)) [0x140000, 0x140030] = 1 \<and>
   (\<exists>r i' h''. heap_info (heap_two\<lparr>total_allocations := 0\<rparr>)
                  (Some \<lparr>num_allocs = 7, size_array = None, ptr_array = None,
                         free_space = 0, largest_free_chunk = 0\<rparr>)
                = Some (Inr (r, Some i', h'')) \<and> num_allocs i' = 0)"
proof -
  have h1: "list_at (hdr heap_two) (head heap_two) [0x140000, 0x140030]" by simp
  have h2: "prevs_at (hdr heap_two) 0 [0x140000, 0x140030]" by simp
  have h3: "(0x140020 :: uintptr_t) \<noteq> 0" by simp
  have h4: "0x140020 - sizeof_free_block \<in> set [0x140000, 0x140030]"
    by (simp add: sizeof_free_block_def)
  have h5: "b_freed (hdr heap_two (0x140020 - sizeof_free_block)) \<noteq> 0"
    by (simp add: sizeof_free_block_def)
  have lc: "live_count (hdr heap_two) [0x140000, 0x140030] = 1"
    by (simp add: live_count_def)
  have h6: "sint (total_allocations heap_two) = int (live_count (hdr heap_two) [0x140000, 0x140030])"
    by (simp add: live_count_def)
  have h7: "live_count (hdr heap_two) [0x140000, 0x140030] \<le> length (size_buffer heap_two)"
    by (simp add: live_count_def)
  have h8: "length (ptr_buffer heap_two) = length (size_buffer heap_two)" by simp
  have e: "heap_two\<lparr>total_allocations := total_allocations heap_two - 1,
               hdr := (hdr heap_two)(0x140020 - sizeof_free_block :=
                    (hdr heap_two (0x140020 - sizeof_free_block))\<lparr>b_freed := 1\<rparr>)\<rparr>
           = heap_two\<lparr>total_allocations := 0\<rparr>"
    by (simp add: sizeof_free_block_def fun_upd_idem heap_two_def)
  from double_free_count[OF h1 h2 h3 h4 h5 h6 h7 h8,
      of "\<lparr>num_allocs = 7, size_array = None, ptr_array = None,
                         free_space = 0, largest_free_chunk = 0\<rparr>"]
  obtain h' r i' h'' where
    a: "free heap_two 0x140020 = Some h'" and
    b: "h' = heap_two\<lparr>total_allocations := total_allocations heap_two - 1,
               hdr := (hdr heap_two)(0x140020 - sizeof_free_block :=
                    (hdr heap_two (0x140020 - sizeof_free_block))\<lparr>b_freed := 1\<rparr>)\<rparr>" and
    c: "heap_info h' (Some \<lparr>num_allocs = 7, size_array = None, ptr_array = None,
                         free_space = 0, largest_free_chunk = 0\<rparr>)
          = Some (Inr (r, Some i', h''))" and
    d: "num_allocs i' = total_allocations h'"
    by blast
  from b e have h': "h' = heap_two\<lparr>total_allocations := 0\<rparr>" by simp
  have lc': "live_count (hdr (heap_two\<lparr>total_allocations := 0\<rparr>)) [0x140000, 0x140030] = 1"
    by (simp add: live_count_def)
  from d h' have d': "num_allocs i' = 0" by simp
  from c h' d' have ex: "\<exists>r i' h''. heap_info (heap_two\<lparr>total_allocations := 0\<rparr>)
                  (Some \<lparr>num_allocs = 7, size_array = None, ptr_array = None,
                         free_space = 0, largest_free_chunk = 0\<rparr>)
                = Some (Inr (r, Some i', h'')) \<and> num_allocs i' = 0" by blast
  from a h' have fr: "free heap_two 0x140020 = Some (heap_two\<lparr>total_allocations := 0\<rparr>)" by simp
  from h1 h2 h3 h4 h5 h6 h7 h8 fr lc' ex show ?thesis by blast
qed


lemma list_at_unique: "list_at hs p as \<Longrightarrow> list_at hs p bs \<Longrightarrow> as = bs"
proof (induction as arbitrary: p bs)
  case Nil
  then show ?case by (cases bs) auto
next
  case (Cons a as)
  then show ?case by (cases bs) auto
qed

lemma list_at_suffix: "list_at hs p (xs @ a # ys) \<Longrightarrow> list_at hs a (a # ys)"
  by (induction xs arbitrary: p) auto

lemma list_at_distinct: "list_at hs p as \<Longrightarrow> distinct as"
proof (induction as arbitrary: p)
  case Nil
  then show ?case by simp
next
  case (Cons a as)
  then have l: "list_at hs (b_next (hs a)) as" and a0: "a \<noteq> 0" by simp_all
  have "a \<notin> set as"
  proof
    assume "a \<in> set as"
    then obtain xs ys where as: "as = xs @ a # ys" by (auto dest: split_list)
    from l as have "list_at hs a (a # ys)" by (auto dest: list_at_suffix)
    moreover from l a0 have "list_at hs a (a # as)" by simp
    ultimately have "a # ys = a # as" by (rule list_at_unique)
    with as show False by simp
  qed
  with Cons.IH[OF l] show ?case by simp
qed

lemma list_at_cong:
  "(\<And>x. x \<in> set as \<Longrightarrow> b_next (hs' x) = b_next (hs x)) \<Longrightarrow> list_at hs' p as = list_at hs p as"
  by (induction as arbitrary: p) auto

lemma subseq_sorted_wrt:
  "subseq xs ys \<Longrightarrow> sorted_wrt P ys \<Longrightarrow> sorted_wrt P xs"
proof (induction rule: list_emb.induct)
  case (list_emb_Nil ys)
  then show ?case by simp
next
  case (list_emb_Cons xs ys y)
  then show ?case by simp
next
  case (list_emb_Cons2 x y xs ys)
  then have "set xs \<subseteq> set ys" by (auto dest: list_emb_set)
  with list_emb_Cons2 show ?case by auto
qed

lemma no_adjacent_freed_Cons:
  "list_at hs n as \<Longrightarrow> n \<noteq> 0 \<Longrightarrow>
   no_adjacent_freed hs (a # as) =
     ((b_freed (hs a) = 0 \<or> b_freed (hs n) = 0 \<or> a + b_size (hs a) \<noteq> n)
      \<and> no_adjacent_freed hs as)"
  by (cases as) auto

lemma defrag_pass_run:
  "list_at (hdr h) cur as \<Longrightarrow>
   \<exists>h' as'. defrag_pass h cur dm = Some (h', dm \<or> length as' < length as) \<and>
      h' = h\<lparr>hdr := hdr h'\<rparr> \<and>
      list_at (hdr h') cur as' \<and> subseq as' as \<and> no_adjacent_freed (hdr h') as' \<and>
      (\<forall>x. b_freed (hdr h' x) = b_freed (hdr h x)) \<and>
      (\<forall>x. x \<notin> set as \<longrightarrow> hdr h' x = hdr h x)"
proof (induction "length as" arbitrary: h cur as dm rule: less_induct)
  case less
  show ?case
  proof (cases as)
    case Nil
    with less.prems have "cur = 0" by simp
    then have "defrag_pass h cur dm = Some (h, dm)" by (subst defrag_pass.simps) simp
    with Nil less.prems show ?thesis
      by (intro exI[of _ h] exI[of _ "[]"]) simp
  next
    case (Cons a as1)
    with less.prems have cur: "cur = a" "a \<noteq> 0" and l1: "list_at (hdr h) (b_next (hdr h a)) as1"
      by simp_all
    from less.prems have dist: "distinct as" by (rule list_at_distinct)
    show ?thesis
    proof (cases as1)
      case Nil
      with l1 cur have "b_next (hdr h cur) = 0" by simp
      then have "defrag_pass h cur dm = Some (h, dm)" by (subst defrag_pass.simps) simp
      with Nil Cons less.prems show ?thesis
        by (intro exI[of _ h] exI[of _ "[a]"]) simp
    next
      case Cons2: (Cons n rest)
      with l1 have n: "b_next (hdr h a) = n" "n \<noteq> 0" and l2: "list_at (hdr h) (b_next (hdr h n)) rest"
        by simp_all
      from dist Cons Cons2 have an: "a \<noteq> n" and ar: "a \<notin> set rest" and nr: "n \<notin> set rest" by auto
      show ?thesis
      proof (cases "b_freed (hdr h a) \<noteq> 0 \<and> b_freed (hdr h n) \<noteq> 0 \<and> a + b_size (hdr h a) = n")
        case True
        define h1 where "h1 = set_hdr h a (\<lambda>b. b\<lparr>b_size := b_size b + b_size (hdr h n)\<rparr>)"
        define h2 where "h2 = set_hdr h1 a (\<lambda>b. b\<lparr>b_next := b_next (hdr h1 n)\<rparr>)"
        define h3 where "h3 = (if b_next (hdr h2 n) \<noteq> 0
                then set_hdr h2 (b_next (hdr h2 n)) (\<lambda>b. b\<lparr>b_prev := a\<rparr>)
                else h2)"
        have step: "defrag_pass h cur dm = defrag_pass h3 a True"
          apply (subst defrag_pass.simps)
          using cur n True by (simp add: h1_def h2_def h3_def Let_def)
        have nn: "b_next (hdr h2 n) = b_next (hdr h n)" "b_next (hdr h1 n) = b_next (hdr h n)"
          using an by (simp_all add: h1_def h2_def)
        have nx3: "\<And>x. b_next (hdr h3 x) = b_next (hdr h2 x)"
          by (simp add: h3_def)
        have nx2: "\<And>x. x \<noteq> a \<Longrightarrow> hdr h2 x = hdr h x"
          by (simp add: h1_def h2_def)
        have nx: "\<And>x. x \<in> set rest \<Longrightarrow> b_next (hdr h3 x) = b_next (hdr h x)"
          using ar nx3 nx2 by metis
        have na: "b_next (hdr h3 a) = b_next (hdr h n)"
          using nx3[of a] nn by (simp add: h2_def)
        have l3: "list_at (hdr h3) a (a # rest)"
          using cur l2 na list_at_cong[of rest "hdr h3" "hdr h" "b_next (hdr h n)"] nx by simp
        have len: "length (a # rest) < length as" using Cons Cons2 by simp
        from less.hyps[OF len l3, of True] obtain h' as' where
          r: "defrag_pass h3 a True = Some (h', True \<or> length as' < length (a # rest))"
             "h' = h3\<lparr>hdr := hdr h'\<rparr>"
             "list_at (hdr h') a as'" "subseq as' (a # rest)" "no_adjacent_freed (hdr h') as'"
             "\<forall>x. b_freed (hdr h' x) = b_freed (hdr h3 x)"
             "\<forall>x. x \<notin> set (a # rest) \<longrightarrow> hdr h' x = hdr h3 x"
          by blast
        have h3h: "h3 = h\<lparr>hdr := hdr h3\<rparr>" by (simp add: h1_def h2_def h3_def set_hdr_def)
        have fr3: "\<And>x. b_freed (hdr h3 x) = b_freed (hdr h x)"
        proof -
          fix x
          have "b_freed (hdr h3 x) = b_freed (hdr h2 x)" by (simp add: h3_def)
          also have "\<dots> = b_freed (hdr h x)" by (simp add: h1_def h2_def)
          finally show "b_freed (hdr h3 x) = b_freed (hdr h x)" .
        qed
        have out3: "\<And>x. x \<notin> set as \<Longrightarrow> hdr h3 x = hdr h x"
        proof -
          fix x assume x: "x \<notin> set as"
          have m: "b_next (hdr h n) \<noteq> 0 \<Longrightarrow> b_next (hdr h n) \<in> set rest"
            using l2 by (cases rest) auto
          from x Cons Cons2 have xa: "x \<noteq> a" and xr: "x \<notin> set rest" by auto
          from m xr have "b_next (hdr h n) \<noteq> 0 \<Longrightarrow> x \<noteq> b_next (hdr h n)" by auto
          then have "hdr h3 x = hdr h2 x" using nn(1) by (simp add: h3_def)
          with nx2[OF xa] show "hdr h3 x = hdr h x" by simp
        qed
        have sub: "subseq as' as" using r(4) Cons Cons2
          by (metis list_emb_Cons subseq_Cons2_iff subseq_order.order_trans subseq_order.order_refl)
        have lenle: "length as' \<le> length (a # rest)" using r(4) by (rule list_emb_length)
        have "defrag_pass h cur dm = Some (h', dm \<or> length as' < length as)"
          using step r(1) lenle len by simp
        moreover have "h' = h\<lparr>hdr := hdr h'\<rparr>" using r(2) h3h
          by (metis heap.surjective heap.update_convs(1))
        moreover have "list_at (hdr h') cur as'" using r(3) cur by simp
        moreover have "\<forall>x. b_freed (hdr h' x) = b_freed (hdr h x)" using r(6) fr3 by simp
        moreover have "\<forall>x. x \<notin> set as \<longrightarrow> hdr h' x = hdr h x"
          using r(7) out3 Cons Cons2 by auto
        ultimately show ?thesis using sub r(5) by blast
      next
        case False
        have step: "defrag_pass h cur dm = defrag_pass h n dm"
          apply (subst defrag_pass.simps)
          using cur n False by auto
        have ln: "list_at (hdr h) n as1" using Cons2 n l2 by simp
        have len: "length as1 < length as" using Cons by simp
        from less.hyps[OF len ln, of dm] obtain h' as' where
          r: "defrag_pass h n dm = Some (h', dm \<or> length as' < length as1)"
             "h' = h\<lparr>hdr := hdr h'\<rparr>"
             "list_at (hdr h') n as'" "subseq as' as1" "no_adjacent_freed (hdr h') as'"
             "\<forall>x. b_freed (hdr h' x) = b_freed (hdr h x)"
             "\<forall>x. x \<notin> set as1 \<longrightarrow> hdr h' x = hdr h x"
          by blast
        from dist Cons have "a \<notin> set as1" by simp
        with r(7) have ha: "hdr h' a = hdr h a" by simp
        have la: "list_at (hdr h') cur (a # as')" using cur ha n r(3) by simp
        have noadj: "no_adjacent_freed (hdr h') (a # as')"
          using no_adjacent_freed_Cons[OF r(3) n(2), of a] r(5) r(6) ha False by auto
        have "defrag_pass h cur dm = Some (h', dm \<or> length (a # as') < length as)"
          using step r(1) Cons by simp
        moreover have "subseq (a # as') as" using r(4) Cons by simp
        moreover have "\<forall>x. x \<notin> set as \<longrightarrow> hdr h' x = hdr h x" using r(7) Cons by simp
        ultimately show ?thesis using r(2) la noadj r(6) by blast
      qed
    qed
  qed
qed


lemma defrag_loop_run:
  "list_at (hdr h) (head h) as \<Longrightarrow>
   \<exists>h' as'. defrag_loop h = Some h' \<and> h' = h\<lparr>hdr := hdr h'\<rparr> \<and>
      list_at (hdr h') (head h') as' \<and> subseq as' as \<and> no_adjacent_freed (hdr h') as' \<and>
      (\<forall>x. b_freed (hdr h' x) = b_freed (hdr h x)) \<and>
      (\<forall>x. x \<notin> set as \<longrightarrow> hdr h' x = hdr h x)"
proof (induction "length as" arbitrary: h as rule: less_induct)
  case less
  from defrag_pass_run[OF less.prems, of False] obtain h1 as1 where
    r: "defrag_pass h (head h) False = Some (h1, length as1 < length as)"
       "h1 = h\<lparr>hdr := hdr h1\<rparr>"
       "list_at (hdr h1) (head h) as1" "subseq as1 as" "no_adjacent_freed (hdr h1) as1"
       "\<forall>x. b_freed (hdr h1 x) = b_freed (hdr h x)"
       "\<forall>x. x \<notin> set as \<longrightarrow> hdr h1 x = hdr h x"
    by auto
  have hd1: "head h1 = head h" by (subst r(2)) simp
  show ?case
  proof (cases "length as1 < length as")
    case True
    from r(3) hd1 have l1: "list_at (hdr h1) (head h1) as1" by simp
    from less.hyps[OF True l1] obtain h' as' where
      s: "defrag_loop h1 = Some h'" "h' = h1\<lparr>hdr := hdr h'\<rparr>"
         "list_at (hdr h') (head h') as'" "subseq as' as1" "no_adjacent_freed (hdr h') as'"
         "\<forall>x. b_freed (hdr h' x) = b_freed (hdr h1 x)"
         "\<forall>x. x \<notin> set as1 \<longrightarrow> hdr h' x = hdr h1 x"
      by blast
    have "defrag_loop h = Some h'"
      apply (subst defrag_loop.simps)
      using r(1) True s(1) by simp
    moreover have "h' = h\<lparr>hdr := hdr h'\<rparr>" using s(2) r(2)
      by (metis heap.surjective heap.update_convs(1))
    moreover have "subseq as' as" using s(4) r(4) by (rule subseq_order.order_trans)
    moreover have "\<forall>x. b_freed (hdr h' x) = b_freed (hdr h x)" using s(6) r(6) by simp
    moreover have "\<forall>x. x \<notin> set as \<longrightarrow> hdr h' x = hdr h x"
    proof (intro allI impI)
      fix x assume x: "x \<notin> set as"
      from r(4) have "set as1 \<subseteq> set as" by (auto dest: list_emb_set)
      with x have "x \<notin> set as1" by auto
      with s(7) r(7) x show "hdr h' x = hdr h x" by simp
    qed
    ultimately show ?thesis using s(3) s(5) by blast
  next
    case False
    have "defrag_loop h = Some h1"
      apply (subst defrag_loop.simps)
      using r(1) False by simp
    with r hd1 show ?thesis by (intro exI[of _ h1] exI[of _ as1]) simp
  qed
qed


lemma heap_run_example:
  "malloc heap_empty 16 = Some (0x140020, heap_one)"
  "malloc heap_one 16 = Some (0x140050, heap_two_live)"
  "free heap_two_live 0x140020 = Some heap_two"
  "free heap_two 0x140050 = Some heap_two_freed"
proof -
  show "malloc heap_empty 16 = Some (0x140020, heap_one)"
    by (simp add: malloc_def malloc_scan.simps[of _ _ 0] user_sbrk_def Let_def heap_empty_def
        heap_one_def sizeof_free_block_def set_hdr_def fun_eq_iff zero_block_def)
  show "malloc heap_one 16 = Some (0x140050, heap_two_live)"
    by (simp add: malloc_def malloc_scan.simps malloc_last.simps user_sbrk_def Let_def
        heap_empty_def heap_one_def heap_two_live_def sizeof_free_block_def set_hdr_def
        fun_eq_iff zero_block_def)
  show "free heap_two_live 0x140020 = Some heap_two"
    by (simp add: free_def Let_def heap_two_live_def heap_two_def hdr_two_def heap_empty_def
        sizeof_free_block_def set_hdr_def fun_eq_iff zero_block_def)
  show "free heap_two 0x140050 = Some heap_two_freed"
    by (simp add: free_def Let_def heap_two_freed_def heap_two_def hdr_two_def heap_empty_def
        sizeof_free_block_def set_hdr_def fun_eq_iff zero_block_def)
qed

subsection \<open>\<open>defrag\<close>, \<open>free\<close> and the order of the list\<close>


lemma example_heads [simp]:
  "head heap_one = 0x140000" "head heap_two_live = 0x140000"
  "head heap_two_freed = 0x140000" "head heap_merged = 0x140000"
  by (simp_all add: heap_one_def heap_two_live_def heap_two_freed_def heap_merged_def)

lemma defrag_example: "defrag heap_two_freed = Some heap_merged"
proof -
  have p2: "defrag_pass heap_merged 0x140000 True = Some (heap_merged, True)"
    by (subst defrag_pass.simps) (simp add: heap_merged_def heap_empty_def)
  have m: "(let next = b_next (hdr heap_two_freed 0x140000);
                 h1 = set_hdr heap_two_freed 0x140000
                        (\<lambda>b. b\<lparr>b_size := b_size b + b_size (hdr heap_two_freed next)\<rparr>);
                 h2 = set_hdr h1 0x140000 (\<lambda>b. b\<lparr>b_next := b_next (hdr h1 next)\<rparr>)
             in if b_next (hdr h2 next) \<noteq> 0
                then set_hdr h2 (b_next (hdr h2 next)) (\<lambda>b. b\<lparr>b_prev := 0x140000\<rparr>)
                else h2) = heap_merged"
    by (simp add: Let_def heap_two_freed_def heap_merged_def heap_empty_def set_hdr_def
        fun_eq_iff zero_block_def)
  have p1: "defrag_pass heap_two_freed 0x140000 False = Some (heap_merged, True)"
    apply (subst defrag_pass.simps)
    apply (simp only: m)
    apply (simp add: p2)
    apply (simp add: heap_two_freed_def heap_empty_def)
    done
  have p3: "defrag_pass heap_merged 0x140000 False = Some (heap_merged, False)"
    by (subst defrag_pass.simps) (simp add: heap_merged_def heap_empty_def)
  have l2: "defrag_loop heap_merged = Some heap_merged"
    by (subst defrag_loop.simps) (simp add: p3)
  have l1: "defrag_loop heap_two_freed = Some heap_merged"
    by (subst defrag_loop.simps) (simp add: p1 l2)
  show ?thesis
    by (simp add: defrag_def l1)
qed

text \<open>
  Claim C4 (as amended).  On a list of headers that is in strict address order,
  \<open>defrag\<close> returns with the headers still in strict address order (the list after the
  call is the list before it with the merged blocks left out) and with no two freed
  blocks that are adjacent in the list physically adjacent.  \<open>free\<close> on a block that is
  in the list only marks it freed and decrements the counter: the list and its address
  order stay as they were, and the block is not merged with a neighbour.
\<close>

theorem defrag_free_order:
  assumes "list_at (hdr h) (head h) as" and "sorted_wrt (<) as"
  shows "(\<exists>h' as'. defrag h = Some h' \<and> h' = h\<lparr>hdr := hdr h'\<rparr> \<and>
            list_at (hdr h') (head h') as' \<and> subseq as' as \<and> sorted_wrt (<) as' \<and>
            no_adjacent_freed (hdr h') as' \<and>
            (\<forall>x. b_freed (hdr h' x) = b_freed (hdr h x))) \<and>
         (ptr \<noteq> 0 \<and> ptr - sizeof_free_block \<in> set as \<and> prevs_at (hdr h) 0 as \<longrightarrow>
            (\<exists>h'. free h ptr = Some h' \<and>
               h' = h\<lparr>total_allocations := total_allocations h - 1,
                       hdr := (hdr h)(ptr - sizeof_free_block :=
                                (hdr h (ptr - sizeof_free_block))\<lparr>b_freed := 1\<rparr>)\<rparr> \<and>
               list_at (hdr h') (head h') as))"
proof (intro conjI impI)
  show "\<exists>h' as'. defrag h = Some h' \<and> h' = h\<lparr>hdr := hdr h'\<rparr> \<and>
            list_at (hdr h') (head h') as' \<and> subseq as' as \<and> sorted_wrt (<) as' \<and>
            no_adjacent_freed (hdr h') as' \<and>
            (\<forall>x. b_freed (hdr h' x) = b_freed (hdr h x))"
  proof (cases "head h = 0")
    case True
    with assms(1) have "as = []" by (cases as) auto
    with True assms(1) show ?thesis
      by (intro exI[of _ h] exI[of _ "[]"]) (simp add: defrag_def)
  next
    case False
    from defrag_loop_run[OF assms(1)] obtain h' as' where
      r: "defrag_loop h = Some h'" "h' = h\<lparr>hdr := hdr h'\<rparr>"
         "list_at (hdr h') (head h') as'" "subseq as' as" "no_adjacent_freed (hdr h') as'"
         "\<forall>x. b_freed (hdr h' x) = b_freed (hdr h x)"
      by blast
    from r(4) assms(2) have "sorted_wrt (<) as'" by (rule subseq_sorted_wrt)
    moreover from False r(1) have "defrag h = Some h'" by (simp add: defrag_def)
    ultimately show ?thesis using r by blast
  qed
next
  let ?b = "ptr - sizeof_free_block"
  let ?h' = "h\<lparr>total_allocations := total_allocations h - 1,
               hdr := (hdr h)(?b := (hdr h ?b)\<lparr>b_freed := 1\<rparr>)\<rparr>"
  assume a: "ptr \<noteq> 0 \<and> ?b \<in> set as \<and> prevs_at (hdr h) 0 as"
  then have p0: "ptr \<noteq> 0" and bin: "?b \<in> set as" and pr: "prevs_at (hdr h) 0 as" by simp_all
  from list_at_linked[OF assms(1) pr bin] have lk: "?b = head h \<or> b_prev (hdr h ?b) \<noteq> 0" .
  have fr: "free h ptr = Some ?h'"
    using p0 lk by (auto simp: free_def Let_def set_hdr_def)
  have la: "list_at (hdr ?h') (head ?h') as"
    using assms(1) by (simp add: list_at_freed_update)
  from fr la show "\<exists>h'. free h ptr = Some h' \<and> h' = ?h' \<and> list_at (hdr h') (head h') as"
    by blast
qed

theorem defrag_free_order_witness:
  "list_at (hdr heap_two) (head heap_two) [0x140000, 0x140030] \<and>
   sorted_wrt (<) [0x140000, 0x140030 :: uintptr_t] \<and>
   (0x140050 :: uintptr_t) \<noteq> 0 \<and>
   0x140050 - sizeof_free_block \<in> set [0x140000, 0x140030] \<and>
   prevs_at (hdr heap_two) 0 [0x140000, 0x140030] \<and>
   (\<exists>h' as'. defrag heap_two = Some h' \<and> list_at (hdr h') (head h') as' \<and>
       subseq as' [0x140000, 0x140030] \<and> sorted_wrt (<) as' \<and>
       no_adjacent_freed (hdr h') as') \<and>
   free heap_two 0x140050 = Some heap_two_freed \<and>
   list_at (hdr heap_two_freed) (head heap_two_freed) [0x140000, 0x140030] \<and>
   defrag heap_two_freed = Some heap_merged \<and>
   list_at (hdr heap_merged) (head heap_merged) [0x140000]"
proof -
  have h1: "list_at (hdr heap_two) (head heap_two) [0x140000, 0x140030]" by simp
  have h2: "sorted_wrt (<) [0x140000, 0x140030 :: uintptr_t]" by simp
  have h3: "(0x140050 :: uintptr_t) \<noteq> 0" by simp
  have h4: "0x140050 - sizeof_free_block \<in> set [0x140000, 0x140030]"
    by (simp add: sizeof_free_block_def)
  have h5: "prevs_at (hdr heap_two) 0 [0x140000, 0x140030]" by simp
  have e: "heap_two\<lparr>total_allocations := total_allocations heap_two - 1,
               hdr := (hdr heap_two)(0x140050 - sizeof_free_block :=
                    (hdr heap_two (0x140050 - sizeof_free_block))\<lparr>b_freed := 1\<rparr>)\<rparr>
           = heap_two_freed"
    by (simp add: sizeof_free_block_def heap_two_def heap_two_freed_def hdr_two_def fun_eq_iff)
  from defrag_free_order[OF h1 h2, of "0x140050"] h3 h4 h5
  obtain h' as' h'' where
    d: "defrag heap_two = Some h'" "list_at (hdr h') (head h') as'"
       "subseq as' [0x140000, 0x140030]" "sorted_wrt (<) as'" "no_adjacent_freed (hdr h') as'" and
    f: "free heap_two 0x140050 = Some h''"
       "h'' = heap_two\<lparr>total_allocations := total_allocations heap_two - 1,
               hdr := (hdr heap_two)(0x140050 - sizeof_free_block :=
                    (hdr heap_two (0x140050 - sizeof_free_block))\<lparr>b_freed := 1\<rparr>)\<rparr>"
       "list_at (hdr h'') (head h'') [0x140000, 0x140030]"
    by blast
  from f(2) e have hf: "h'' = heap_two_freed" by (rule trans)
  from f(1) f(3) have f': "free heap_two 0x140050 = Some heap_two_freed"
    "list_at (hdr heap_two_freed) (head heap_two_freed) [0x140000, 0x140030]"
    unfolding hf by blast+
  have m: "list_at (hdr heap_merged) (head heap_merged) [0x140000]"
    by (simp add: heap_merged_def)
  from d have ex: "\<exists>h' as'. defrag heap_two = Some h' \<and> list_at (hdr h') (head h') as' \<and>
       subseq as' [0x140000, 0x140030] \<and> sorted_wrt (<) as' \<and>
       no_adjacent_freed (hdr h') as'" by blast
  from h1 h2 h3 h4 h5 ex f' defrag_example m show ?thesis by blast
qed

text \<open>
  Claim C4 as written fails on the code: \<open>free\<close> returns as soon as it finds the block
  linked, before the code that merges neighbours.  After \<open>malloc(16)\<close>, \<open>malloc(16)\<close>
  and \<open>free\<close> of both pointers the two freed blocks still follow each other in the list
  and the first one ends where the second one starts.
\<close>

theorem free_leaves_adjacent_freed:
  "malloc heap_empty 16 = Some (0x140020, heap_one) \<and>
   malloc heap_one 16 = Some (0x140050, heap_two_live) \<and>
   free heap_two_live 0x140020 = Some heap_two \<and>
   free heap_two 0x140050 = Some heap_two_freed \<and>
   list_at (hdr heap_two_freed) (head heap_two_freed) [0x140000, 0x140030] \<and>
   b_freed (hdr heap_two_freed 0x140000) = 1 \<and>
   b_freed (hdr heap_two_freed 0x140030) = 1 \<and>
   0x140000 + b_size (hdr heap_two_freed 0x140000) = 0x140030 \<and>
   \<not> no_adjacent_freed (hdr heap_two_freed) [0x140000, 0x140030]"
  using heap_run_example by (simp add: heap_two_freed_def)


subsection \<open>Sizes close to \<open>2^64\<close>\<close>

text \<open>
  Claim C7 (the code departs from it).  \<open>malloc\<close> is to round the size up to a multiple
  of 8, add the header size and take a freed block of at least that total, or grow the
  heap by it.  For \<open>sz = 2^64 - 32\<close> the sum \<open>align_size + sizeof(free_block)\<close> wraps
  around to 0.  In \<open>heap_two\<close>, which \<open>malloc(16)\<close>, \<open>malloc(16)\<close> and \<open>free\<close> of the first
  pointer produce, the freed block of 48 bytes at \<open>0x140000\<close> then counts as large
  enough and as large enough to split; the upper part starts at the block itself, so
  the call returns the payload of that block, 16 bytes, and leaves its header with size
  0 and with \<open>next\<close> and \<open>prev\<close> pointing to itself: the block at \<open>0x140030\<close> is cut off
  from the list.  For \<open>sz = 2^64 - 1\<close> the rounded size wraps around to 0, and on the
  empty heap the call grows the heap by a bare header and returns a payload of no
  bytes.
\<close>

theorem malloc_size_overflow:
  "((0xFFFFFFFFFFFFFFE0 :: 64 word) + 7) AND NOT 7 = 0xFFFFFFFFFFFFFFE0 \<and>
   (0xFFFFFFFFFFFFFFE0 :: 64 word) + sizeof_free_block = 0 \<and>
   hdr heap_two 0x140000 = \<lparr>b_size = 48, b_next = 0x140030, b_prev = 0, b_freed = 1\<rparr> \<and>
   malloc heap_two 0xFFFFFFFFFFFFFFE0 =
     Some (0x140020,
       heap_two\<lparr>hdr := hdr_two(0x140000 :=
                  \<lparr>b_size = 0, b_next = 0x140000, b_prev = 0x140000, b_freed = 0\<rparr>),
                total_allocations := 2\<rparr>) \<and>
   ((0xFFFFFFFFFFFFFFFF :: 64 word) + 7) AND NOT 7 = 0 \<and>
   malloc heap_empty 0xFFFFFFFFFFFFFFFF =
     Some (0x140020,
       heap_empty\<lparr>hdr := (\<lambda>a. zero_block)(0x140000 :=
                  \<lparr>b_size = 32, b_next = 0, b_prev = 0, b_freed = 0\<rparr>),
                head := 0x140000, total_allocations := 1, heap_break := 0x140020\<rparr>)"
proof (intro conjI)
  show "malloc heap_two 0xFFFFFFFFFFFFFFE0 =
     Some (0x140020,
       heap_two\<lparr>hdr := hdr_two(0x140000 :=
                  \<lparr>b_size = 0, b_next = 0x140000, b_prev = 0x140000, b_freed = 0\<rparr>),
                total_allocations := 2\<rparr>)"
    by (simp add: malloc_def malloc_scan.simps malloc_split_def Let_def UINT64_MAX_def
        sizeof_free_block_def set_hdr_def hdr_two_def zero_block_def heap_two_def
        heap_empty_def fun_eq_iff)
  show "malloc heap_empty 0xFFFFFFFFFFFFFFFF =
     Some (0x140020,
       heap_empty\<lparr>hdr := (\<lambda>a. zero_block)(0x140000 :=
                  \<lparr>b_size = 32, b_next = 0, b_prev = 0, b_freed = 0\<rparr>),
                head := 0x140000, total_allocations := 1, heap_break := 0x140020\<rparr>)"
    by (simp add: malloc_def malloc_scan.simps[of _ _ 0] user_sbrk_def Let_def heap_empty_def
        sizeof_free_block_def set_hdr_def zero_block_def fun_eq_iff)
qed (simp_all add: sizeof_free_block_def)

text \<open>
  Claim C8 (the code departs from it).  \<open>realloc\<close> is to return the pointer unchanged
  only when the payload of its block accommodates \<open>sz\<close>, and to allocate, copy and free
  otherwise.  In \<open>heap_two_live\<close>, which \<open>malloc(16)\<close> and \<open>malloc(16)\<close> produce, the
  block of the first pointer has a payload of 16 bytes.  For \<open>sz = 2^64 - 32\<close> the sum
  \<open>sz + sizeof(free_block)\<close> in the test wraps around to 0, the test succeeds, and the
  call returns the pointer with the heap unchanged: nothing is allocated, copied or
  freed.
\<close>

theorem realloc_size_overflow:
  "malloc heap_empty 16 = Some (0x140020, heap_one) \<and>
   malloc heap_one 16 = Some (0x140050, heap_two_live) \<and>
   b_size (hdr heap_two_live (0x140020 - sizeof_free_block)) - sizeof_free_block = 16 \<and>
   (16 :: 64 word) < 0xFFFFFFFFFFFFFFE0 \<and>
   (0xFFFFFFFFFFFFFFE0 :: 64 word) + sizeof_free_block = 0 \<and>
   realloc heap_two_live 0x140020 0xFFFFFFFFFFFFFFE0 = Some (0x140020, heap_two_live)"
proof (intro conjI)
  show "realloc heap_two_live 0x140020 0xFFFFFFFFFFFFFFE0 = Some (0x140020, heap_two_live)"
    by (simp add: realloc_def Let_def sizeof_free_block_def heap_two_live_def)
qed (simp_all add: sizeof_free_block_def heap_run_example heap_two_live_def)

end
